(* ===== verification/Prelude.thy ===== *)
theory Prelude
  imports Main "HOL-Library.AList" "HOL-Library.Multiset" "HOL-Library.Monad_Syntax"
begin

section \<open>Shared vocabulary of the development\<close>

text \<open>
  What every component theory uses: the outcome of running a piece of Go code and the
  state-passing sequencing of such pieces, Go maps as association lists with one entry per
  key, Go strings, the errors of the program, and a handful of list lemmas.
\<close>

named_theorems go_run \<open>equations that execute one statement of the code\<close>
named_theorems gmap_simps \<open>lookup, update and size of Go maps\<close>

subsection \<open>Errors\<close>

text \<open>
  The error values of the program. The package-level sentinels of \<open>pkg/pool/pool.go\<close> and
  \<open>pkg/storage/store.go\<close> are constructors of their own (the storage's and the pool's
  \<open>ErrNotFound\<close> are different values in Go and compare unequal). \<open>Errorf\<close> is an error built
  by \<open>fmt.Errorf\<close> or \<open>errors.New\<close>, with the constant part of its message and the error it
  wraps or formats, if any. \<open>Foreign\<close> is an error returned by code outside the repository.
\<close>

datatype error =
    ErrNoAvailableResource
  | ErrInvalidState
  | ErrNotFound
  | ErrContextDone
  | ErrInvalidArguments
  | StorageErrNotFound
  | Errorf string "error option"
  | Foreign string

subsection \<open>Outcomes and sequencing\<close>

text \<open>
  A run of Go code ends in one of four ways: it returns, it panics (an index out of range, a
  nil pointer dereference, unlocking an unlocked mutex, a negative channel size), it blocks
  forever when nobody else moves (a mutex that is held, a channel operation with no partner),
  or the model's loop fuel was too small, which every looping definition has a lemma against.
\<close>

datatype halt = Panicked | Blocked | NoFuel

datatype 'a outcome = Returns 'a | Halts halt

type_synonym ('s, 'a) go = "'s \<Rightarrow> 'a outcome \<times> 's"

definition go_return :: "'a \<Rightarrow> ('s, 'a) go" where
  "go_return a = (\<lambda>s. (Returns a, s))"

definition go_halt :: "halt \<Rightarrow> ('s, 'a) go" where
  "go_halt h = (\<lambda>s. (Halts h, s))"

definition go_bind :: "('s, 'a) go \<Rightarrow> ('a \<Rightarrow> ('s, 'b) go) \<Rightarrow> ('s, 'b) go" where
  "go_bind m f = (\<lambda>s. case m s of (r, t) \<Rightarrow>
     (case r of Returns a \<Rightarrow> f a t | Halts h \<Rightarrow> (Halts h, t)))"

definition go_seq :: "('s, 'a) go \<Rightarrow> ('s, 'b) go \<Rightarrow> ('s, 'b) go" where
  "go_seq m k = go_bind m (\<lambda>_. k)"

definition go_get :: "('s \<Rightarrow> 'a) \<Rightarrow> ('s, 'a) go" where
  "go_get f = (\<lambda>s. (Returns (f s), s))"

definition go_modify :: "('s \<Rightarrow> 's) \<Rightarrow> ('s, unit) go" where
  "go_modify f = (\<lambda>s. (Returns (), f s))"

text \<open>Reading through a pointer or an index: \<open>None\<close> is the panic.\<close>

definition go_deref :: "'a option \<Rightarrow> ('s, 'a) go" where
  "go_deref x = (case x of None \<Rightarrow> go_halt Panicked | Some a \<Rightarrow> go_return a)"

text \<open>Running code of a part of the state.\<close>

definition go_zoom :: "('s \<Rightarrow> 'e) \<Rightarrow> ('e \<Rightarrow> 's \<Rightarrow> 's) \<Rightarrow> ('e, 'a) go \<Rightarrow> ('s, 'a) go" where
  "go_zoom get put m = (\<lambda>s. case m (get s) of (r, e) \<Rightarrow> (r, put e s))"

lemma go_return_run [simp, go_run]: "go_return a s = (Returns a, s)"
  by (simp add: go_return_def)

lemma go_halt_run [simp, go_run]: "go_halt h s = (Halts h, s)"
  by (simp add: go_halt_def)

lemma go_bind_run [simp, go_run]:
  "go_bind m f s = (case m s of (r, t) \<Rightarrow>
     (case r of Returns a \<Rightarrow> f a t | Halts h \<Rightarrow> (Halts h, t)))"
  by (simp add: go_bind_def)

lemma go_seq_run [simp, go_run]:
  "go_seq m k s = (case m s of (r, t) \<Rightarrow>
     (case r of Returns a \<Rightarrow> k t | Halts h \<Rightarrow> (Halts h, t)))"
  by (simp add: go_seq_def)

lemma go_get_run [simp, go_run]: "go_get f s = (Returns (f s), s)"
  by (simp add: go_get_def)

lemma go_modify_run [simp, go_run]: "go_modify f s = (Returns (), f s)"
  by (simp add: go_modify_def)

lemma go_deref_run [simp, go_run]:
  "go_deref None s = (Halts Panicked, s)" "go_deref (Some a) s = (Returns a, s)"
  by (simp_all add: go_deref_def)

lemma go_zoom_run [simp, go_run]:
  "go_zoom get put m s = (case m (get s) of (r, e) \<Rightarrow> (r, put e s))"
  by (simp add: go_zoom_def)

text \<open>
  A predicate is kept by a piece of code when it holds afterwards, however the run ended,
  if it held before. The rules below compose it along the code.
\<close>

definition keeps :: "('s \<Rightarrow> bool) \<Rightarrow> ('s, 'a) go \<Rightarrow> bool" where
  "keeps I m \<longleftrightarrow> (\<forall>s. I s \<longrightarrow> I (snd (m s)))"

named_theorems keeps_rules \<open>composition rules for kept predicates\<close>

lemma keepsI: "(\<And>s. I s \<Longrightarrow> I (snd (m s))) \<Longrightarrow> keeps I m"
  by (simp add: keeps_def)

lemma keepsD: "keeps I m \<Longrightarrow> I s \<Longrightarrow> m s = (r, t) \<Longrightarrow> I t"
  by (metis keeps_def snd_conv)

lemma keeps_return [keeps_rules]: "keeps I (go_return a)"
  by (simp add: keeps_def)

lemma keeps_halt [keeps_rules]: "keeps I (go_halt h)"
  by (simp add: keeps_def)

lemma keeps_get [keeps_rules]: "keeps I (go_get f)"
  by (simp add: keeps_def)

lemma keeps_deref [keeps_rules]: "keeps I (go_deref x)"
  by (cases x) (simp_all add: keeps_def)

lemma keeps_bind [keeps_rules]:
  "keeps I m \<Longrightarrow> (\<And>a. keeps I (f a)) \<Longrightarrow> keeps I (go_bind m f)"
  by (force simp: keeps_def split: prod.splits outcome.splits)

lemma keeps_seq [keeps_rules]: "keeps I m \<Longrightarrow> keeps I k \<Longrightarrow> keeps I (go_seq m k)"
  unfolding go_seq_def by (rule keeps_bind)

lemma keeps_if [keeps_rules]:
  "(b \<Longrightarrow> keeps I m) \<Longrightarrow> (\<not> b \<Longrightarrow> keeps I k) \<Longrightarrow> keeps I (if b then m else k)"
  by simp

lemma keeps_modify: "(\<And>s. I s \<Longrightarrow> I (f s)) \<Longrightarrow> keeps I (go_modify f)"
  by (simp add: keeps_def)

subsection \<open>Go maps\<close>

text \<open>
  A Go map is an association list with at most one entry per key. The order of the list
  stands for the order in which one \<open>range\<close> over the map visits it; Go leaves that order
  open, and no statement of the development depends on it.
\<close>

type_synonym ('k, 'v) gmap = "('k \<times> 'v) list"

definition gmap_get :: "('k, 'v) gmap \<Rightarrow> 'k \<Rightarrow> 'v option" where
  "gmap_get m k = map_of m k"

definition gmap_put :: "('k, 'v) gmap \<Rightarrow> 'k \<Rightarrow> 'v \<Rightarrow> ('k, 'v) gmap" where
  "gmap_put m k v = AList.update k v m"

definition gmap_delete :: "('k, 'v) gmap \<Rightarrow> 'k \<Rightarrow> ('k, 'v) gmap" where
  "gmap_delete m k = AList.delete k m"

definition gmap_keys :: "('k, 'v) gmap \<Rightarrow> 'k set" where
  "gmap_keys m = fst ` set m"

definition gmap_ok :: "('k, 'v) gmap \<Rightarrow> bool" where
  "gmap_ok m = distinct (map fst m)"

lemma gmap_ok_Nil [simp]: "gmap_ok []"
  by (simp add: gmap_ok_def)

lemma gmap_ok_put [simp]: "gmap_ok m \<Longrightarrow> gmap_ok (gmap_put m k v)"
  by (simp add: gmap_ok_def gmap_put_def distinct_update)

lemma gmap_ok_delete [simp]: "gmap_ok m \<Longrightarrow> gmap_ok (gmap_delete m k)"
  by (simp add: gmap_ok_def gmap_delete_def distinct_delete)

lemma gmap_get_put [simp, gmap_simps]:
  "gmap_get (gmap_put m k v) k' = (if k = k' then Some v else gmap_get m k')"
  by (simp add: gmap_get_def gmap_put_def update_conv')

lemma gmap_get_delete [simp, gmap_simps]:
  "gmap_get (gmap_delete m k) k' = (if k = k' then None else gmap_get m k')"
  by (auto simp: gmap_get_def gmap_delete_def delete_conv')

lemma gmap_get_Nil [simp, gmap_simps]: "gmap_get [] k = None"
  by (simp add: gmap_get_def)

lemma gmap_keys_put [simp, gmap_simps]: "gmap_keys (gmap_put m k v) = insert k (gmap_keys m)"
  by (simp add: gmap_keys_def gmap_put_def dom_update)

lemma gmap_keys_delete [simp, gmap_simps]: "gmap_keys (gmap_delete m k) = gmap_keys m - {k}"
  by (auto simp: gmap_keys_def gmap_delete_def AList.delete_eq)

lemma gmap_keys_Nil [simp, gmap_simps]: "gmap_keys [] = {}"
  by (simp add: gmap_keys_def)

lemma gmap_get_None_iff: "gmap_get m k = None \<longleftrightarrow> k \<notin> gmap_keys m"
  by (simp add: gmap_get_def gmap_keys_def map_of_eq_None_iff)

lemma gmap_get_Some_key: "gmap_get m k = Some v \<Longrightarrow> k \<in> gmap_keys m"
  using gmap_get_None_iff [of m k] by auto

lemma gmap_get_Some_in: "gmap_get m k = Some v \<Longrightarrow> (k, v) \<in> set m"
  by (simp add: gmap_get_def map_of_SomeD)

lemma gmap_in_get: "gmap_ok m \<Longrightarrow> (k, v) \<in> set m \<Longrightarrow> gmap_get m k = Some v"
  by (simp add: gmap_get_def gmap_ok_def)

lemma length_gmap_card: "gmap_ok m \<Longrightarrow> length m = card (gmap_keys m)"
  unfolding gmap_ok_def gmap_keys_def
  by (metis distinct_card length_map set_map)

lemma finite_gmap_keys [simp]: "finite (gmap_keys m)"
  by (simp add: gmap_keys_def)

lemma length_gmap_put:
  assumes "gmap_ok m"
  shows "length (gmap_put m k v) = (if k \<in> gmap_keys m then length m else Suc (length m))"
  using assms length_gmap_card [OF assms] length_gmap_card [OF gmap_ok_put [OF assms], of k v]
  by (auto simp: insert_absorb)

lemma length_gmap_delete:
  assumes "gmap_ok m"
  shows "length (gmap_delete m k) = (if k \<in> gmap_keys m then length m - 1 else length m)"
  using assms length_gmap_card [OF assms] length_gmap_card [OF gmap_ok_delete [OF assms], of k]
  by auto

lemma set_gmap_put: "set (gmap_put m k v) \<subseteq> insert (k, v) (set m)"
  unfolding gmap_put_def
  by (induction m) auto

lemma set_gmap_delete: "set (gmap_delete m k) \<subseteq> set m"
  by (auto simp: gmap_delete_def AList.delete_eq)

lemma gmap_values_get:
  assumes "gmap_ok m"
  shows "(\<exists>key p. gmap_get m key = Some p \<and> Q p) \<longleftrightarrow> (\<exists>p \<in> snd ` set m. Q p)"
proof
  assume "\<exists>key p. gmap_get m key = Some p \<and> Q p"
  then obtain key p where "(key, p) \<in> set m" "Q p" using gmap_get_Some_in by metis
  then show "\<exists>p \<in> snd ` set m. Q p" by force
next
  assume "\<exists>p \<in> snd ` set m. Q p"
  then obtain key p where "(key, p) \<in> set m" "Q p" by auto
  then show "\<exists>key p. gmap_get m key = Some p \<and> Q p" using gmap_in_get [OF assms] by metis
qed

subsection \<open>List lemmas\<close>

lemma mset_list_swap:
  "i < length xs \<Longrightarrow> j < length xs \<Longrightarrow> mset (xs[i := xs ! j, j := xs ! i]) = mset xs"
  by (rule mset_swap)

lemma take_update_below: "i < n \<Longrightarrow> take n (xs[i := x]) = (take n xs)[i := x]"
  by (simp add: take_update_swap)

lemma take_update_above: "n \<le> i \<Longrightarrow> take n (xs[i := x]) = take n xs"
  by simp

end
