(* ===== verification/Resources.thy ===== *)
theory Resources
  imports Prelude
begin

section \<open>Neutron ports and network resources\<close>

text \<open>
  The resource the pool hands out. \<open>Port\<close> is the struct of \<open>pkg/neutron/port.go\<close>. The
  interface \<open>NetworkResource\<close> of \<open>pkg/utils/types.go\<close> has one implementation in the
  repository, \<open>*ipam.PortResource\<close>, a pointer to a struct holding a port that is never
  changed after it was made; the datatype has that implementation as its constructor.
\<close>

record Port =
  port_Name :: string
  port_ID :: string
  port_SubnetID :: string
  port_MAC :: string
  port_IP :: string
  port_CIDR :: string
  port_Gateway :: string
  port_MTU :: int
  port_Sgs :: "string list"

datatype NetworkResource = PortResource (resource_port: Port)

definition ResourceTypeMultipleIP :: string where
  "ResourceTypeMultipleIP = ''PortMultipleIp''"

fun GetResourceId :: "NetworkResource \<Rightarrow> string" where
  "GetResourceId (PortResource p) = port_ID p"

fun GetType :: "NetworkResource \<Rightarrow> string" where
  "GetType (PortResource p) = ResourceTypeMultipleIP"

fun GetIPAddress :: "NetworkResource \<Rightarrow> string" where
  "GetIPAddress (PortResource p) = port_IP p"

end
