(* ===== verification/Utils.thy ===== *)
theory Utils
  imports Prelude "HOL-Library.Stream"
begin

section \<open>Shared types and helpers (pkg/utils)\<close>

text \<open>
  The configuration records of \<open>types.go\<close> and the helper functions of \<open>utils.go\<close>. Of the
  part of \<open>NetConf\<close> embedded from the CNI library the code reads the version only; \<open>CmdArgs\<close> is
  that library's record of a command's arguments. Random numbers and file contents are arguments.
\<close>

record NetConf =
  nc_CNIVersion :: string
  nc_Master :: string
  nc_Mode :: string
  nc_MTU :: int
  nc_DefaultRoute :: bool

record K8sArgs =
  K8sPodName :: string
  K8sPodNameSpace :: string
  K8sInfraContainerID :: string
  K8sServiceCidr :: string

record CmdArgs =
  ca_ContainerID :: string
  ca_Netns :: string
  ca_IfName :: string
  ca_Args :: string
  ca_Path :: string
  ca_StdinData :: string

record CniCmdArgs =
  cc_NetConf :: NetConf
  cc_K8sArgs :: K8sArgs
  cc_RawArgs :: CmdArgs
  cc_NetNS :: string

record NodeInfo =
  node_UUID :: string
  node_Hostname :: string
  node_ProjectID :: string
  node_Name :: string
  node_AvailabilityZone :: string

record DaemonConfigure =
  dc_ServiceCIDR :: string
  dc_NetID :: string
  dc_SubnetID :: string
  dc_MaxPoolSize :: int
  dc_MinPoolSize :: int
  dc_MaxIdleSize :: int
  dc_MinIdleSize :: int
  dc_Period :: int
  dc_NodeName :: string
  dc_Node :: "NodeInfo option"

definition DefaultIpVlanMode :: string where "DefaultIpVlanMode = ''l2''"
definition DefaultIpVlanMaster :: string where "DefaultIpVlanMaster = ''eth0''"
definition DefaultIpVlanRoute :: bool where "DefaultIpVlanRoute = True"
definition DefaultServiceCidr :: string where "DefaultServiceCidr = ''10.222.0.0/16''"
definition DefaultDst :: string where "DefaultDst = ''0.0.0.0/0''"
definition DefaultContainerVethName :: string where "DefaultContainerVethName = ''veth0''"
definition DefaultSocketPath :: string where "DefaultSocketPath = ''/var/run/cni/rubble.socket''"
definition DefaultCNILogPath :: string where "DefaultCNILogPath = ''/var/log/rubble.cni.log''"
definition DefaultCNIPath :: string where "DefaultCNIPath = ''/opt/cni/bin''"
definition DefaultDeamonConfigPath :: string where
  "DefaultDeamonConfigPath = ''/etc/cni/rubble/rubble.json''"
definition ResDBName :: string where "ResDBName = ''PodPorts''"
definition PodNetworks :: string where "PodNetworks = ''ecns.easystack.io/pod-networks''"
definition PodStaticIP :: string where "PodStaticIP = ''ecns.easystack.io/pod-static-ip''"

definition charset :: string where "charset = ''abcdefghijklmnopqrstuvwxyz0123456789''"

text \<open>
  The regular expression of \<open>IsValidUUID\<close>, position by position: a list of character classes.
  The class of the variant digit, written \<open>[8|9|aA|bB]\<close>, contains the bar.
\<close>

definition hex_class :: "char \<Rightarrow> bool" where
  "hex_class c \<longleftrightarrow> c \<in> set ''abcdefABCDEF0123456789''"

definition char_class :: "string \<Rightarrow> char \<Rightarrow> bool" where
  "char_class cs c \<longleftrightarrow> c \<in> set cs"

definition uuid_pattern :: "(char \<Rightarrow> bool) list" where
  "uuid_pattern =
     replicate 8 hex_class @ [char_class ''-''] @
     replicate 4 hex_class @ [char_class ''-''] @
     char_class ''4'' # replicate 3 hex_class @ [char_class ''-''] @
     char_class ''8|9aAbB'' # replicate 3 hex_class @ [char_class ''-''] @
     replicate 12 hex_class"

definition IsValidUUID :: "string \<Rightarrow> bool" where
  "IsValidUUID uuid = list_all2 (\<lambda>p c. p c) uuid_pattern uuid"

definition GetIpVlanMaster :: "NetConf \<Rightarrow> string" where
  "GetIpVlanMaster conf = (if 0 < length (nc_Master conf) then nc_Master conf else DefaultIpVlanMaster)"

definition GetIpVlanMode :: "NetConf \<Rightarrow> string" where
  "GetIpVlanMode conf = (if 0 < length (nc_Mode conf) then nc_Mode conf else DefaultIpVlanMode)"

definition GetIpVlanDefaultRoute :: "NetConf \<Rightarrow> bool" where
  "GetIpVlanDefaultRoute conf = (nc_DefaultRoute conf \<or> DefaultIpVlanRoute)"

definition GetServiceCidr :: "K8sArgs \<Rightarrow> string" where
  "GetServiceCidr args =
     (if 0 < length (K8sServiceCidr args) then K8sServiceCidr args else DefaultServiceCidr)"

text \<open>\<open>rand.Intn(36)\<close> is the next number of a stream, reduced to its range.\<close>

fun RandomString :: "nat \<Rightarrow> nat stream \<Rightarrow> string \<times> nat stream" where
  "RandomString 0 rnd = ([], rnd)"
| "RandomString (Suc n) rnd =
     (case RandomString n (stl rnd) of
        (rest, rnd') \<Rightarrow> (charset ! (shd rnd mod length charset) # rest, rnd'))"

definition containsSubstring :: "string \<Rightarrow> string \<Rightarrow> bool" where
  "containsSubstring s substr \<longleftrightarrow>
     length substr \<le> length s \<and> drop (length s - length substr) s = substr"

text \<open>The two files the function reads, \<open>None\<close> for one that cannot be read.\<close>

definition IfRuningOnVM :: "string option \<Rightarrow> string option \<Rightarrow> bool" where
  "IfRuningOnVM self_status cpuinfo =
     (case self_status of
        None \<Rightarrow> False
      | Some _ \<Rightarrow> (case cpuinfo of
          None \<Rightarrow> False
        | Some data \<Rightarrow> containsSubstring data ''hypervisor''))"

lemma length_RandomString: "length (fst (RandomString n rnd)) = n"
  by (induction n arbitrary: rnd) (auto split: prod.splits, metis fst_conv)

lemma set_RandomString: "set (fst (RandomString n rnd)) \<subseteq> set charset"
proof (induction n arbitrary: rnd)
  case 0
  then show ?case by simp
next
  case (Suc n)
  have "shd rnd mod length charset < length charset" by (simp add: charset_def)
  then have "charset ! (shd rnd mod length charset) \<in> set charset" by (rule nth_mem)
  then show ?case using Suc [of "stl rnd"] by (auto split: prod.splits)
qed

text \<open>The test for a substring is a test for a suffix.\<close>

lemma containsSubstring_suffix: "containsSubstring s t \<longleftrightarrow> (\<exists>u. s = u @ t)"
proof
  assume "containsSubstring s t"
  then have "s = take (length s - length t) s @ t"
    unfolding containsSubstring_def by (metis append_take_drop_id)
  then show "\<exists>u. s = u @ t" by blast
qed (auto simp: containsSubstring_def)

lemma IsValidUUID_length: "IsValidUUID s \<Longrightarrow> length s = 36"
  by (auto simp: IsValidUUID_def uuid_pattern_def dest!: list_all2_lengthD)

end
