(* ===== verification/Neutron.thy ===== *)
theory Neutron
  imports Complex_Main Resources Utils
begin

section \<open>The Neutron client (pkg/neutron)\<close>

text \<open>
  The client wraps the gophercloud library. The library and the OpenStack service behind it
  are the parameter \<open>ServiceClient\<close>: one function per library call the client makes, each
  acting on a state \<open>'w\<close> of the outside world. The structs of the library are records with
  the fields the client reads or sets. Raw result pages are their bodies, as strings; a
  missing page is \<open>None\<close>. The second service client \<open>identityCliV3\<close> is never used.
\<close>

subsection \<open>Data\<close>

record FixedIP =
  fip_SubnetID :: string
  fip_IPAddress :: string

record NPort =
  np_Name :: string
  np_ID :: string
  np_MACAddress :: string
  np_FixedIPs :: "FixedIP list"
  np_SecurityGroups :: "string list"
  np_Status :: string

record PortCreate =
  pc_Name :: string
  pc_NetworkID :: string
  pc_FixedIPs :: "FixedIP list"
  pc_SecurityGroups :: "string list option"
  pc_DeviceOwner :: string
  pc_DeviceID :: string

record PortBinding =
  pb_DeviceOwner :: string
  pb_DeviceID :: string
  pb_HostID :: string
  pb_VNICType :: string

record ListOpts =
  lo_NetworkID :: string
  lo_DeviceOwner :: string
  lo_Tags :: string

record Network =
  net_ID :: string
  net_Name :: string

record NetworkMTU =
  nm_ID :: string
  nm_MTU :: int

record Subnet =
  sub_ID :: string
  sub_Name :: string
  sub_CIDR :: string
  sub_GatewayIP :: string

text \<open>
  The library. \<open>ports_List\<close> is what a pager hands to its handler: the pages in order, each
  with the result of \<open>ExtractPorts\<close> on it, and the error with which the pager itself stops
  after the last one. The two \<open>Extract\<close> functions on all pages may panic on a missing page.
\<close>

record 'w ServiceClient =
  ports_Create :: "PortCreate \<Rightarrow> ('w, error + NPort) go"
  ports_Delete :: "string \<Rightarrow> ('w, error option) go"
  ports_Get :: "string \<Rightarrow> ('w, error + NPort) go"
  ports_Update :: "string \<Rightarrow> PortBinding \<Rightarrow> ('w, error option) go"
  ports_List :: "ListOpts \<Rightarrow> ('w, (NPort list \<times> error option) list \<times> error option) go"
  networks_Get :: "string \<Rightarrow> ('w, error + Network) go"
  networks_AllPages :: "string \<Rightarrow> ('w, error + string) go"
  networks_ExtractInto :: "string \<Rightarrow> error + NetworkMTU list"
  networks_Extract :: "string option \<Rightarrow> (Network list \<times> error option) outcome"
  subnets_Get :: "string \<Rightarrow> ('w, error + Subnet) go"
  subnets_AllPages :: "('w, error + string) go"
  subnets_Extract :: "string option \<Rightarrow> (Subnet list \<times> error option) outcome"
  tags_Add :: "string \<Rightarrow> string \<Rightarrow> string \<Rightarrow> ('w, error option) go"

record 'w Client =
  networkCliV2 :: "'w ServiceClient"
  podsDeleteLock :: bool
  portIDs :: "(string, string) gmap"

record CreateOpts =
  co_Name :: string
  co_NetworkID :: string
  co_SubnetID :: string
  co_IPAddress :: string
  co_ProjectID :: string
  co_SecurityGroup :: string
  co_DeviceID :: string
  co_DeviceOwner :: string
  co_Tags :: string

record ListFilter =
  lf_NetworkID :: string
  lf_DeviceOwner :: string
  lf_DeviceID :: string
  lf_Tags :: string

definition DeviceOwner_compute :: string where "DeviceOwner_compute = ''compute:rubble''"
definition FipDeviceOwner :: string where "FipDeviceOwner = ''network:kubernetes-pod''"

subsection \<open>Listing ports\<close>

text \<open>
  The handler given to \<open>EachPage\<close> assigns the extracted page to \<open>actual\<close> and stops at an
  extraction error; the call's own result then overwrites \<open>err\<close>.
\<close>

fun EachPage :: "(NPort list \<times> error option) list \<Rightarrow> error option \<Rightarrow> NPort list \<Rightarrow>
    NPort list \<times> error option" where
  "EachPage [] end_err actual = (actual, end_err)"
| "EachPage ((ports, Some e) # pages) end_err actual = (ports, Some e)"
| "EachPage ((ports, None) # pages) end_err actual = EachPage pages end_err ports"

definition ListPort :: "'w Client \<Rightarrow> ListOpts \<Rightarrow> ('w, NPort list \<times> error option) go" where
  "ListPort c opts =
     go_bind (ports_List (networkCliV2 c) opts) (\<lambda>(pages, end_err).
     go_return (EachPage pages end_err []))"

definition ListPortWithNetworkID :: "'w Client \<Rightarrow> string \<Rightarrow> ('w, NPort list \<times> error option) go" where
  "ListPortWithNetworkID c networkID =
     ListPort c \<lparr>lo_NetworkID = networkID, lo_DeviceOwner = '''', lo_Tags = ''''\<rparr>"

definition ListPortWithFilter :: "'w Client \<Rightarrow> ListFilter \<Rightarrow> ('w, NPort list \<times> error option) go" where
  "ListPortWithFilter c lfilter =
     ListPort c \<lparr>lo_NetworkID = lf_NetworkID lfilter, lo_DeviceOwner = lf_DeviceOwner lfilter,
                 lo_Tags = lf_Tags lfilter\<rparr>"

subsection \<open>Networks and subnets\<close>

text \<open>The loop of \<open>getNetwork\<close>: the MTU of the first network with the id, zero if there is none.\<close>

fun find_mtu :: "string \<Rightarrow> NetworkMTU list \<Rightarrow> int" where
  "find_mtu rid [] = 0"
| "find_mtu rid (n # ns) = (if nm_ID n = rid then nm_MTU n else find_mtu rid ns)"

definition getNetwork :: "'w Client \<Rightarrow> string \<Rightarrow> ('w, error + Network \<times> int) go" where
  "getNetwork c rid =
     go_bind (networks_AllPages (networkCliV2 c) rid) (\<lambda>pages.
     case pages of
       Inl err \<Rightarrow> go_return (Inl err)
     | Inr allPages \<Rightarrow>
         (case networks_ExtractInto (networkCliV2 c) allPages of
            Inl err \<Rightarrow> go_return (Inl err)
          | Inr actual \<Rightarrow>
              (if find_mtu rid actual = 0
               then go_return (Inl (Errorf ''mtu not found for network'' None))
               else
                 go_bind (networks_Get (networkCliV2 c) rid) (\<lambda>n.
                 case n of Inl err \<Rightarrow> go_return (Inl err)
                 | Inr n \<Rightarrow> go_return (Inr (n, find_mtu rid actual))))))"

definition GetNetwork :: "'w Client \<Rightarrow> string \<Rightarrow> ('w, error + Network) go" where
  "GetNetwork c rid = networks_Get (networkCliV2 c) rid"

text \<open>\<open>ListNetworks\<close> drops both of its errors.\<close>

definition ListNetworks :: "'w Client \<Rightarrow> ('w, Network list) go" where
  "ListNetworks c =
     go_bind (networks_AllPages (networkCliV2 c) '''') (\<lambda>pages s.
     case networks_Extract (networkCliV2 c) (case pages of Inl _ \<Rightarrow> None | Inr p \<Rightarrow> Some p) of
       Returns (ns, _) \<Rightarrow> (Returns ns, s)
     | Halts h \<Rightarrow> (Halts h, s))"

fun find_network :: "string \<Rightarrow> Network list \<Rightarrow> string" where
  "find_network name [] = ''''"
| "find_network name (n # ns) = (if net_Name n = name then net_ID n else find_network name ns)"

definition GetNetworkID :: "'w Client \<Rightarrow> string \<Rightarrow> ('w, error + string) go" where
  "GetNetworkID c name =
     (if IsValidUUID name then go_return (Inr name)
      else go_bind (ListNetworks c) (\<lambda>ns. go_return (Inr (find_network name ns))))"

definition GetSubnet :: "'w Client \<Rightarrow> string \<Rightarrow> ('w, error + Subnet) go" where
  "GetSubnet c rid = subnets_Get (networkCliV2 c) rid"

definition ListSubnetworks :: "'w Client \<Rightarrow> ('w, Subnet list) go" where
  "ListSubnetworks c =
     go_bind (subnets_AllPages (networkCliV2 c)) (\<lambda>pages s.
     case subnets_Extract (networkCliV2 c) (case pages of Inl _ \<Rightarrow> None | Inr p \<Rightarrow> Some p) of
       Returns (ns, _) \<Rightarrow> (Returns ns, s)
     | Halts h \<Rightarrow> (Halts h, s))"

fun find_subnet :: "string \<Rightarrow> Subnet list \<Rightarrow> string" where
  "find_subnet name [] = ''''"
| "find_subnet name (n # ns) = (if sub_Name n = name then sub_ID n else find_subnet name ns)"

definition GetSubnetworkID :: "'w Client \<Rightarrow> string \<Rightarrow> ('w, error + string) go" where
  "GetSubnetworkID c name =
     (if IsValidUUID name then go_return (Inr name)
      else go_bind (ListSubnetworks c) (\<lambda>ns. go_return (Inr (find_subnet name ns))))"

subsection \<open>Creating and deleting ports\<close>

definition DeletePort :: "'w Client \<Rightarrow> string \<Rightarrow> ('w, error option) go" where
  "DeletePort c rid = ports_Delete (networkCliV2 c) rid"

text \<open>
  \<open>getSubnetAsync\<close> and \<open>getNetworkAsync\<close> start a goroutine that makes the call and hands its
  result over when the caller asks for it. Both are started before the port is created and run
  beside its creation; the model makes the two calls one after the other at that point and uses
  their results where the caller does. When the caller never asks, because the creation or the
  first read has failed, a goroutine of the code stays blocked; it holds nothing and is left out.
\<close>

definition getSubnetAsync :: "'w Client \<Rightarrow> string \<Rightarrow> ('w, error + Subnet) go" where
  "getSubnetAsync c rid = GetSubnet c rid"

definition getNetworkAsync :: "'w Client \<Rightarrow> string \<Rightarrow> ('w, error + Network \<times> int) go" where
  "getNetworkAsync c rid = getNetwork c rid"

definition CreatePort :: "'w Client \<Rightarrow> CreateOpts \<Rightarrow> ('w, error + Port) go" where
  "CreatePort c opts =
     go_bind (getSubnetAsync c (co_SubnetID opts)) (\<lambda>sbRes.
     go_bind (getNetworkAsync c (co_NetworkID opts)) (\<lambda>netRes.
     go_bind (ports_Create (networkCliV2 c)
         \<lparr>pc_Name = co_Name opts, pc_NetworkID = co_NetworkID opts,
          pc_FixedIPs = [\<lparr>fip_SubnetID = co_SubnetID opts, fip_IPAddress = co_IPAddress opts\<rparr>],
          pc_SecurityGroups = Some [], pc_DeviceOwner = co_DeviceOwner opts,
          pc_DeviceID = co_DeviceID opts\<rparr>) (\<lambda>created.
     case created of
       Inl err \<Rightarrow> go_return (Inl err)
     | Inr p \<Rightarrow>
         (case sbRes of
            Inl err \<Rightarrow> go_seq (DeletePort c (np_ID p)) (go_return (Inl err))
          | Inr sb \<Rightarrow>
              (case netRes of
                 Inl err \<Rightarrow> go_seq (DeletePort c (np_ID p)) (go_return (Inl err))
               | Inr (_, mtu) \<Rightarrow>
                   (case np_FixedIPs p of
                      [] \<Rightarrow> go_halt Panicked
                    | ip # _ \<Rightarrow> go_return (Inr
                        \<lparr>port_Name = np_Name p, port_ID = np_ID p, port_SubnetID = co_SubnetID opts,
                         port_MAC = np_MACAddress p, port_IP = fip_IPAddress ip,
                         port_CIDR = sub_CIDR sb, port_Gateway = sub_GatewayIP sb,
                         port_MTU = mtu, port_Sgs = np_SecurityGroups p\<rparr>)))))))"

definition ConvertPort :: "Subnet \<Rightarrow> NPort \<Rightarrow> Port outcome" where
  "ConvertPort subnet port =
     (case np_FixedIPs port of
        [] \<Rightarrow> Halts Panicked
      | ip # _ \<Rightarrow> Returns
          \<lparr>port_Name = np_Name port, port_ID = np_ID port, port_SubnetID = '''',
           port_MAC = np_MACAddress port, port_IP = fip_IPAddress ip,
           port_CIDR = sub_CIDR subnet, port_Gateway = sub_GatewayIP subnet,
           port_MTU = 0, port_Sgs = np_SecurityGroups port\<rparr>)"

definition getPort :: "'w Client \<Rightarrow> string \<Rightarrow> ('w, error + NPort) go" where
  "getPort c rid = ports_Get (networkCliV2 c) rid"

definition AddTag :: "'w Client \<Rightarrow> string \<Rightarrow> string \<Rightarrow> string \<Rightarrow> ('w, error option) go" where
  "AddTag c resourceType resourceID tag = tags_Add (networkCliV2 c) resourceType resourceID tag"

definition BindPortToHost :: "'w Client \<Rightarrow> string \<Rightarrow> string \<Rightarrow> string \<Rightarrow> ('w, error option) go" where
  "BindPortToHost c rid hostID deviceID =
     ports_Update (networkCliV2 c) rid
       \<lparr>pb_DeviceOwner = DeviceOwner_compute, pb_DeviceID = deviceID,
        pb_HostID = hostID, pb_VNICType = ''normal''\<rparr>"

definition CreatePortWithFip :: "'w Client \<Rightarrow> string \<Rightarrow> string \<Rightarrow> ('w, error + NPort) go" where
  "CreatePortWithFip c networkID floatingip =
     ports_Create (networkCliV2 c)
       \<lparr>pc_Name = '''', pc_NetworkID = networkID,
        pc_FixedIPs = [\<lparr>fip_SubnetID = '''', fip_IPAddress = floatingip\<rparr>],
        pc_SecurityGroups = None, pc_DeviceOwner = FipDeviceOwner, pc_DeviceID = ''''\<rparr>"

text \<open>The two nested loops of \<open>DeletePortWithFip\<close>: the first port with the address.\<close>

fun find_fip :: "string \<Rightarrow> NPort list \<Rightarrow> string option" where
  "find_fip floatingip [] = None"
| "find_fip floatingip (p # ps) =
     (if floatingip \<in> set (map fip_IPAddress (np_FixedIPs p)) then Some (np_ID p)
      else find_fip floatingip ps)"

definition DeletePortWithFip :: "'w Client \<Rightarrow> string \<Rightarrow> string \<Rightarrow> ('w, error option) go" where
  "DeletePortWithFip c networkID floatingip =
     go_bind (ListPort c \<lparr>lo_NetworkID = networkID, lo_DeviceOwner = '''', lo_Tags = ''''\<rparr>)
       (\<lambda>(actual, _).
     case find_fip floatingip actual of
       Some rid \<Rightarrow> ports_Delete (networkCliV2 c) rid
     | None \<Rightarrow> go_return (Some (Errorf ''delete port failed, err: not found'' None)))"

text \<open>
  The polling loop of \<open>WaitPortActive\<close>. The times elapsed at the ticks, in seconds, are an
  argument; the number bounds the ticks.
\<close>

fun WaitPortActive :: "nat \<Rightarrow> 'w Client \<Rightarrow> string \<Rightarrow> rat \<Rightarrow> rat stream \<Rightarrow> ('w, error option) go" where
  "WaitPortActive 0 c rid timeout ticks = go_halt NoFuel"
| "WaitPortActive (Suc fuel) c rid timeout ticks =
     (if timeout < shd ticks
      then go_return (Some (Errorf ''waiting port become ACTIVE timeout out'' None))
      else
        go_bind (getPort c rid) (\<lambda>r.
        case r of
          Inl err \<Rightarrow> WaitPortActive fuel c rid timeout (stl ticks)
        | Inr p \<Rightarrow> (if np_Status p = ''ACTIVE'' then go_return None
                   else WaitPortActive fuel c rid timeout (stl ticks))))"

subsection \<open>The table of ports to delete\<close>

text \<open>The three methods run under \<open>podsDeleteLock\<close>, with the unlocking deferred.\<close>

definition with_delete_lock :: "('w Client, 'a) go \<Rightarrow> ('w Client, 'a) go" where
  "with_delete_lock m =
     go_seq (\<lambda>c. if podsDeleteLock c then (Halts Blocked, c)
                 else (Returns (), c\<lparr>podsDeleteLock := True\<rparr>)) (
     go_bind m (\<lambda>r.
     go_seq (go_modify (\<lambda>c. c\<lparr>podsDeleteLock := False\<rparr>)) (go_return r)))"

definition RememberPortID :: "string \<Rightarrow> string \<Rightarrow> ('w Client, unit) go" where
  "RememberPortID key rid =
     with_delete_lock (go_modify (\<lambda>c. c\<lparr>portIDs := gmap_put (portIDs c) key rid\<rparr>))"

definition ForgetPortID :: "string \<Rightarrow> ('w Client, unit) go" where
  "ForgetPortID key =
     with_delete_lock (go_modify (\<lambda>c. c\<lparr>portIDs := gmap_delete (portIDs c) key\<rparr>))"

definition PodToPortID :: "string \<Rightarrow> ('w Client, string option) go" where
  "PodToPortID key = with_delete_lock (go_get (\<lambda>c. gmap_get (portIDs c) key))"

end
