(* ===== verification/Neutron_Laws.thy ===== *)
theory Neutron_Laws
  imports Neutron
begin

section \<open>What the Neutron client guarantees\<close>

text \<open>
  The documented behaviour of the port service that the program relies on: a port it creates
  gets an id it has never issued before, no call takes an issued id back, a listing shows
  issued ids only, and no id is empty. \<open>issued\<close> reads the ids off the state of the outside world.
\<close>

definition grows :: "('w \<Rightarrow> string set) \<Rightarrow> ('w, 'a) go \<Rightarrow> bool" where
  "grows issued m \<longleftrightarrow> (\<forall>w. issued w \<subseteq> issued (snd (m w)))"

definition neutron_ok :: "('w \<Rightarrow> string set) \<Rightarrow> 'w ServiceClient \<Rightarrow> bool" where
  "neutron_ok issued api \<longleftrightarrow>
     (\<forall>opts. grows issued (ports_Create api opts)) \<and>
     (\<forall>opts w w' p. ports_Create api opts w = (Returns (Inr p), w') \<longrightarrow>
        np_ID p \<notin> issued w \<and> np_ID p \<in> issued w') \<and>
     (\<forall>rid. grows issued (ports_Delete api rid)) \<and>
     (\<forall>opts. grows issued (ports_List api opts)) \<and>
     (\<forall>opts w w' pages e. ports_List api opts w = (Returns (pages, e), w') \<longrightarrow>
        (\<forall>(ps, err) \<in> set pages. np_ID ` set ps \<subseteq> issued w' \<and> distinct (map np_ID ps))) \<and>
     (\<forall>rid. grows issued (networks_Get api rid)) \<and>
     (\<forall>rid. grows issued (networks_AllPages api rid)) \<and>
     (\<forall>rid. grows issued (subnets_Get api rid)) \<and>
     grows issued (subnets_AllPages api) \<and> (\<forall>w. '''' \<notin> issued w) \<and>
     (\<forall>ty rid tag. grows issued (tags_Add api ty rid tag))"

lemma neutron_okD:
  assumes "neutron_ok issued api"
  shows "ports_Create api opts w = (Returns (Inr p), w') \<Longrightarrow>
      np_ID p \<notin> issued w \<and> np_ID p \<in> issued w'"
    and "ports_List api lopts w = (Returns (pages, e), w') \<Longrightarrow> (ps, err) \<in> set pages \<Longrightarrow>
      np_ID ` set ps \<subseteq> issued w' \<and> distinct (map np_ID ps)"
    and "'''' \<notin> issued w"
proof -
  have c: "\<forall>opts w w' p. ports_Create api opts w = (Returns (Inr p), w') \<longrightarrow>
        np_ID p \<notin> issued w \<and> np_ID p \<in> issued w'"
    and l: "\<forall>opts w w' pages e. ports_List api opts w = (Returns (pages, e), w') \<longrightarrow>
        (\<forall>(ps, err) \<in> set pages. np_ID ` set ps \<subseteq> issued w' \<and> distinct (map np_ID ps))"
    and n: "\<forall>w. '''' \<notin> issued w"
    using assms unfolding neutron_ok_def by - (elim conjE, assumption)+
  show "ports_Create api opts w = (Returns (Inr p), w') \<Longrightarrow>
      np_ID p \<notin> issued w \<and> np_ID p \<in> issued w'" using c by blast
  show "ports_List api lopts w = (Returns (pages, e), w') \<Longrightarrow> (ps, err) \<in> set pages \<Longrightarrow>
      np_ID ` set ps \<subseteq> issued w' \<and> distinct (map np_ID ps)" using l by blast
  show "'''' \<notin> issued w" using n by blast
qed

subsection \<open>Calls never lose an id\<close>

named_theorems grows_rules \<open>code that only adds to the issued ids\<close>

lemma growsD: "grows issued m \<Longrightarrow> m w = (r, w') \<Longrightarrow> issued w \<subseteq> issued w'"
  by (metis grows_def snd_conv)

lemma grows_return [grows_rules]: "grows issued (go_return a)"
  by (simp add: grows_def)

lemma grows_halt [grows_rules]: "grows issued (go_halt h)"
  by (simp add: grows_def)

lemma grows_bind [grows_rules]:
  "grows issued m \<Longrightarrow> (\<And>a. grows issued (f a)) \<Longrightarrow> grows issued (go_bind m f)"
  by (fastforce simp: grows_def split: prod.splits outcome.splits)

lemma grows_seq [grows_rules]: "grows issued m \<Longrightarrow> grows issued k \<Longrightarrow> grows issued (go_seq m k)"
  unfolding go_seq_def by (rule grows_bind)

lemma neutron_grows [grows_rules]:
  assumes "neutron_ok issued (networkCliV2 c)"
  shows "grows issued (ports_Create (networkCliV2 c) opts)"
    "grows issued (DeletePort c rid)" "grows issued (GetSubnet c rid)"
    "grows issued (ports_List (networkCliV2 c) lopts)"
    "grows issued (networks_Get (networkCliV2 c) rid)"
    "grows issued (networks_AllPages (networkCliV2 c) rid)"
    "grows issued (subnets_AllPages (networkCliV2 c))"
    "grows issued (AddTag c ty rid tag)"
  using assms by (simp_all add: neutron_ok_def DeletePort_def GetSubnet_def AddTag_def)

lemma getNetwork_grows [grows_rules]:
  assumes "neutron_ok issued (networkCliV2 c)"
  shows "grows issued (getNetwork c rid)"
  unfolding getNetwork_def
  by (auto intro!: grows_rules assms split: sum.splits)

lemma ListPort_grows [grows_rules]:
  assumes "neutron_ok issued (networkCliV2 c)"
  shows "grows issued (ListPortWithFilter c f)"
  unfolding ListPortWithFilter_def ListPort_def
  by (auto intro!: grows_rules assms split: prod.splits)

lemma lookup_grows [grows_rules]:
  assumes "neutron_ok issued (networkCliV2 c)"
  shows "grows issued (GetNetworkID c name)" "grows issued (GetSubnetworkID c name)"
proof -
  have pure: "grows issued (\<lambda>s. case g of Returns (ns, _) \<Rightarrow> (Returns ns, s) | Halts h \<Rightarrow> (Halts h, s))"
    for g :: "('x \<times> error option) outcome"
    by (auto simp: grows_def split: outcome.splits prod.splits)
  show "grows issued (GetNetworkID c name)" "grows issued (GetSubnetworkID c name)"
    unfolding GetNetworkID_def ListNetworks_def GetSubnetworkID_def ListSubnetworks_def
    by (auto intro!: grows_rules assms pure)
qed

subsection \<open>CreatePort\<close>

text \<open>The three reads and the creation that precede the branches of \<open>CreatePort\<close>.\<close>

definition port_request :: "CreateOpts \<Rightarrow> PortCreate" where
  "port_request opts =
     \<lparr>pc_Name = co_Name opts, pc_NetworkID = co_NetworkID opts,
      pc_FixedIPs = [\<lparr>fip_SubnetID = co_SubnetID opts, fip_IPAddress = co_IPAddress opts\<rparr>],
      pc_SecurityGroups = Some [], pc_DeviceOwner = co_DeviceOwner opts,
      pc_DeviceID = co_DeviceID opts\<rparr>"

lemma CreatePort_grows [grows_rules]:
  assumes "neutron_ok issued (networkCliV2 c)"
  shows "grows issued (CreatePort c opts)"
  unfolding CreatePort_def getSubnetAsync_def getNetworkAsync_def
  by (auto intro!: grows_rules assms split: sum.splits list.splits prod.splits)

lemma CreatePort_run:
  assumes "GetSubnet c (co_SubnetID opts) w = (Returns sb, w1)"
    and "getNetwork c (co_NetworkID opts) w1 = (Returns nt, w2)"
    and "ports_Create (networkCliV2 c) (port_request opts) w2 = (Returns (Inr p), w3)"
  shows "sb = Inl e \<Longrightarrow> CreatePort c opts w =
      go_seq (DeletePort c (np_ID p)) (go_return (Inl e)) w3"
    and "sb = Inr s \<Longrightarrow> nt = Inl e \<Longrightarrow> CreatePort c opts w =
      go_seq (DeletePort c (np_ID p)) (go_return (Inl e)) w3"
    and "sb = Inr s \<Longrightarrow> nt = Inr (n, mtu) \<Longrightarrow> np_FixedIPs p = [] \<Longrightarrow>
      CreatePort c opts w = (Halts Panicked, w3)"
    and "sb = Inr s \<Longrightarrow> nt = Inr (n, mtu) \<Longrightarrow> np_FixedIPs p = ip # ips \<Longrightarrow>
      CreatePort c opts w = (Returns (Inr
        \<lparr>port_Name = np_Name p, port_ID = np_ID p, port_SubnetID = co_SubnetID opts,
         port_MAC = np_MACAddress p, port_IP = fip_IPAddress ip,
         port_CIDR = sub_CIDR s, port_Gateway = sub_GatewayIP s,
         port_MTU = mtu, port_Sgs = np_SecurityGroups p\<rparr>), w3)"
  using assms
  by (simp_all add: CreatePort_def getSubnetAsync_def getNetworkAsync_def port_request_def)

lemma CreatePort_fails_run:
  assumes "GetSubnet c (co_SubnetID opts) w = (Returns sb, w1)"
    and "getNetwork c (co_NetworkID opts) w1 = (Returns nt, w2)"
    and "ports_Create (networkCliV2 c) (port_request opts) w2 = (Returns (Inl e), w3)"
  shows "CreatePort c opts w = (Returns (Inl e), w3)"
  using assms
  by (simp add: CreatePort_def getSubnetAsync_def getNetworkAsync_def port_request_def)

lemma CreatePort_success:
  assumes run: "CreatePort c opts w = (Returns (Inr q), w')"
  obtains s w1 n mtu w2 p where "GetSubnet c (co_SubnetID opts) w = (Returns (Inr s), w1)"
    "getNetwork c (co_NetworkID opts) w1 = (Returns (Inr (n, mtu)), w2)"
    "ports_Create (networkCliV2 c) (port_request opts) w2 = (Returns (Inr p), w')"
    "port_ID q = np_ID p" "np_FixedIPs p \<noteq> []" "port_IP q = fip_IPAddress (hd (np_FixedIPs p))"
    "port_CIDR q = sub_CIDR s" "port_Gateway q = sub_GatewayIP s"
proof -
  obtain o1 w1 where sb: "GetSubnet c (co_SubnetID opts) w = (o1, w1)" by fastforce
  obtain o2 w2 where nt: "getNetwork c (co_NetworkID opts) w1 = (o2, w2)" by fastforce
  obtain o3 w3 where cr: "ports_Create (networkCliV2 c) (port_request opts) w2 = (o3, w3)"
    by fastforce
  note run' = run [unfolded CreatePort_def getSubnetAsync_def getNetworkAsync_def
      port_request_def [symmetric] go_bind_run sb prod.case]
  obtain r1 where o1: "o1 = Returns r1" using run' by (cases o1) auto
  obtain r2 where o2: "o2 = Returns r2" using run' by (cases o2) (auto simp: o1 nt)
  obtain r3 where o3: "o3 = Returns r3" using run' by (cases o3) (auto simp: o1 o2 nt cr)
  obtain p where r3: "r3 = Inr p"
    using CreatePort_fails_run [of c opts w r1 w1 r2 w2] run by (cases r3) (auto simp: sb nt cr o1 o2 o3)
  note runs = CreatePort_run [OF sb [unfolded o1] nt [unfolded o2] cr [unfolded o3 r3]]
  obtain s where s: "r1 = Inr s"
    using runs(1) run by (cases r1) (auto split: prod.splits outcome.splits)
  obtain n mtu where n: "r2 = Inr (n, mtu)"
    using runs(2) [OF s] run by (cases r2) (auto split: prod.splits outcome.splits)
  obtain ip ips where ips: "np_FixedIPs p = ip # ips"
    using runs(3) [OF s n] run by (cases "np_FixedIPs p") auto
  have q: "w' = w3" "port_ID q = np_ID p" "np_FixedIPs p \<noteq> []" "port_IP q = fip_IPAddress (hd (np_FixedIPs p))"
    "port_CIDR q = sub_CIDR s" "port_Gateway q = sub_GatewayIP s"
    using runs(4) [OF s n ips] run ips by auto
  show ?thesis
    by (rule that [OF sb [unfolded o1 s] nt [unfolded o2 n] cr [unfolded o3 r3 q(1) [symmetric]] q(2-)])
qed

lemma CreatePort_facts:
  assumes ok: "neutron_ok issued (networkCliV2 c)"
    and run: "CreatePort c opts w = (out, w')"
  shows "issued w \<subseteq> issued w'"
    and "out = Returns (Inr q) \<Longrightarrow> port_ID q \<notin> issued w \<and> port_ID q \<in> issued w'"
proof -
  show "issued w \<subseteq> issued w'" using growsD [OF CreatePort_grows [OF ok] run] .
  assume "out = Returns (Inr q)"
  with run obtain s w1 n mtu w2 p where r: "GetSubnet c (co_SubnetID opts) w = (Returns (Inr s), w1)"
    "getNetwork c (co_NetworkID opts) w1 = (Returns (Inr (n, mtu)), w2)"
    "ports_Create (networkCliV2 c) (port_request opts) w2 = (Returns (Inr p), w')"
    "port_ID q = np_ID p"
    using CreatePort_success by metis
  have "issued w \<subseteq> issued w2"
    using growsD [OF neutron_grows(3) [OF ok] r(1)] growsD [OF getNetwork_grows [OF ok] r(2)] by blast
  moreover have "np_ID p \<notin> issued w2 \<and> np_ID p \<in> issued w'"
    by (rule neutron_okD(1) [OF ok r(3)])
  ultimately show "port_ID q \<notin> issued w \<and> port_ID q \<in> issued w'" using r(4) by auto
qed

subsection \<open>Listings\<close>

text \<open>When no page fails, the result of a listing is its last page.\<close>

lemma EachPage_last:
  "\<forall>(ps, e) \<in> set pages. e = None \<Longrightarrow>
   EachPage pages end_err actual = (if pages = [] then actual else fst (last pages), end_err)"
  by (induction pages end_err actual rule: EachPage.induct) auto

lemma EachPage_in:
  "EachPage pages end_err [] = (ps, e) \<Longrightarrow> ps = [] \<or> (\<exists>x. (ps, x) \<in> set pages)"
proof -
  have "EachPage pages end_err actual = (ps, e) \<Longrightarrow> ps = actual \<or> (\<exists>x. (ps, x) \<in> set pages)" for actual
    by (induction pages end_err actual rule: EachPage.induct) auto
  then show "EachPage pages end_err [] = (ps, e) \<Longrightarrow> ps = [] \<or> (\<exists>x. (ps, x) \<in> set pages)" .
qed

lemma ListPortWithFilter_facts:
  assumes ok: "neutron_ok issued (networkCliV2 c)"
    and run: "ListPortWithFilter c f w = (Returns (ps, e), w')"
  shows "issued w \<subseteq> issued w'" "np_ID ` set ps \<subseteq> issued w'" "distinct (map np_ID ps)"
proof -
  show "issued w \<subseteq> issued w'" using growsD [OF ListPort_grows [OF ok] run] .
  let ?o = "\<lparr>lo_NetworkID = lf_NetworkID f, lo_DeviceOwner = lf_DeviceOwner f, lo_Tags = lf_Tags f\<rparr>"
  obtain pages ee where l: "ports_List (networkCliV2 c) ?o w = (Returns (pages, ee), w')"
    and each: "EachPage pages ee [] = (ps, e)"
    using run by (auto simp: ListPortWithFilter_def ListPort_def split: prod.splits outcome.splits)
  have all: "np_ID ` set qs \<subseteq> issued w' \<and> distinct (map np_ID qs)" if "(qs, x) \<in> set pages" for qs x
    by (rule neutron_okD(2) [OF ok l that])
  show "np_ID ` set ps \<subseteq> issued w'" "distinct (map np_ID ps)"
    using EachPage_in [OF each] all by auto
qed

lemma find_network_facts:
  "find_network name ns = '''' \<or> (\<exists>n \<in> set ns. net_Name n = name \<and> net_ID n = find_network name ns)"
  by (induction ns) auto

lemma find_network_missing: "name \<notin> net_Name ` set ns \<Longrightarrow> find_network name ns = ''''"
  by (induction ns) auto

subsection \<open>Waiting for a port\<close>

text \<open>
  However the port fares, \<open>WaitPortActive\<close> ends at the first tick after the timeout, if the
  client's reads come back at all.
\<close>

lemma WaitPortActive_ends:
  assumes reads: "\<And>w. \<exists>r w'. ports_Get (networkCliV2 c) rid w = (Returns r, w')"
    and late: "timeout < snth ticks n"
  shows "\<exists>r w'. WaitPortActive (Suc n) c rid timeout ticks w = (Returns r, w')"
  using late
proof (induction n arbitrary: ticks w)
  case 0
  then show ?case by simp
next
  case (Suc n)
  obtain r w' where get: "ports_Get (networkCliV2 c) rid w = (Returns r, w')" using reads by blast
  have "timeout < snth (stl ticks) n" using Suc.prems by simp
  then obtain r2 w2 where "WaitPortActive (Suc n) c rid timeout (stl ticks) w' = (Returns r2, w2)"
    using Suc.IH by blast
  then show ?case using get by (subst WaitPortActive.simps) (auto simp: getPort_def split: sum.splits simp del: WaitPortActive.simps)
qed

end
