(* ===== verification/Heap_Lists.thy ===== *)
theory Heap_Lists
  imports Prelude
begin

section \<open>Array heaps as lists\<close>

text \<open>
  The abstract side of the priority queue of \<open>pkg/pool/queue.go\<close>: a binary heap in a list,
  ordered by a key, with the two repair loops as functions on lists. \<open>heap_except_down\<close>
  and \<open>heap_except_up\<close> are the states in the middle of a repair, where one position is out
  of place. The code's loops are shown to compute these functions in \<open>Pool_Queue\<close>.
\<close>

definition parent :: "nat \<Rightarrow> nat" where
  "parent j = (j - 1) div 2"

definition swap_list :: "'a list \<Rightarrow> nat \<Rightarrow> nat \<Rightarrow> 'a list" where
  "swap_list xs i j = xs[i := xs ! j, j := xs ! i]"

definition heap_list :: "('a \<Rightarrow> 'k::linorder) \<Rightarrow> 'a list \<Rightarrow> bool" where
  "heap_list key xs \<longleftrightarrow>
     (\<forall>j. 0 < j \<and> j < length xs \<longrightarrow> key (xs ! parent j) \<le> key (xs ! j))"

definition heap_except_down :: "('a \<Rightarrow> 'k::linorder) \<Rightarrow> 'a list \<Rightarrow> nat \<Rightarrow> bool" where
  "heap_except_down key xs i \<longleftrightarrow>
     (\<forall>j. 0 < j \<and> j < length xs \<longrightarrow>
        (parent j \<noteq> i \<longrightarrow> key (xs ! parent j) \<le> key (xs ! j)) \<and>
        (parent j = i \<and> 0 < i \<longrightarrow> key (xs ! parent i) \<le> key (xs ! j)))"

definition heap_except_up :: "('a \<Rightarrow> 'k::linorder) \<Rightarrow> 'a list \<Rightarrow> nat \<Rightarrow> bool" where
  "heap_except_up key xs i \<longleftrightarrow>
     (\<forall>j. 0 < j \<and> j < length xs \<longrightarrow>
        (j \<noteq> i \<longrightarrow> key (xs ! parent j) \<le> key (xs ! j)) \<and>
        (parent j = i \<and> 0 < i \<longrightarrow> key (xs ! parent i) \<le> key (xs ! j)))"

definition min_child :: "('a \<Rightarrow> 'k::linorder) \<Rightarrow> 'a list \<Rightarrow> nat \<Rightarrow> nat option" where
  "min_child key xs i =
     (let l = i * 2 + 1; r = i * 2 + 2; n = length xs in
      if l < n \<and> r < n then Some (if key (xs ! l) < key (xs ! r) then l else r)
      else if l < n then Some l
      else if r < n then Some r
      else None)"

subsection \<open>Positions and exchanges\<close>

lemma parent_less [simp]: "0 < j \<Longrightarrow> parent j < j"
  by (simp add: parent_def)

lemma parent_eq_iff: "0 < j \<Longrightarrow> parent j = i \<longleftrightarrow> j = 2 * i + 1 \<or> j = 2 * i + 2"
  unfolding parent_def by presburger

lemma length_swap_list [simp]: "length (swap_list xs i j) = length xs"
  by (simp add: swap_list_def)

lemma mset_swap_list [simp]:
  "i < length xs \<Longrightarrow> j < length xs \<Longrightarrow> mset (swap_list xs i j) = mset xs"
  by (simp add: swap_list_def mset_list_swap)

lemma nth_swap_list:
  "i < length xs \<Longrightarrow> j < length xs \<Longrightarrow> k < length xs \<Longrightarrow>
   swap_list xs i j ! k = (if k = i then xs ! j else if k = j then xs ! i else xs ! k)"
  by (auto simp: swap_list_def nth_list_update)

lemma min_child_Some:
  assumes "min_child key xs i = Some m"
  shows "m < length xs" "i < m" "parent m = i"
    and "\<And>j. 0 < j \<Longrightarrow> j < length xs \<Longrightarrow> parent j = i \<Longrightarrow> key (xs ! m) \<le> key (xs ! j)"
proof -
  have m: "m = 2 * i + 1 \<or> m = 2 * i + 2" "m < length xs"
    using assms by (auto simp: min_child_def Let_def split: if_splits)
  then show "m < length xs" "i < m" "parent m = i" by (auto simp: parent_def)
  fix j assume "0 < j" "j < length xs" "parent j = i"
  then have "j = 2 * i + 1 \<or> j = 2 * i + 2" by (simp add: parent_eq_iff)
  then show "key (xs ! m) \<le> key (xs ! j)"
    using assms \<open>j < length xs\<close>
    by (auto simp: min_child_def Let_def mult.commute split: if_splits)
qed

lemma min_child_bounds:
  "min_child key xs i = Some m \<Longrightarrow> i < m \<and> m < length xs \<and> i < length xs"
  using min_child_Some(1,2) [of key xs i m] by simp

lemma min_child_None:
  "min_child key xs i = None \<Longrightarrow> 0 < j \<Longrightarrow> j < length xs \<Longrightarrow> parent j \<noteq> i"
  by (auto simp: min_child_def Let_def parent_eq_iff split: if_splits)

subsection \<open>The two repair loops\<close>

function sift_down :: "('a \<Rightarrow> 'k::linorder) \<Rightarrow> 'a list \<Rightarrow> nat \<Rightarrow> 'a list" where
  "sift_down key xs i =
     (case min_child key xs i of
        None \<Rightarrow> xs
      | Some m \<Rightarrow>
          if key (xs ! m) < key (xs ! i) then sift_down key (swap_list xs i m) m else xs)"
  by pat_completeness auto
termination
  by (relation "measure (\<lambda>(key, xs, i). length xs - i)")
    (auto dest!: min_child_bounds)

declare sift_down.simps [simp del]

function sift_up :: "('a \<Rightarrow> 'k::linorder) \<Rightarrow> 'a list \<Rightarrow> nat \<Rightarrow> 'a list" where
  "sift_up key xs i =
     (if 0 < i \<and> key (xs ! i) < key (xs ! parent i)
      then sift_up key (swap_list xs i (parent i)) (parent i)
      else xs)"
  by pat_completeness auto
termination
  by (relation "measure (\<lambda>(key, xs, i). i)") auto

declare sift_up.simps [simp del]

lemma mset_sift_down [simp]: "mset (sift_down key xs i) = mset xs"
proof (induction key xs i rule: sift_down.induct)
  case (1 key xs i)
  then show ?case
    by (subst sift_down.simps)
      (auto split: option.splits dest!: min_child_bounds)
qed

lemma length_sift_down [simp]: "length (sift_down key xs i) = length xs"
  by (metis mset_sift_down size_mset)

lemma mset_sift_up: "i < length xs \<Longrightarrow> mset (sift_up key xs i) = mset xs"
proof (induction key xs i rule: sift_up.induct)
  case (1 key xs i)
  show ?case
  proof (cases "0 < i \<and> key (xs ! i) < key (xs ! parent i)")
    case True
    with 1 have "mset (sift_up key (swap_list xs i (parent i)) (parent i)) = mset xs"
      using parent_less [of i] by (simp del: parent_less)
    with True show ?thesis by (subst sift_up.simps) simp
  next
    case False
    then show ?thesis by (subst sift_up.simps) auto
  qed
qed

lemma length_sift_up [simp]: "length (sift_up key xs i) = length xs"
proof (induction key xs i rule: sift_up.induct)
  case (1 key xs i)
  then show ?case by (subst sift_up.simps) auto
qed

lemma heap_except_down_step:
  assumes hole: "heap_except_down key xs i"
    and m: "min_child key xs i = Some m"
    and less: "key (xs ! m) < key (xs ! i)"
  shows "heap_except_down key (swap_list xs i m) m"
proof -
  note mc = min_child_Some [OF m]
  have i: "i < length xs" using mc(1,2) by simp
  let ?ys = "swap_list xs i m"
  have ys: "?ys ! k = (if k = i then xs ! m else if k = m then xs ! i else xs ! k)"
    if "k < length xs" for k
    using nth_swap_list [OF i mc(1) that] .
  have first: "key (?ys ! parent j) \<le> key (?ys ! j)"
    if j: "0 < j" "j < length xs" "parent j \<noteq> m" for j
  proof -
    have pj: "parent j < length xs" using j(1,2) parent_less [of j] by linarith
    consider "j = m" | "j = i" | "j \<noteq> m" "j \<noteq> i" "parent j = i" | "j \<noteq> m" "j \<noteq> i" "parent j \<noteq> i"
      by blast
    then show ?thesis
    proof cases
      case 1
      then show ?thesis using less ys [OF j(2)] ys [OF pj] mc(2,3) by simp
    next
      case 2
      have "key (xs ! parent i) \<le> key (xs ! m)"
        using hole mc j 2 by (auto simp: heap_except_down_def)
      then show ?thesis using 2 ys [OF j(2)] ys [OF pj] parent_less [OF j(1)] mc(2) j(3) by simp
    next
      case 3
      then show ?thesis using mc(4) [OF j(1,2)] ys [OF j(2)] ys [OF pj] by simp
    next
      case 4
      then show ?thesis
        using hole j ys [OF j(2)] ys [OF pj] by (simp add: heap_except_down_def)
    qed
  qed
  have second: "key (?ys ! parent m) \<le> key (?ys ! j)"
    if j: "0 < j" "j < length xs" "parent j = m" for j
  proof -
    have "key (xs ! m) \<le> key (xs ! j)"
      using hole j mc(2) by (auto simp: heap_except_down_def)
    moreover have "j \<noteq> i" "j \<noteq> m" using j mc(2) parent_less [OF j(1)] by auto
    ultimately show ?thesis using ys [OF j(2)] ys [OF i] mc(3) by simp
  qed
  show ?thesis
    using first second by (auto simp: heap_except_down_def)
qed

lemma heap_except_down_stop:
  assumes "heap_except_down key xs i"
    and "\<And>m. min_child key xs i = Some m \<Longrightarrow> key (xs ! i) \<le> key (xs ! m)"
  shows "heap_list key xs"
  unfolding heap_list_def
proof (intro allI impI)
  fix j assume j: "0 < j \<and> j < length xs"
  show "key (xs ! parent j) \<le> key (xs ! j)"
  proof (cases "parent j = i")
    case True
    with j obtain m where m: "min_child key xs i = Some m"
      using min_child_None [of key xs i j] by (cases "min_child key xs i") auto
    then show ?thesis
      using assms(2) [OF m] min_child_Some(4) [OF m] j True order_trans by blast
  next
    case False
    then show ?thesis using assms(1) j by (simp add: heap_except_down_def)
  qed
qed

lemma sift_down_heap: "heap_except_down key xs i \<Longrightarrow> heap_list key (sift_down key xs i)"
proof (induction key xs i rule: sift_down.induct)
  case (1 key xs i)
  show ?case
  proof (cases "\<exists>m. min_child key xs i = Some m \<and> key (xs ! m) < key (xs ! i)")
    case True
    then obtain m where m: "min_child key xs i = Some m" "key (xs ! m) < key (xs ! i)" by blast
    then have "heap_list key (sift_down key (swap_list xs i m) m)"
      using "1.IH" heap_except_down_step [OF "1.prems"] by blast
    with m show ?thesis by (subst sift_down.simps) simp
  next
    case False
    then have "heap_list key xs"
      by (intro heap_except_down_stop [OF "1.prems"]) (auto simp: not_less)
    with False show ?thesis by (subst sift_down.simps) (auto split: option.splits)
  qed
qed

lemma heap_except_up_step:
  assumes hole: "heap_except_up key xs i"
    and i: "0 < i" "i < length xs"
    and less: "key (xs ! i) < key (xs ! parent i)"
  shows "heap_except_up key (swap_list xs i (parent i)) (parent i)"
proof -
  let ?p = "parent i"
  let ?ys = "swap_list xs i ?p"
  have p: "?p < length xs" using i parent_less [of i] by linarith
  have ys: "?ys ! k = (if k = i then xs ! ?p else if k = ?p then xs ! i else xs ! k)"
    if "k < length xs" for k
    using nth_swap_list [OF i(2) p that] .
  have ord: "key (xs ! parent j) \<le> key (xs ! j)" if "0 < j" "j < length xs" "j \<noteq> i" for j
    using hole that by (simp add: heap_except_up_def)
  have grand: "key (xs ! ?p) \<le> key (xs ! j)" if "0 < j" "j < length xs" "parent j = i" for j
    using hole that i by (simp add: heap_except_up_def)
  have first: "key (?ys ! parent j) \<le> key (?ys ! j)"
    if j: "0 < j" "j < length xs" "j \<noteq> ?p" for j
  proof -
    have pj: "parent j < length xs" using j(1,2) parent_less [of j] by linarith
    consider "j = i" | "j \<noteq> i" "parent j = i" | "j \<noteq> i" "parent j = ?p" "parent j \<noteq> i"
      | "j \<noteq> i" "parent j \<noteq> ?p" "parent j \<noteq> i" by blast
    then show ?thesis
    proof cases
      case 1
      then show ?thesis using less ys [OF j(2)] ys [OF pj] parent_less [OF i(1)] by simp
    next
      case 2
      then show ?thesis using grand [OF j(1,2)] ys [OF j(2)] ys [OF pj] j(3) by simp
    next
      case 3
      then show ?thesis
        using ord [OF j(1,2)] less ys [OF j(2)] ys [OF pj] j(3) by simp
    next
      case 4
      then show ?thesis using ord [OF j(1,2)] ys [OF j(2)] ys [OF pj] j(3) by simp
    qed
  qed
  have second: "key (?ys ! parent ?p) \<le> key (?ys ! j)"
    if j: "0 < j" "j < length xs" "parent j = ?p" "0 < ?p" for j
  proof -
    have pp: "parent ?p < length xs" "parent ?p \<noteq> ?p" "parent ?p \<noteq> i"
      using p j(4) parent_less [of "?p"] parent_less [OF i(1)] by linarith+
    have top: "key (xs ! parent ?p) \<le> key (xs ! ?p)"
      using ord [of "?p"] p j(4) parent_less [OF i(1)] by auto
    have "key (xs ! ?p) \<le> key (xs ! j)" if "j \<noteq> i"
      using ord [OF j(1,2) that] j(3) by simp
    with top show ?thesis
      using ys [OF j(2)] ys [OF pp(1)] pp j parent_less [OF j(1)] by (auto intro: order_trans)
  qed
  show ?thesis
    using first second by (auto simp: heap_except_up_def)
qed

lemma sift_up_heap:
  "heap_except_up key xs i \<Longrightarrow> i < length xs \<Longrightarrow> heap_list key (sift_up key xs i)"
proof (induction key xs i rule: sift_up.induct)
  case (1 key xs i)
  show ?case
  proof (cases "0 < i \<and> key (xs ! i) < key (xs ! parent i)")
    case True
    have "parent i < length xs" using True "1.prems"(2) parent_less [of i] by linarith
    with True have "heap_list key (sift_up key (swap_list xs i (parent i)) (parent i))"
      using "1.IH" heap_except_up_step [OF "1.prems"(1)] "1.prems"(2) by simp
    with True show ?thesis by (subst sift_up.simps) simp
  next
    case False
    have "heap_list key xs"
      unfolding heap_list_def
    proof (intro allI impI)
      fix j assume j: "0 < j \<and> j < length xs"
      show "key (xs ! parent j) \<le> key (xs ! j)"
        using False j "1.prems"(1) by (cases "j = i") (auto simp: heap_except_up_def)
    qed
    with False show ?thesis by (subst sift_up.simps) auto
  qed
qed

subsection \<open>The root, and building the states a repair starts from\<close>

lemma heap_list_root:
  assumes heap: "heap_list key xs" and i: "i < length xs"
  shows "key (xs ! 0) \<le> key (xs ! i)"
  using i
proof (induction i rule: less_induct)
  case (less i)
  show ?case
  proof (cases "i = 0")
    case False
    then have "key (xs ! 0) \<le> key (xs ! parent i)"
      using less parent_less [of i] by (metis dual_order.strict_trans neq0_conv)
    also have "\<dots> \<le> key (xs ! i)"
      using heap less.prems False by (simp add: heap_list_def)
    finally show ?thesis .
  qed simp
qed

lemma heap_list_append_except_up:
  assumes "heap_list key xs"
  shows "heap_except_up key (xs @ [x]) (length xs)"
proof -
  have "parent j < length xs" if "0 < j" "j < Suc (length xs)" for j
    using that parent_less [of j] by linarith
  moreover have "parent j \<noteq> length xs" if "0 < j" "j < Suc (length xs)" for j
    using that parent_less [of j] by linarith
  ultimately show ?thesis
    using assms by (auto simp: heap_except_up_def heap_list_def nth_append)
qed

text \<open>
  Putting the last element in position \<open>i\<close> and dropping the last position, as the code
  does in \<open>Pop\<close> and \<open>Rob\<close>.
\<close>

definition fill_hole :: "'a list \<Rightarrow> nat \<Rightarrow> 'a list" where
  "fill_hole xs i = take (length xs - 1) (xs[i := xs ! (length xs - 1)])"

lemma length_fill_hole [simp]: "length (fill_hole xs i) = length xs - 1"
  by (simp add: fill_hole_def)

lemma mset_fill_hole:
  assumes "i < length xs"
  shows "add_mset (xs ! i) (mset (fill_hole xs i)) = mset xs"
proof -
  let ?n = "length xs - 1"
  let ?ys = "swap_list xs i ?n"
  have n: "?n < length xs" using assms by simp
  have ys: "?ys = take ?n ?ys @ [?ys ! ?n]"
    using n take_Suc_conv_app_nth [of ?n ?ys] by simp
  have "take ?n ?ys = fill_hole xs i"
    by (simp add: swap_list_def fill_hole_def)
  moreover have "?ys ! ?n = xs ! i"
    using nth_swap_list [OF assms n n] by auto
  ultimately have "mset ?ys = add_mset (xs ! i) (mset (fill_hole xs i))"
    using ys by (metis add_mset_add_single mset_append mset_single_iff_right)
  then show ?thesis using assms n by simp
qed

lemma nth_fill_hole:
  "k < length xs - 1 \<Longrightarrow>
   fill_hole xs i ! k = (if k = i then xs ! (length xs - 1) else xs ! k)"
  by (cases "k = i") (simp_all add: fill_hole_def)

lemma fill_hole_except_down:
  assumes heap: "heap_list key xs" and i: "i < length xs"
    and top: "0 < i \<Longrightarrow> i < length xs - 1 \<Longrightarrow>
      key (xs ! parent i) \<le> key (xs ! (length xs - 1))"
  shows "heap_except_down key (fill_hole xs i) i"
proof -
  have nth: "fill_hole xs i ! k = (if k = i then xs ! (length xs - 1) else xs ! k)"
    if "k < length xs - 1" for k
    using that by (rule nth_fill_hole)
  have ord: "key (xs ! parent j) \<le> key (xs ! j)" if "0 < j" "j < length xs" for j
    using heap that by (simp add: heap_list_def)
  have "key (fill_hole xs i ! parent j) \<le> key (fill_hole xs i ! j)"
    if j: "0 < j" "j < length xs - 1" "parent j \<noteq> i" for j
  proof -
    have pj: "parent j < length xs - 1" using j(1,2) parent_less [of j] by linarith
    show ?thesis
      using nth [OF j(2)] nth [OF pj] ord [of j] top j by auto
  qed
  moreover have "key (fill_hole xs i ! parent i) \<le> key (fill_hole xs i ! j)"
    if j: "0 < j" "j < length xs - 1" "parent j = i" "0 < i" for j
  proof -
    have lt: "i < j" "parent i < i" using j parent_less by auto
    then have pi: "parent i < length xs - 1" using j(2) by linarith
    have "key (xs ! parent i) \<le> key (xs ! i)" "key (xs ! i) \<le> key (xs ! j)"
      using ord [of j] ord [of i] j i by auto
    then have "key (xs ! parent i) \<le> key (xs ! j)" by (rule order_trans)
    then show ?thesis using nth [OF j(2)] nth [OF pi] lt by simp
  qed
  ultimately show ?thesis
    by (auto simp: heap_except_down_def)
qed

end
