(* ===== verification/Pool_Queue.thy ===== *)
theory Pool_Queue
  imports Resources Heap_Lists
begin

section \<open>The idle queues (pkg/pool/queue.go)\<close>

text \<open>
  The two queue structs of \<open>queue.go\<close>: a slice of pointers to pool items, the number of
  slots in use and the capacity. They have the same fields, so one record stands for both.
  A slot is \<open>None\<close> where the code has a nil pointer. Every operation is in the option
  monad, where \<open>None\<close> is a panic: an index past the slice, or a method call through a nil
  pointer. The operations that answer with a pointer return an option inside that.

  The lemmas show that on a well-formed queue no operation panics, that the code's loops
  compute the list functions of \<open>Heap_Lists\<close>, that \<open>Push\<close> and \<open>Pop\<close> keep the heap order
  and \<open>Pop\<close> takes the earliest item, and that \<open>Rob\<close> takes exactly the item asked for but
  keeps the heap order only under a condition.
\<close>

subsection \<open>Items and slots\<close>

record poolItem =
  item_res :: NetworkResource
  item_reverse :: int

definition lessThan :: "poolItem \<Rightarrow> poolItem \<Rightarrow> bool" where
  "lessThan i other \<longleftrightarrow> item_reverse i < item_reverse other"

definition GetResource :: "poolItem \<Rightarrow> NetworkResource" where
  "GetResource i = item_res i"

record queue =
  slots :: "poolItem option list"
  qsize :: nat
  qcapacity :: nat

type_synonym Queue = queue
type_synonym PriorityQueue = queue

definition slot_at :: "queue \<Rightarrow> nat \<Rightarrow> poolItem option option" where
  "slot_at q i = (if i < length (slots q) then Some (slots q ! i) else None)"

definition slot_set :: "queue \<Rightarrow> nat \<Rightarrow> poolItem option \<Rightarrow> queue option" where
  "slot_set q i x =
     (if i < length (slots q) then Some (q\<lparr>slots := (slots q)[i := x]\<rparr>) else None)"

text \<open>The search loop that \<open>Find\<close> and \<open>Rob\<close> of both queues run: the first slot with the id.\<close>

function find_slot :: "queue \<Rightarrow> string \<Rightarrow> nat \<Rightarrow> nat option option" where
  "find_slot q rid i =
     (if i < qsize q then
        do { p \<leftarrow> slot_at q i;
             item \<leftarrow> p;
             if GetResourceId (item_res item) = rid then Some (Some i)
             else find_slot q rid (i + 1) }
      else Some None)"
  by pat_completeness auto
termination
  by (relation "measure (\<lambda>(q, rid, i). qsize q - i)") auto

declare find_slot.simps [simp del]

text \<open>The growth step at the end of \<open>Push\<close>: a new slice of twice the capacity, copied into.\<close>

definition grow :: "queue \<Rightarrow> queue" where
  "grow q =
     (if qcapacity q \<le> qsize q then
        let c = qcapacity q * 2 in
        q\<lparr>qcapacity := c,
          slots := take c (slots q) @ replicate (c - length (slots q)) None\<rparr>
      else q)"

subsection \<open>The plain queue\<close>

definition NewQueue :: Queue where
  "NewQueue = \<lparr>slots = replicate 10 None, qsize = 0, qcapacity = 10\<rparr>"

definition Queue_Pop :: "Queue \<Rightarrow> (poolItem option \<times> Queue) option" where
  "Queue_Pop q =
     (if qsize q = 0 then Some (None, q)
      else do {
        ret \<leftarrow> slot_at q 0;
        l \<leftarrow> slot_at q (qsize q - 1);
        q1 \<leftarrow> slot_set q 0 l;
        Some (ret, q1\<lparr>qsize := qsize q1 - 1\<rparr>) })"

definition Queue_Peek :: "Queue \<Rightarrow> poolItem option option" where
  "Queue_Peek q = (if qsize q = 0 then Some None else slot_at q 0)"

definition Queue_Rob :: "Queue \<Rightarrow> string \<Rightarrow> (poolItem option \<times> Queue) option" where
  "Queue_Rob q rid =
     do { found \<leftarrow> find_slot q rid 0;
          case found of
            None \<Rightarrow> Some (None, q)
          | Some i \<Rightarrow>
              do { item \<leftarrow> slot_at q i;
                   l \<leftarrow> slot_at q (qsize q - 1);
                   q1 \<leftarrow> slot_set q i l;
                   Some (item, q1\<lparr>qsize := qsize q1 - 1\<rparr>) } }"

definition Queue_Find :: "Queue \<Rightarrow> string \<Rightarrow> poolItem option option" where
  "Queue_Find q rid =
     do { found \<leftarrow> find_slot q rid 0;
          case found of None \<Rightarrow> Some None | Some i \<Rightarrow> slot_at q i }"

definition Queue_Push :: "Queue \<Rightarrow> poolItem \<Rightarrow> Queue option" where
  "Queue_Push q item =
     do { q1 \<leftarrow> slot_set q (qsize q) (Some item);
          Some (grow (q1\<lparr>qsize := qsize q1 + 1\<rparr>)) }"

definition Queue_Size :: "Queue \<Rightarrow> nat" where
  "Queue_Size q = qsize q"

definition Queue_List :: "Queue \<Rightarrow> poolItem option list option" where
  "Queue_List q = (if qsize q \<le> length (slots q) then Some (take (qsize q) (slots q)) else None)"

subsection \<open>The priority queue\<close>

definition NewPriorityQueue :: PriorityQueue where
  "NewPriorityQueue = \<lparr>slots = replicate 10 None, qsize = 0, qcapacity = 10\<rparr>"

definition PriorityQueue_swap :: "PriorityQueue \<Rightarrow> nat \<Rightarrow> nat \<Rightarrow> PriorityQueue option" where
  "PriorityQueue_swap q x y =
     do { tmp \<leftarrow> slot_at q x;
          sy \<leftarrow> slot_at q y;
          q1 \<leftarrow> slot_set q x sy;
          slot_set q1 y tmp }"

function PriorityQueue_bubbleUp :: "PriorityQueue \<Rightarrow> nat \<Rightarrow> PriorityQueue option" where
  "PriorityQueue_bubbleUp q index =
     (if 0 < index then
        (let par = (index - 1) div 2 in
         do { pi \<leftarrow> slot_at q index;
              pp \<leftarrow> slot_at q par;
              x \<leftarrow> pi;
              y \<leftarrow> pp;
              if \<not> lessThan x y then Some q
              else do { q' \<leftarrow> PriorityQueue_swap q index par;
                        PriorityQueue_bubbleUp q' par } })
      else Some q)"
  by pat_completeness auto
termination
  by (relation "measure (\<lambda>(q, index). index)") auto

declare PriorityQueue_bubbleUp.simps [simp del]

text \<open>The choice of \<open>minChild\<close> in \<open>bubbleDown\<close>; the inner \<open>None\<close> is its \<open>break\<close>.\<close>

definition minChild :: "PriorityQueue \<Rightarrow> nat \<Rightarrow> nat option option" where
  "minChild q index =
     (let left = index * 2 + 1; right = index * 2 + 2 in
      if left < qsize q \<and> right < qsize q then
        do { pl \<leftarrow> slot_at q left;
             pr \<leftarrow> slot_at q right;
             l \<leftarrow> pl;
             r \<leftarrow> pr;
             Some (Some (if lessThan l r then left else right)) }
      else if left < qsize q then Some (Some left)
      else if right < qsize q then Some (Some right)
      else Some None)"

lemma minChild_bounds: "minChild q i = Some (Some m) \<Longrightarrow> i < m \<and> m < qsize q"
  by (auto simp: minChild_def Let_def split: if_splits Option.bind_splits)

lemma swap_qsize: "PriorityQueue_swap q x y = Some q' \<Longrightarrow> qsize q' = qsize q"
  by (auto simp: PriorityQueue_swap_def slot_at_def slot_set_def split: if_splits Option.bind_splits)

function PriorityQueue_bubbleDown :: "PriorityQueue \<Rightarrow> nat \<Rightarrow> PriorityQueue option" where
  "PriorityQueue_bubbleDown q index =
     (if index < qsize q then
        do { mc \<leftarrow> minChild q index;
             case mc of
               None \<Rightarrow> Some q
             | Some m \<Rightarrow>
                 do { pm \<leftarrow> slot_at q m;
                      pi \<leftarrow> slot_at q index;
                      x \<leftarrow> pm;
                      y \<leftarrow> pi;
                      if lessThan x y
                      then do { q' \<leftarrow> PriorityQueue_swap q index m;
                                PriorityQueue_bubbleDown q' m }
                      else Some q } }
      else Some q)"
  by pat_completeness auto
termination
  by (relation "measure (\<lambda>(q, index). qsize q - index)")
    (auto dest!: minChild_bounds swap_qsize)

declare PriorityQueue_bubbleDown.simps [simp del]

definition PriorityQueue_Pop :: "PriorityQueue \<Rightarrow> (poolItem option \<times> PriorityQueue) option" where
  "PriorityQueue_Pop q =
     (if qsize q = 0 then Some (None, q)
      else do {
        ret \<leftarrow> slot_at q 0;
        l \<leftarrow> slot_at q (qsize q - 1);
        q1 \<leftarrow> slot_set q 0 l;
        q2 \<leftarrow> PriorityQueue_bubbleDown (q1\<lparr>qsize := qsize q1 - 1\<rparr>) 0;
        Some (ret, q2) })"

definition PriorityQueue_Peek :: "PriorityQueue \<Rightarrow> poolItem option option" where
  "PriorityQueue_Peek q = (if qsize q = 0 then Some None else slot_at q 0)"

definition PriorityQueue_Rob ::
    "PriorityQueue \<Rightarrow> string \<Rightarrow> (poolItem option \<times> PriorityQueue) option" where
  "PriorityQueue_Rob q rid =
     do { found \<leftarrow> find_slot q rid 0;
          case found of
            None \<Rightarrow> Some (None, q)
          | Some i \<Rightarrow>
              do { item \<leftarrow> slot_at q i;
                   l \<leftarrow> slot_at q (qsize q - 1);
                   q1 \<leftarrow> slot_set q i l;
                   q2 \<leftarrow> PriorityQueue_bubbleDown (q1\<lparr>qsize := qsize q1 - 1\<rparr>) i;
                   Some (item, q2) } }"

definition PriorityQueue_Find :: "PriorityQueue \<Rightarrow> string \<Rightarrow> poolItem option option" where
  "PriorityQueue_Find q rid =
     do { found \<leftarrow> find_slot q rid 0;
          case found of None \<Rightarrow> Some None | Some i \<Rightarrow> slot_at q i }"

definition PriorityQueue_Push :: "PriorityQueue \<Rightarrow> poolItem \<Rightarrow> PriorityQueue option" where
  "PriorityQueue_Push q item =
     do { q1 \<leftarrow> slot_set q (qsize q) (Some item);
          let q2 = q1\<lparr>qsize := qsize q1 + 1\<rparr>;
          q3 \<leftarrow> PriorityQueue_bubbleUp q2 (qsize q2 - 1);
          Some (grow q3) }"

definition PriorityQueue_Size :: "PriorityQueue \<Rightarrow> nat" where
  "PriorityQueue_Size q = qsize q"

definition PriorityQueue_List :: "PriorityQueue \<Rightarrow> poolItem option list option" where
  "PriorityQueue_List q =
     (if qsize q \<le> length (slots q) then Some (take (qsize q) (slots q)) else None)"

subsection \<open>Well-formed queues and their contents\<close>

definition queue_wf :: "queue \<Rightarrow> bool" where
  "queue_wf q \<longleftrightarrow> length (slots q) = qcapacity q \<and> qsize q < qcapacity q \<and>
     (\<forall>i < qsize q. slots q ! i \<noteq> None)"

definition queue_items :: "queue \<Rightarrow> poolItem list" where
  "queue_items q = map the (take (qsize q) (slots q))"

text \<open>A queue whose first slots hold the items \<open>xs\<close>.\<close>

definition holds :: "queue \<Rightarrow> poolItem list \<Rightarrow> poolItem option list \<Rightarrow> bool" where
  "holds q xs rest \<longleftrightarrow> slots q = map Some xs @ rest \<and> qsize q = length xs"

definition due_ordered :: "queue \<Rightarrow> bool" where
  "due_ordered q \<longleftrightarrow> heap_list item_reverse (queue_items q)"

named_theorems queue_run \<open>what the operations compute on a queue with known contents\<close>

lemma length_queue_items: "queue_wf q \<Longrightarrow> length (queue_items q) = qsize q"
  by (simp add: queue_wf_def queue_items_def)

lemma holds_items: "holds q xs rest \<Longrightarrow> queue_items q = xs"
  by (simp add: holds_def queue_items_def)

lemma wf_holds: "queue_wf q \<Longrightarrow> holds q (queue_items q) (drop (qsize q) (slots q))"
proof -
  assume wf: "queue_wf q"
  have "map Some (queue_items q) = take (qsize q) (slots q)"
    using wf by (intro nth_equalityI) (auto simp: queue_wf_def queue_items_def)
  then show ?thesis
    using wf by (simp add: holds_def length_queue_items)
qed

lemma holds_wf:
  "holds q xs rest \<Longrightarrow> queue_wf q \<longleftrightarrow> length xs + length rest = qcapacity q \<and> rest \<noteq> []"
  by (cases rest) (auto simp: holds_def queue_wf_def nth_append)

lemma slot_at_holds [queue_run]:
  "holds q xs rest \<Longrightarrow> i < length xs \<Longrightarrow> slot_at q i = Some (Some (xs ! i))"
  by (simp add: holds_def slot_at_def nth_append)

lemma swap_holds:
  assumes "holds q xs rest" "i < length xs" "j < length xs"
  shows "PriorityQueue_swap q i j = Some (q\<lparr>slots := map Some (swap_list xs i j) @ rest\<rparr>)"
  using assms
  by (simp add: PriorityQueue_swap_def slot_at_def slot_set_def holds_def nth_append
      list_update_append map_update swap_list_def)

lemma holds_slots:
  "holds q xs rest \<Longrightarrow> length ys = length xs \<Longrightarrow> holds (q\<lparr>slots := map Some ys @ rest\<rparr>) ys rest"
  by (simp add: holds_def)

subsection \<open>The loops compute the list functions\<close>

lemma bubbleUp_computes:
  "holds q xs rest \<Longrightarrow> i < length xs \<Longrightarrow>
   PriorityQueue_bubbleUp q i = Some (q\<lparr>slots := map Some (sift_up item_reverse xs i) @ rest\<rparr>)"
proof (induction i arbitrary: q xs rule: less_induct)
  case (less i)
  let ?p = "parent i"
  show ?case
  proof (cases "0 < i \<and> item_reverse (xs ! i) < item_reverse (xs ! ?p)")
    case True
    then have p: "?p < length xs" using less.prems(2) parent_less [of i] by linarith
    have "PriorityQueue_bubbleUp (q\<lparr>slots := map Some (swap_list xs i ?p) @ rest\<rparr>) ?p =
        Some (q\<lparr>slots := map Some (sift_up item_reverse (swap_list xs i ?p) ?p) @ rest\<rparr>)"
      using less.IH [OF _ holds_slots [OF less.prems(1)]] True p by simp
    then show ?thesis
      using True p less.prems swap_holds [OF less.prems p]
      by (subst PriorityQueue_bubbleUp.simps, subst sift_up.simps)
        (simp add: slot_at_holds lessThan_def parent_def Let_def)
  next
    case False
    have "?p < length xs" using less.prems(2) by (simp add: parent_def)
    then show ?thesis
      using False less.prems
      by (subst PriorityQueue_bubbleUp.simps, subst sift_up.simps)
        (auto simp: slot_at_holds lessThan_def parent_def Let_def, auto simp: holds_def)
  qed
qed

lemma minChild_computes:
  "holds q xs rest \<Longrightarrow> minChild q i = Some (min_child item_reverse xs i)"
  by (auto simp: minChild_def min_child_def Let_def slot_at_holds lessThan_def)
    (auto simp: holds_def)

lemma bubbleDown_computes:
  "holds q xs rest \<Longrightarrow>
   PriorityQueue_bubbleDown q i = Some (q\<lparr>slots := map Some (sift_down item_reverse xs i) @ rest\<rparr>)"
proof (induction "length xs - i" arbitrary: q xs i rule: less_induct)
  case less
  show ?case
  proof (cases "min_child item_reverse xs i")
    case None
    then show ?thesis
      using less.prems minChild_computes [OF less.prems, of i]
      by (subst PriorityQueue_bubbleDown.simps, subst sift_down.simps) (simp add: holds_def)
  next
    case (Some m)
    note b = min_child_bounds [OF Some]
    show ?thesis
    proof (cases "item_reverse (xs ! m) < item_reverse (xs ! i)")
      case True
      have "PriorityQueue_bubbleDown (q\<lparr>slots := map Some (swap_list xs i m) @ rest\<rparr>) m =
          Some (q\<lparr>slots := map Some (sift_down item_reverse (swap_list xs i m) m) @ rest\<rparr>)"
        using less.hyps [of "swap_list xs i m" m, OF _ holds_slots [OF less.prems]] b
        by (simp add: diff_less_mono2)
      then show ?thesis
        using True b less.prems minChild_computes [OF less.prems, of i] Some
          swap_holds [OF less.prems, of i m]
        by (subst PriorityQueue_bubbleDown.simps, subst sift_down.simps)
          (simp add: slot_at_holds lessThan_def, simp add: holds_def)
    next
      case False
      then show ?thesis
        using b less.prems minChild_computes [OF less.prems, of i] Some
        by (subst PriorityQueue_bubbleDown.simps, subst sift_down.simps)
          (simp add: slot_at_holds lessThan_def, simp add: holds_def)
    qed
  qed
qed

text \<open>The search: the least position with the id, if any.\<close>

definition first_pos :: "string \<Rightarrow> poolItem list \<Rightarrow> nat \<Rightarrow> nat option" where
  "first_pos rid xs i = find (\<lambda>j. GetResourceId (item_res (xs ! j)) = rid) [i..<length xs]"

lemma find_slot_computes:
  "holds q xs rest \<Longrightarrow> find_slot q rid i = Some (first_pos rid xs i)"
proof (induction q rid i rule: find_slot.induct)
  case (1 q rid i)
  have size: "qsize q = length xs" using "1.prems" by (simp add: holds_def)
  show ?case
  proof (cases "i < length xs")
    case True
    then have "[i..<length xs] = i # [i + 1..<length xs]" by (simp add: upt_conv_Cons)
    then show ?thesis
      using 1 True size slot_at_holds [OF "1.prems" True]
      by (subst find_slot.simps) (simp add: first_pos_def)
  next
    case False
    then show ?thesis using size by (subst find_slot.simps) (simp add: first_pos_def)
  qed
qed

lemma first_pos_Some:
  assumes "first_pos rid xs 0 = Some i"
  shows "i < length xs" "GetResourceId (item_res (xs ! i)) = rid"
  using assms by (auto simp: first_pos_def find_Some_iff)

lemma first_pos_None:
  "first_pos rid xs 0 = None \<longleftrightarrow> rid \<notin> (\<lambda>x. GetResourceId (item_res x)) ` set xs"
proof -
  have "(\<exists>j < length xs. f (xs ! j) = r) \<longleftrightarrow> r \<in> f ` set xs" for f :: "poolItem \<Rightarrow> string" and r
    by (metis image_iff in_set_conv_nth)
  from this [of "\<lambda>x. GetResourceId (item_res x)" rid] show ?thesis
    by (simp add: first_pos_def find_None_iff)
qed

subsection \<open>What each operation does to a well-formed queue\<close>

lemma slot_set_below:
  "holds q xs rest \<Longrightarrow> i < length xs \<Longrightarrow>
   slot_set q i (Some x) = Some (q\<lparr>slots := map Some (xs[i := x]) @ rest\<rparr>)"
  by (simp add: slot_set_def holds_def list_update_append map_update)

lemma map_Some_split_last:
  "xs \<noteq> [] \<Longrightarrow> map Some xs @ rest =
     map Some (take (length xs - 1) xs) @ Some (xs ! (length xs - 1)) # rest"
  by (metis (no_types, lifting) append.assoc append_Cons append_Nil append_butlast_last_id
      butlast_conv_take last_conv_nth list.simps(8,9) map_append)

lemma holds_filled:
  assumes "holds q xs rest" "i < length xs"
  shows "holds (q\<lparr>slots := map Some (xs[i := xs ! (length xs - 1)]) @ rest, qsize := length xs - 1\<rparr>)
     (fill_hole xs i) (Some (xs[i := xs ! (length xs - 1)] ! (length xs - 1)) # rest)"
proof -
  let ?ys = "xs[i := xs ! (length xs - 1)]"
  have "?ys \<noteq> []" using assms(2) by auto
  from map_Some_split_last [OF this, of rest] show ?thesis
    using assms(2) by (simp add: holds_def fill_hole_def)
qed

lemma PriorityQueue_Pop_computes:
  assumes q: "holds q xs rest" and ne: "xs \<noteq> []"
  shows "\<exists>q'. PriorityQueue_Pop q = Some (Some (xs ! 0), q') \<and>
     (\<exists>x. holds q' (sift_down item_reverse (fill_hole xs 0) 0) (x # rest)) \<and>
     qcapacity q' = qcapacity q"
proof -
  let ?q1 = "q\<lparr>slots := map Some (xs[0 := xs ! (length xs - 1)]) @ rest, qsize := length xs - 1\<rparr>"
  have pos: "0 < length xs" using ne by simp
  note filled = holds_filled [OF q pos]
  note down = bubbleDown_computes [OF filled, of 0]
  have "PriorityQueue_Pop q =
      map_option (Pair (Some (xs ! 0))) (PriorityQueue_bubbleDown ?q1 0)"
    using q pos slot_at_holds [OF q, of 0] slot_at_holds [OF q, of "length xs - 1"]
      slot_set_below [OF q pos, of "xs ! (length xs - 1)"]
    by (cases "PriorityQueue_bubbleDown ?q1 0") (simp_all add: PriorityQueue_Pop_def holds_def)
  then show ?thesis
    using down holds_slots [OF filled, of "sift_down item_reverse (fill_hole xs 0) 0"] by auto
qed

lemma PriorityQueue_Rob_computes:
  assumes q: "holds q xs rest" and i: "first_pos rid xs 0 = Some i"
  shows "\<exists>q'. PriorityQueue_Rob q rid = Some (Some (xs ! i), q') \<and>
     (\<exists>x. holds q' (sift_down item_reverse (fill_hole xs i) i) (x # rest)) \<and>
     qcapacity q' = qcapacity q"
proof -
  let ?q1 = "q\<lparr>slots := map Some (xs[i := xs ! (length xs - 1)]) @ rest, qsize := length xs - 1\<rparr>"
  have pos: "i < length xs" using first_pos_Some [OF i] by simp
  then have n: "length xs - 1 < length xs" by simp
  note filled = holds_filled [OF q pos]
  note down = bubbleDown_computes [OF filled, of i]
  have "PriorityQueue_Rob q rid =
      map_option (Pair (Some (xs ! i))) (PriorityQueue_bubbleDown ?q1 i)"
    using q pos slot_at_holds [OF q pos] slot_at_holds [OF q n]
      slot_set_below [OF q pos, of "xs ! (length xs - 1)"] find_slot_computes [OF q, of rid 0] i
    by (cases "PriorityQueue_bubbleDown ?q1 i") (simp_all add: PriorityQueue_Rob_def holds_def)
  then show ?thesis
    using down holds_slots [OF filled, of "sift_down item_reverse (fill_hole xs i) i"] by auto
qed

text \<open>\<open>grow\<close> leaves the contents alone and restores a free slot at the end.\<close>

lemma grow_wf:
  assumes "holds q xs rest" "length xs + length rest = qcapacity q" "0 < qcapacity q"
  shows "queue_wf (grow q)" "queue_items (grow q) = xs"
proof -
  have "\<exists>rest'. holds (grow q) xs rest' \<and> length xs + length rest' = qcapacity (grow q) \<and> rest' \<noteq> []"
  proof (cases "qcapacity q \<le> qsize q")
    case True
    with assms have "length rest = 0" unfolding holds_def by linarith
    then have "rest = []" by simp
    with True assms show ?thesis by (auto simp: grow_def Let_def holds_def)
  next
    case False
    with assms show ?thesis
      by (intro exI [of _ rest]) (auto simp: grow_def holds_def)
  qed
  then show "queue_wf (grow q)" "queue_items (grow q) = xs"
    using holds_wf holds_items by blast+
qed

lemma queue_wf_rest:
  assumes "queue_wf q"
  obtains x rest where "holds q (queue_items q) (x # rest)"
    "length (queue_items q) + length (x # rest) = qcapacity q"
  using wf_holds [OF assms] holds_wf [OF wf_holds [OF assms]] assms
  by (cases "drop (qsize q) (slots q)") auto

lemma slot_set_next:
  "holds q xs (y # rest) \<Longrightarrow>
   slot_set q (qsize q) (Some x) = Some (q\<lparr>slots := map Some (xs @ [x]) @ rest\<rparr>)"
  by (simp add: slot_set_def holds_def list_update_append)

lemma PriorityQueue_Push_computes:
  assumes wf: "queue_wf q"
  shows "\<exists>q'. PriorityQueue_Push q item = Some q' \<and> queue_wf q' \<and>
     queue_items q' = sift_up item_reverse (queue_items q @ [item]) (length (queue_items q))"
proof -
  let ?xs = "queue_items q"
  obtain y rest where h: "holds q ?xs (y # rest)"
    and cap: "length ?xs + length (y # rest) = qcapacity q"
    using queue_wf_rest [OF wf] .
  let ?q2 = "q\<lparr>slots := map Some (?xs @ [item]) @ rest, qsize := qsize q + 1\<rparr>"
  let ?ys = "sift_up item_reverse (?xs @ [item]) (length ?xs)"
  let ?q3 = "?q2\<lparr>slots := map Some ?ys @ rest\<rparr>"
  have h2: "holds ?q2 (?xs @ [item]) rest" using h by (simp add: holds_def)
  have "PriorityQueue_bubbleUp ?q2 (length ?xs) = Some ?q3"
    using bubbleUp_computes [OF h2, of "length ?xs"] by simp
  then have "PriorityQueue_Push q item = Some (grow ?q3)"
    using slot_set_next [OF h, of item] h by (simp add: PriorityQueue_Push_def holds_def)
  moreover have "holds ?q3 ?ys rest" using holds_slots [OF h2, of ?ys] by simp
  then have "queue_wf (grow ?q3)" "queue_items (grow ?q3) = ?ys"
    using grow_wf [of ?q3 ?ys rest] cap by auto
  ultimately show ?thesis by blast
qed

text \<open>The facts the pool uses.\<close>

lemma NewPriorityQueue_wf:
  "queue_wf NewPriorityQueue" "queue_items NewPriorityQueue = []" "due_ordered NewPriorityQueue"
  by (simp_all add: queue_wf_def queue_items_def NewPriorityQueue_def due_ordered_def heap_list_def)

lemma queue_items_empty_iff: "queue_wf q \<Longrightarrow> qsize q = 0 \<longleftrightarrow> queue_items q = []"
  by (metis length_0_conv length_queue_items)

lemma Push_facts:
  assumes wf: "queue_wf q"
  obtains q' where "PriorityQueue_Push q item = Some q'" "queue_wf q'"
    "mset (queue_items q') = add_mset item (mset (queue_items q))"
    "due_ordered q \<longrightarrow> due_ordered q'"
proof -
  obtain q' where q': "PriorityQueue_Push q item = Some q'" "queue_wf q'"
    "queue_items q' = sift_up item_reverse (queue_items q @ [item]) (length (queue_items q))"
    using PriorityQueue_Push_computes [OF wf] by blast
  moreover have "mset (queue_items q') = add_mset item (mset (queue_items q))"
    using q'(3) by (simp add: mset_sift_up)
  moreover have "due_ordered q'" if "due_ordered q"
    using sift_up_heap [OF heap_list_append_except_up] that q'(3) by (simp add: due_ordered_def)
  ultimately show ?thesis using that by blast
qed

lemma Pop_facts:
  assumes wf: "queue_wf q" and ne: "queue_items q \<noteq> []"
  obtains item q' where "PriorityQueue_Pop q = Some (Some item, q')" "queue_wf q'"
    "item = queue_items q ! 0"
    "mset (queue_items q) = add_mset item (mset (queue_items q'))"
    "due_ordered q \<longrightarrow> due_ordered q'"
proof -
  let ?xs = "queue_items q"
  obtain y rest where h: "holds q ?xs (y # rest)"
    and cap: "length ?xs + length (y # rest) = qcapacity q"
    using queue_wf_rest [OF wf] .
  obtain q' x where q': "PriorityQueue_Pop q = Some (Some (?xs ! 0), q')"
    "holds q' (sift_down item_reverse (fill_hole ?xs 0) 0) (x # y # rest)"
    "qcapacity q' = qcapacity q"
    using PriorityQueue_Pop_computes [OF h ne] by blast
  have "queue_wf q'" using holds_wf [OF q'(2)] q'(3) cap ne by (cases ?xs) auto
  moreover have "mset ?xs = add_mset (?xs ! 0) (mset (queue_items q'))"
    using holds_items [OF q'(2)] mset_fill_hole [of 0 ?xs] ne by simp
  moreover have "due_ordered q'" if "due_ordered q"
    using sift_down_heap [OF fill_hole_except_down [of item_reverse ?xs 0]] that
      holds_items [OF q'(2)] ne
    by (simp add: due_ordered_def)
  ultimately show ?thesis using that q'(1) by blast
qed

lemma Rob_facts:
  assumes wf: "queue_wf q" and found: "rid \<in> (\<lambda>x. GetResourceId (item_res x)) ` set (queue_items q)"
  obtains item q' where "PriorityQueue_Rob q rid = Some (Some item, q')" "queue_wf q'"
    "item \<in> set (queue_items q)" "GetResourceId (item_res item) = rid"
    "mset (queue_items q) = add_mset item (mset (queue_items q'))"
proof -
  let ?xs = "queue_items q"
  obtain y rest where h: "holds q ?xs (y # rest)"
    and cap: "length ?xs + length (y # rest) = qcapacity q"
    using queue_wf_rest [OF wf] .
  obtain i where i: "first_pos rid ?xs 0 = Some i"
    using first_pos_None [of rid ?xs] found by (cases "first_pos rid ?xs 0") auto
  obtain q' x where q': "PriorityQueue_Rob q rid = Some (Some (?xs ! i), q')"
    "holds q' (sift_down item_reverse (fill_hole ?xs i) i) (x # y # rest)"
    "qcapacity q' = qcapacity q"
    using PriorityQueue_Rob_computes [OF h i] by blast
  note pos = first_pos_Some [OF i]
  have "queue_wf q'" using holds_wf [OF q'(2)] q'(3) cap pos by (cases ?xs) auto
  moreover have "mset ?xs = add_mset (?xs ! i) (mset (queue_items q'))"
    using holds_items [OF q'(2)] mset_fill_hole [of i ?xs] pos by simp
  ultimately show ?thesis using that q'(1) pos by (metis nth_mem)
qed

lemma Rob_missing:
  assumes wf: "queue_wf q" and "rid \<notin> (\<lambda>x. GetResourceId (item_res x)) ` set (queue_items q)"
  shows "PriorityQueue_Rob q rid = Some (None, q)"
  using find_slot_computes [OF wf_holds [OF wf], of rid 0]
    first_pos_None [of rid "queue_items q"] assms(2)
  by (simp add: PriorityQueue_Rob_def)

lemma Peek_facts:
  assumes wf: "queue_wf q"
  shows "PriorityQueue_Peek q =
    Some (if queue_items q = [] then None else Some (queue_items q ! 0))"
  using slot_at_holds [OF wf_holds [OF wf], of 0] queue_items_empty_iff [OF wf]
  by (auto simp: PriorityQueue_Peek_def)

lemma Find_facts:
  assumes wf: "queue_wf q"
  shows "\<exists>r. PriorityQueue_Find q rid = Some r \<and>
    (r = None \<longleftrightarrow> rid \<notin> (\<lambda>x. GetResourceId (item_res x)) ` set (queue_items q)) \<and>
    (\<forall>item. r = Some item \<longrightarrow> item \<in> set (queue_items q) \<and> GetResourceId (item_res item) = rid)"
proof (cases "first_pos rid (queue_items q) 0")
  case None
  then show ?thesis
    using find_slot_computes [OF wf_holds [OF wf], of rid 0]
      first_pos_None [of rid "queue_items q"]
    by (auto simp: PriorityQueue_Find_def)
next
  case (Some i)
  note pos = first_pos_Some [OF Some]
  then show ?thesis
    using find_slot_computes [OF wf_holds [OF wf], of rid 0] slot_at_holds [OF wf_holds [OF wf] pos(1)] Some
    by (auto simp: PriorityQueue_Find_def)
qed

lemma List_facts: "queue_wf q \<Longrightarrow> PriorityQueue_List q = Some (map Some (queue_items q))"
  using wf_holds [of q]
  by (metis PriorityQueue_List_def append_eq_conv_conj holds_def length_map less_imp_le queue_wf_def)

end
