(* ===== verification/Queue_Laws.thy ===== *)
theory Queue_Laws
  imports Pool_Queue
begin

section \<open>The contract of the idle queues\<close>

text \<open>
  What the pool needs from its idle queue, as two interfaces: a bag of items (nothing lost,
  nothing invented, nothing duplicated, and no panic on a well-formed queue), and a queue
  that also hands its items out by due time. Both queue structs of \<open>queue.go\<close> satisfy the
  first, the priority queue also the second. \<open>Rob\<close> belongs to the first interface only.
\<close>

text \<open>Popping a number of times, as a caller does; \<open>None\<close> when a pop panics or finds nothing.\<close>

fun drain :: "('q \<Rightarrow> (poolItem option \<times> 'q) option) \<Rightarrow> nat \<Rightarrow> 'q \<Rightarrow> (poolItem list \<times> 'q) option" where
  "drain pop 0 q = Some ([], q)"
| "drain pop (Suc n) q =
     (case pop q of
        Some (Some x, q') \<Rightarrow> map_option (\<lambda>(xs, q''). (x # xs, q'')) (drain pop n q')
      | _ \<Rightarrow> None)"

fun push_all :: "('q \<Rightarrow> poolItem \<Rightarrow> 'q option) \<Rightarrow> poolItem list \<Rightarrow> 'q \<Rightarrow> 'q option" where
  "push_all push [] q = Some q"
| "push_all push (x # xs) q =
     (case push q x of None \<Rightarrow> None | Some q' \<Rightarrow> push_all push xs q')"

locale item_queue =
  fixes push :: "'q \<Rightarrow> poolItem \<Rightarrow> 'q option"
    and pop :: "'q \<Rightarrow> (poolItem option \<times> 'q) option"
    and rob :: "'q \<Rightarrow> string \<Rightarrow> (poolItem option \<times> 'q) option"
    and items :: "'q \<Rightarrow> poolItem list"
    and inv :: "'q \<Rightarrow> bool"
  assumes push_law: "inv q \<Longrightarrow> \<exists>q'. push q x = Some q' \<and> inv q' \<and>
      mset (items q') = add_mset x (mset (items q))"
    and pop_law: "inv q \<Longrightarrow> items q \<noteq> [] \<Longrightarrow> \<exists>x q'. pop q = Some (Some x, q') \<and> inv q' \<and>
      mset (items q) = add_mset x (mset (items q'))"
    and pop_empty: "inv q \<Longrightarrow> items q = [] \<Longrightarrow> pop q = Some (None, q)"
    and rob_law: "inv q \<Longrightarrow> y \<in> set (items q) \<Longrightarrow> GetResourceId (item_res y) = rid \<Longrightarrow>
      \<exists>x q'. rob q rid = Some (Some x, q') \<and> inv q' \<and> GetResourceId (item_res x) = rid \<and>
        mset (items q) = add_mset x (mset (items q'))"
    and rob_missing: "inv q \<Longrightarrow> \<forall>y \<in> set (items q). GetResourceId (item_res y) \<noteq> rid \<Longrightarrow>
      rob q rid = Some (None, q)"
begin

lemma push_all_law:
  "inv q \<Longrightarrow> \<exists>q'. push_all push xs q = Some q' \<and> inv q' \<and> mset (items q') = mset (items q) + mset xs"
proof (induction xs arbitrary: q)
  case Nil
  then show ?case by simp
next
  case (Cons x xs)
  obtain q1 where "push q x = Some q1" "inv q1" "mset (items q1) = add_mset x (mset (items q))"
    using push_law [OF Cons.prems] by blast
  with Cons.IH [of q1] show ?case by auto
qed

lemma drain_law:
  "inv q \<Longrightarrow> n \<le> length (items q) \<Longrightarrow>
   \<exists>xs q'. drain pop n q = Some (xs, q') \<and> inv q' \<and> length xs = n \<and>
     mset (items q) = mset xs + mset (items q')"
proof (induction n arbitrary: q)
  case 0
  then show ?case by simp
next
  case (Suc n)
  then have "items q \<noteq> []" by auto
  then obtain x q1 where q1: "pop q = Some (Some x, q1)" "inv q1"
    "mset (items q) = add_mset x (mset (items q1))"
    using pop_law [OF Suc.prems(1)] by blast
  then have "n \<le> length (items q1)"
    using Suc.prems(2) by (metis Suc_le_mono size_add_mset size_mset)
  from Suc.IH [OF q1(2) this] q1 show ?case by fastforce
qed

lemma drain_bound: "inv q \<Longrightarrow> drain pop n q = Some (xs, q') \<Longrightarrow> n \<le> length (items q)"
proof (induction n arbitrary: q xs)
  case (Suc n)
  then obtain z q2 ys where z: "pop q = Some (Some z, q2)" "drain pop n q2 = Some (ys, q')"
    by (auto split: option.splits prod.splits)
  have "items q \<noteq> []" using z(1) pop_empty [OF Suc.prems(1)] by auto
  then have q2: "inv q2" "mset (items q) = add_mset z (mset (items q2))"
    using pop_law [OF Suc.prems(1)] z(1) by auto
  have "length (items q) = Suc (length (items q2))"
    using q2(2) by (metis size_add_mset size_mset)
  then show ?case using Suc.IH [OF q2(1) z(2)] by simp
qed simp

text \<open>The pool's choice: the preferred item if it is there, else whatever \<open>pop\<close> gives.\<close>

lemma preferred_or_any:
  assumes "inv q" "items q \<noteq> []"
  shows "\<exists>x q'. (case rob q rid of Some (Some x, q') \<Rightarrow> Some (Some x, q') | Some (None, q') \<Rightarrow> pop q'
      | None \<Rightarrow> None) = Some (Some x, q') \<and> inv q' \<and>
      mset (items q) = add_mset x (mset (items q')) \<and>
      ((\<exists>y \<in> set (items q). GetResourceId (item_res y) = rid) \<longrightarrow> GetResourceId (item_res x) = rid)"
proof (cases "\<exists>y \<in> set (items q). GetResourceId (item_res y) = rid")
  case True
  then show ?thesis using rob_law [OF assms(1)] by fastforce
next
  case False
  then have "rob q rid = Some (None, q)" using rob_missing [OF assms(1)] by auto
  then show ?thesis using pop_law [OF assms] False by auto
qed

end

locale due_queue = item_queue push pop rob items inv
    for push :: "'q \<Rightarrow> poolItem \<Rightarrow> 'q option" and pop rob items inv +
  fixes ordered :: "'q \<Rightarrow> bool"
  assumes pop_first: "inv q \<Longrightarrow> ordered q \<Longrightarrow> pop q = Some (Some x, q') \<Longrightarrow>
      (\<forall>y \<in> set (items q). item_reverse x \<le> item_reverse y) \<and> ordered q'"
    and push_ordered: "inv q \<Longrightarrow> ordered q \<Longrightarrow> push q x = Some q' \<Longrightarrow> ordered q'"
begin

lemma push_all_ordered:
  "inv q \<Longrightarrow> ordered q \<Longrightarrow> push_all push xs q = Some q' \<Longrightarrow> ordered q'"
proof (induction xs arbitrary: q)
  case Nil
  then show ?case by simp
next
  case (Cons x xs)
  obtain q1 where q1: "push q x = Some q1" "inv q1"
    using push_law [OF Cons.prems(1)] by blast
  then have "ordered q1" "push_all push xs q1 = Some q'"
    using push_ordered [OF Cons.prems(1,2) q1(1)] Cons.prems(3) by simp_all
  with Cons.IH [OF q1(2)] show ?case by blast
qed

lemma drain_sorted:
  "inv q \<Longrightarrow> ordered q \<Longrightarrow> drain pop n q = Some (xs, q') \<Longrightarrow>
   sorted (map item_reverse xs) \<and> (\<forall>x \<in> set xs. \<forall>y \<in> set (items q'). item_reverse x \<le> item_reverse y)"
proof (induction n arbitrary: q xs)
  case 0
  then show ?case by simp
next
  case (Suc n)
  then obtain x q1 xs1 where step: "pop q = Some (Some x, q1)" "drain pop n q1 = Some (xs1, q')"
    "xs = x # xs1"
    by (auto split: option.splits prod.splits)
  have ne: "items q \<noteq> []" using step(1) pop_empty [OF Suc.prems(1)] by auto
  have q1: "inv q1" "mset (items q) = add_mset x (mset (items q1))"
    using pop_law [OF Suc.prems(1) ne] step(1) by auto
  note first = pop_first [OF Suc.prems(1,2) step(1)]
  have n: "n \<le> length (items q1)" using drain_bound [OF q1(1) step(2)] .
  have "mset (items q1) = mset xs1 + mset (items q')"
    using drain_law [OF q1(1) n] step(2) by auto
  then have sub: "set (items q1) = set xs1 \<union> set (items q')"
    by (metis set_mset_mset set_mset_union)
  have sup: "set (items q) = insert x (set (items q1))"
    using q1(2) by (metis set_mset_add_mset_insert set_mset_mset)
  have "sorted (map item_reverse xs1) \<and>
      (\<forall>x \<in> set xs1. \<forall>y \<in> set (items q'). item_reverse x \<le> item_reverse y)"
    using Suc.IH [OF q1(1) _ step(2)] first by blast
  then show ?case
    using first unfolding step(3) sup sub by simp
qed

end

subsection \<open>The plain queue satisfies the first interface\<close>

lemma Queue_fill:
  assumes wf: "queue_wf q" and i: "i < length (queue_items q)"
  shows "\<exists>q'. slot_set q i (slots q ! (qsize q - 1)) = Some q' \<and>
     queue_wf (q'\<lparr>qsize := qsize q' - 1\<rparr>) \<and>
     queue_items (q'\<lparr>qsize := qsize q' - 1\<rparr>) = fill_hole (queue_items q) i"
proof -
  let ?xs = "queue_items q"
  let ?q1 = "q\<lparr>slots := map Some (?xs[i := ?xs ! (length ?xs - 1)]) @ drop (qsize q) (slots q)\<rparr>"
  note h = wf_holds [OF wf]
  have n: "length ?xs - 1 < length ?xs" using i by simp
  have "slots q ! (qsize q - 1) = Some (?xs ! (length ?xs - 1))"
    using slot_at_holds [OF h n] wf by (simp add: slot_at_def length_queue_items split: if_splits)
  then have "slot_set q i (slots q ! (qsize q - 1)) = Some ?q1"
    using slot_set_below [OF h i] by simp
  moreover have filled: "holds (?q1\<lparr>qsize := qsize ?q1 - 1\<rparr>) (fill_hole ?xs i)
      (Some (?xs[i := ?xs ! (length ?xs - 1)] ! (length ?xs - 1)) # drop (qsize q) (slots q))"
    using holds_filled [OF h i] wf by (simp add: length_queue_items)
  moreover have "queue_items (?q1\<lparr>qsize := qsize ?q1 - 1\<rparr>) = fill_hole ?xs i"
    using holds_items [OF filled] .
  moreover have "length (drop (qsize q) (slots q)) = qcapacity q - qsize q"
    "qsize q < qcapacity q" "0 < qsize q"
    using wf i length_queue_items [OF wf] by (auto simp: queue_wf_def)
  then have "queue_wf (?q1\<lparr>qsize := qsize ?q1 - 1\<rparr>)"
    using holds_wf [OF filled] length_queue_items [OF wf] by simp
  ultimately show ?thesis by blast
qed

lemma Queue_Pop_facts:
  assumes wf: "queue_wf q" and ne: "queue_items q \<noteq> []"
  shows "\<exists>q'. Queue_Pop q = Some (Some (queue_items q ! 0), q') \<and> queue_wf q' \<and>
    mset (queue_items q) = add_mset (queue_items q ! 0) (mset (queue_items q'))"
proof -
  have pos: "0 < length (queue_items q)" using ne by simp
  note h = wf_holds [OF wf]
  have last: "qsize q - 1 < length (slots q)" using wf by (auto simp: queue_wf_def)
  obtain q1 where "slot_set q 0 (slots q ! (qsize q - 1)) = Some q1"
    "queue_wf (q1\<lparr>qsize := qsize q1 - 1\<rparr>)"
    "queue_items (q1\<lparr>qsize := qsize q1 - 1\<rparr>) = fill_hole (queue_items q) 0"
    using Queue_fill [OF wf pos] by blast
  then show ?thesis
    using slot_at_holds [OF h pos] mset_fill_hole [OF pos] wf pos last
    by (auto simp: Queue_Pop_def slot_at_def length_queue_items split: if_splits)
qed

lemma Queue_Rob_facts:
  assumes wf: "queue_wf q" and found: "rid \<in> (\<lambda>x. GetResourceId (item_res x)) ` set (queue_items q)"
  shows "\<exists>x q'. Queue_Rob q rid = Some (Some x, q') \<and> queue_wf q' \<and>
    GetResourceId (item_res x) = rid \<and>
    mset (queue_items q) = add_mset x (mset (queue_items q'))"
proof -
  note h = wf_holds [OF wf]
  obtain i where i: "first_pos rid (queue_items q) 0 = Some i"
    using first_pos_None [of rid "queue_items q"] found
    by (cases "first_pos rid (queue_items q) 0") auto
  note pos = first_pos_Some [OF i]
  have last: "qsize q - 1 < length (slots q)" using wf by (auto simp: queue_wf_def)
  obtain q1 where "slot_set q i (slots q ! (qsize q - 1)) = Some q1"
    "queue_wf (q1\<lparr>qsize := qsize q1 - 1\<rparr>)"
    "queue_items (q1\<lparr>qsize := qsize q1 - 1\<rparr>) = fill_hole (queue_items q) i"
    using Queue_fill [OF wf pos(1)] by blast
  then show ?thesis
    using slot_at_holds [OF h pos(1)] mset_fill_hole [OF pos(1)] wf pos i last
      find_slot_computes [OF h, of rid 0]
    by (auto simp: Queue_Rob_def slot_at_def length_queue_items split: if_splits)
qed

lemma Queue_Push_facts:
  assumes wf: "queue_wf q"
  shows "\<exists>q'. Queue_Push q x = Some q' \<and> queue_wf q' \<and> queue_items q' = queue_items q @ [x]"
proof -
  let ?xs = "queue_items q"
  obtain y rest where h: "holds q ?xs (y # rest)"
    and cap: "length ?xs + length (y # rest) = qcapacity q"
    using queue_wf_rest [OF wf] .
  let ?q2 = "q\<lparr>slots := map Some (?xs @ [x]) @ rest, qsize := qsize q + 1\<rparr>"
  have h2: "holds ?q2 (?xs @ [x]) rest" using h by (simp add: holds_def)
  then have "queue_wf (grow ?q2)" "queue_items (grow ?q2) = ?xs @ [x]"
    using grow_wf [OF h2] cap by auto
  then show ?thesis using slot_set_next [OF h, of x] by (simp add: Queue_Push_def)
qed

interpretation plain: item_queue Queue_Push Queue_Pop Queue_Rob queue_items queue_wf
proof unfold_locales
  fix q :: Queue and x y :: poolItem and rid :: string
  assume wf: "queue_wf q"
  show "\<exists>q'. Queue_Push q x = Some q' \<and> queue_wf q' \<and>
      mset (queue_items q') = add_mset x (mset (queue_items q))"
    using Queue_Push_facts [OF wf, of x] by auto
  show "\<exists>x q'. Queue_Pop q = Some (Some x, q') \<and> queue_wf q' \<and>
      mset (queue_items q) = add_mset x (mset (queue_items q'))" if "queue_items q \<noteq> []"
    using Queue_Pop_facts [OF wf that] by blast
  show "Queue_Pop q = Some (None, q)" if "queue_items q = []"
    using queue_items_empty_iff [OF wf] that by (simp add: Queue_Pop_def)
  show "\<exists>x q'. Queue_Rob q rid = Some (Some x, q') \<and> queue_wf q' \<and>
      GetResourceId (item_res x) = rid \<and> mset (queue_items q) = add_mset x (mset (queue_items q'))"
    if "y \<in> set (queue_items q)" "GetResourceId (item_res y) = rid"
    using Queue_Rob_facts [OF wf] that by blast
  show "Queue_Rob q rid = Some (None, q)"
    if "\<forall>y \<in> set (queue_items q). GetResourceId (item_res y) \<noteq> rid"
    using find_slot_computes [OF wf_holds [OF wf], of rid 0]
      first_pos_None [of rid "queue_items q"] that
    by (auto simp: Queue_Rob_def)
qed

subsection \<open>The priority queue satisfies both\<close>

interpretation prio: due_queue PriorityQueue_Push PriorityQueue_Pop PriorityQueue_Rob
  queue_items queue_wf due_ordered
proof unfold_locales
  fix q q' :: PriorityQueue and x y :: poolItem and rid :: string
  assume wf: "queue_wf q"
  show "\<exists>q'. PriorityQueue_Push q x = Some q' \<and> queue_wf q' \<and>
      mset (queue_items q') = add_mset x (mset (queue_items q))"
    by (rule Push_facts [OF wf, of x]) blast
  show "\<exists>x q'. PriorityQueue_Pop q = Some (Some x, q') \<and> queue_wf q' \<and>
      mset (queue_items q) = add_mset x (mset (queue_items q'))" if "queue_items q \<noteq> []"
    by (rule Pop_facts [OF wf that]) blast
  show "PriorityQueue_Pop q = Some (None, q)" if "queue_items q = []"
    using queue_items_empty_iff [OF wf] that by (simp add: PriorityQueue_Pop_def)
  show "\<exists>x q'. PriorityQueue_Rob q rid = Some (Some x, q') \<and> queue_wf q' \<and>
      GetResourceId (item_res x) = rid \<and> mset (queue_items q) = add_mset x (mset (queue_items q'))"
    if "y \<in> set (queue_items q)" "GetResourceId (item_res y) = rid"
    by (rule Rob_facts [OF wf, of rid]) (use that in blast)+
  show "PriorityQueue_Rob q rid = Some (None, q)"
    if "\<forall>y \<in> set (queue_items q). GetResourceId (item_res y) \<noteq> rid"
    using Rob_missing [OF wf, of rid] that by auto
  show "(\<forall>y \<in> set (queue_items q). item_reverse x \<le> item_reverse y) \<and> due_ordered q'"
    if ord: "due_ordered q" and pop: "PriorityQueue_Pop q = Some (Some x, q')"
  proof -
    have ne: "queue_items q \<noteq> []"
      using pop queue_items_empty_iff [OF wf] by (auto simp: PriorityQueue_Pop_def)
    obtain q'' where "PriorityQueue_Pop q = Some (Some (queue_items q ! 0), q'')"
      "due_ordered q \<longrightarrow> due_ordered q''"
      using Pop_facts [OF wf ne] by metis
    then show ?thesis
      using pop ord heap_list_root [of item_reverse "queue_items q"]
      by (auto simp: due_ordered_def in_set_conv_nth)
  qed
  show "due_ordered q'" if "due_ordered q" "PriorityQueue_Push q x = Some q'"
    by (rule Push_facts [OF wf, of x]) (use that in simp)
qed

end
