(* ===== verification/Go_Strings.thy ===== *)
theory Go_Strings
  imports Main
begin

section \<open>Functions of Go's strings package\<close>

text \<open>
  What the pool's log line, the command line plugin and the logger use of package \<open>strings\<close>, on strings as lists of
  characters, with the laws their users need: splitting undoes joining.
\<close>

definition HasPrefix :: "string \<Rightarrow> string \<Rightarrow> bool" where
  "HasPrefix s prefix \<longleftrightarrow> take (length prefix) s = prefix"

definition TrimPrefix :: "string \<Rightarrow> string \<Rightarrow> string" where
  "TrimPrefix s prefix = (if HasPrefix s prefix then drop (length prefix) s else s)"

text \<open>\<open>strings.Split\<close> and \<open>strings.Join\<close> for a separator of one character.\<close>

fun Split :: "char \<Rightarrow> string \<Rightarrow> string list" where
  "Split sep [] = [[]]"
| "Split sep (c # s) =
     (if c = sep then [] # Split sep s
      else (case Split sep s of [] \<Rightarrow> [[c]] | p # ps \<Rightarrow> (c # p) # ps))"

fun Join :: "char \<Rightarrow> string list \<Rightarrow> string" where
  "Join sep [] = []"
| "Join sep [s] = s"
| "Join sep (s # t # ss) = s @ sep # Join sep (t # ss)"

text \<open>\<open>strings.Join\<close> for any separator.\<close>

fun Join_with :: "string \<Rightarrow> string list \<Rightarrow> string" where
  "Join_with sep [] = []"
| "Join_with sep [s] = s"
| "Join_with sep (s # t # ss) = s @ sep @ Join_with sep (t # ss)"

lemma Join_with_char: "Join_with [c] ss = Join c ss"
  by (induction c ss rule: Join.induct) simp_all

lemma HasPrefix_append [simp]: "HasPrefix (p @ s) p"
  by (simp add: HasPrefix_def)

lemma TrimPrefix_append [simp]: "TrimPrefix (p @ s) p = s"
  by (simp add: TrimPrefix_def)

lemma HasPrefix_iff: "HasPrefix s p \<longleftrightarrow> (\<exists>t. s = p @ t)"
  unfolding HasPrefix_def by (metis append_eq_conv_conj append_take_drop_id)

lemma Split_not_Nil [simp]: "Split sep s \<noteq> []"
  by (induction s) (auto split: list.splits)

lemma Split_piece: "sep \<notin> set s \<Longrightarrow> Split sep s = [s]"
  by (induction s) auto

lemma Split_append: "sep \<notin> set s \<Longrightarrow> Split sep (s @ sep # t) = s # Split sep t"
  by (induction s) (auto split: list.splits)

lemma Split_Join:
  "ss \<noteq> [] \<Longrightarrow> \<forall>s\<in>set ss. sep \<notin> set s \<Longrightarrow> Split sep (Join sep ss) = ss"
  by (induction sep ss rule: Join.induct) (simp_all add: Split_piece Split_append)

text \<open>Splitting loses nothing, and its pieces are free of the separator.\<close>

lemma Join_Split: "Join sep (Split sep s) = s"
proof (induction s)
  case Nil
  then show ?case by simp
next
  case (Cons c s)
  then show ?case
    by (cases "Split sep s"; cases "tl (Split sep s)") auto
qed

lemma Split_pieces: "p \<in> set (Split sep s) \<Longrightarrow> sep \<notin> set p"
  by (induction s arbitrary: p) (auto split: if_splits list.splits)

text \<open>A key that ends before the first separator is found again.\<close>

lemma HasPrefix_key:
  assumes "sep \<notin> set k" "sep \<notin> set k'"
  shows "HasPrefix (k' @ sep # v) (k @ [sep]) \<longleftrightarrow> k' = k"
proof
  assume "HasPrefix (k' @ sep # v) (k @ [sep])"
  then obtain t where "k' @ sep # v = k @ sep # t" by (auto simp: HasPrefix_iff)
  then show "k' = k" using assms Split_append by (metis list.inject)
next
  assume "k' = k"
  then show "HasPrefix (k' @ sep # v) (k @ [sep])"
    using HasPrefix_append [of "k @ [sep]" v] by simp
qed

end
