(* ===== verification/Object_Pool.thy ===== *)
theory Object_Pool
  imports Queue_Laws Go_Strings "HOL-Library.Stream"
begin

section \<open>The object pool (pkg/pool/pool.go)\<close>

text \<open>
  The pool's state, one definition per method, and their sequential behaviour: what a method
  does when it runs from its first to its last statement with no other goroutine moving in
  between. Interleavings of goroutines are the subject of \<open>Pool_Concurrency\<close>.

  The mutex is the flag \<open>locked\<close>: locking a locked mutex blocks, unlocking an unlocked one
  is a fatal error. The buffered channel \<open>tokenCh\<close> of empty structs is the number of tokens
  in it and its buffer size; a send into a full buffer and a receive from an empty one block.
  The unbuffered \<open>notifyCh\<close> has one receiver, the goroutine of \<open>startCheckIdleTicker\<close>;
  \<open>tickerWaiting\<close> says whether it stands at its \<open>select\<close>, so that the non-blocking send of
  \<open>notify\<close> reaches it. \<open>clock\<close> is the stream of instants that the calls of \<open>time.Now\<close>
  return, in nanoseconds. The factory's two methods act on an environment of their own,
  \<open>env\<close>. Log statements have no effect on the state and are left out, except that the one of the
  constructor walks the slots of the queue to print them and would panic at an empty one.
\<close>

subsection \<open>Data\<close>

record 'e ObjectFactory =
  factory_Create :: "string \<Rightarrow> ('e, error + NetworkResource) go"
  factory_Dispose :: "NetworkResource \<Rightarrow> ('e, error option) go"

record 'e SimpleObjectPool =
  inuse :: "(string, NetworkResource) gmap"
  idle :: PriorityQueue
  locked :: bool
  factory :: "'e ObjectFactory"
  maxIdle :: int
  minIdle :: int
  capacity :: int
  tokens :: nat
  tokenCap :: nat
  tickerWaiting :: bool
  clock :: "int stream"
  env :: 'e

text \<open>
  The initializer of a configuration is run on the pool as its \<open>ResourceHolder\<close>; the fields
  \<open>MaxPoolSize\<close> and \<open>MinPoolSize\<close> are never read.
\<close>

record 'e PoolConfig =
  cfg_Factory :: "'e ObjectFactory"
  cfg_Initializer :: "('e SimpleObjectPool, error option) go option"
  cfg_MinIdle :: int
  cfg_MaxIdle :: int
  cfg_MaxPoolSize :: int
  cfg_MinPoolSize :: int
  cfg_Capacity :: int

text \<open>
  A call's context, as far as the pool looks at it: whether its \<open>Done\<close> channel is closed by
  the time the \<open>select\<close> of \<open>Acquire\<close> has to decide, and which of the two cases the runtime
  picks if both are ready. \<open>ctx_Err\<close> is what \<open>ctx.Err()\<close> returns at the end of a handler.
\<close>

record Context =
  ctx_done :: bool
  ctx_prefers_token :: bool
  ctx_Err :: "error option"

definition DefaultMaxIdle :: int where "DefaultMaxIdle = 20"

definition DefaultCapacity :: int where "DefaultCapacity = 50"

subsection \<open>Statements\<close>

definition pool_Lock :: "('e SimpleObjectPool, unit) go" where
  "pool_Lock = (\<lambda>s. if locked s then (Halts Blocked, s) else (Returns (), s\<lparr>locked := True\<rparr>))"

definition pool_Unlock :: "('e SimpleObjectPool, unit) go" where
  "pool_Unlock = (\<lambda>s. if locked s then (Returns (), s\<lparr>locked := False\<rparr>) else (Halts Panicked, s))"

definition time_Now :: "('e SimpleObjectPool, int) go" where
  "time_Now = (\<lambda>s. (Returns (shd (clock s)), s\<lparr>clock := stl (clock s)\<rparr>))"

definition token_send :: "('e SimpleObjectPool, unit) go" where
  "token_send = (\<lambda>s. if tokens s < tokenCap s then (Returns (), s\<lparr>tokens := tokens s + 1\<rparr>)
                     else (Halts Blocked, s))"

text \<open>The \<open>select\<close> with a \<open>default\<close>: whether a token was there to take.\<close>

definition token_try :: "('e SimpleObjectPool, bool) go" where
  "token_try = (\<lambda>s. if 0 < tokens s then (Returns True, s\<lparr>tokens := tokens s - 1\<rparr>)
                    else (Returns False, s))"

text \<open>The \<open>select\<close> of \<open>Acquire\<close>: \<open>True\<close> for a token taken, \<open>False\<close> for the context done.\<close>

definition token_select :: "Context \<Rightarrow> ('e SimpleObjectPool, bool) go" where
  "token_select ctx = (\<lambda>s.
     if 0 < tokens s \<and> (ctx_done ctx \<longrightarrow> ctx_prefers_token ctx)
     then (Returns True, s\<lparr>tokens := tokens s - 1\<rparr>)
     else if ctx_done ctx then (Returns False, s)
     else (Halts Blocked, s))"

definition pool_Create :: "string \<Rightarrow> ('e SimpleObjectPool, error + NetworkResource) go" where
  "pool_Create ip = (\<lambda>s. go_zoom env (\<lambda>e s. s\<lparr>env := e\<rparr>) (factory_Create (factory s) ip) s)"

definition pool_Dispose :: "NetworkResource \<Rightarrow> ('e SimpleObjectPool, error option) go" where
  "pool_Dispose res = (\<lambda>s. go_zoom env (\<lambda>e s. s\<lparr>env := e\<rparr>) (factory_Dispose (factory s) res) s)"

definition idle_Push :: "poolItem \<Rightarrow> ('e SimpleObjectPool, unit) go" where
  "idle_Push item = (\<lambda>s. case PriorityQueue_Push (idle s) item of
     None \<Rightarrow> (Halts Panicked, s) | Some q \<Rightarrow> (Returns (), s\<lparr>idle := q\<rparr>))"

definition idle_Pop :: "('e SimpleObjectPool, poolItem option) go" where
  "idle_Pop = (\<lambda>s. case PriorityQueue_Pop (idle s) of
     None \<Rightarrow> (Halts Panicked, s) | Some (r, q) \<Rightarrow> (Returns r, s\<lparr>idle := q\<rparr>))"

definition idle_Rob :: "string \<Rightarrow> ('e SimpleObjectPool, poolItem option) go" where
  "idle_Rob rid = (\<lambda>s. case PriorityQueue_Rob (idle s) rid of
     None \<Rightarrow> (Halts Panicked, s) | Some (r, q) \<Rightarrow> (Returns r, s\<lparr>idle := q\<rparr>))"

definition idle_size :: "'e SimpleObjectPool \<Rightarrow> int" where
  "idle_size s = int (PriorityQueue_Size (idle s))"

subsection \<open>Methods\<close>

definition sizeLocked :: "'e SimpleObjectPool \<Rightarrow> int" where
  "sizeLocked s = idle_size s + int (length (inuse s))"

definition pool_size :: "'e SimpleObjectPool \<Rightarrow> int" where
  "pool_size s = idle_size s + int (length (inuse s))"

definition tooManyIdle :: "'e SimpleObjectPool \<Rightarrow> bool" where
  "tooManyIdle s \<longleftrightarrow>
     maxIdle s < idle_size s \<or> (0 < idle_size s \<and> capacity s < pool_size s)"

definition notify :: "('e SimpleObjectPool, unit) go" where
  "notify = go_modify (\<lambda>s. s\<lparr>tickerWaiting := False\<rparr>)"

definition AddIdle :: "NetworkResource \<Rightarrow> ('e SimpleObjectPool, unit) go" where
  "AddIdle resource =
     go_seq pool_Lock (
     go_bind time_Now (\<lambda>t.
     go_seq (idle_Push \<lparr>item_res = resource, item_reverse = t\<rparr>)
     pool_Unlock))"

definition AddInuse :: "NetworkResource \<Rightarrow> ('e SimpleObjectPool, unit) go" where
  "AddInuse res =
     go_seq pool_Lock (
     go_seq (go_modify (\<lambda>s. s\<lparr>inuse := gmap_put (inuse s) (GetResourceId res) res\<rparr>))
     pool_Unlock)"

definition pool_dispose :: "NetworkResource \<Rightarrow> ('e SimpleObjectPool, unit) go" where
  "pool_dispose res =
     go_bind (pool_Dispose res) (\<lambda>err.
       case err of Some e \<Rightarrow> go_return () | None \<Rightarrow> token_send)"

text \<open>
  The loop of \<open>checkIdle\<close>. Its two \<open>break\<close>s leave the loop, and the method, with the mutex
  still held. The number bounds the iterations; what is enough is shown with the factory.
\<close>

fun checkIdle :: "nat \<Rightarrow> ('e SimpleObjectPool, unit) go" where
  "checkIdle 0 = go_halt NoFuel"
| "checkIdle (Suc fuel) =
     go_bind (go_get tooManyIdle) (\<lambda>more.
     if \<not> more then go_return ()
     else
       go_seq pool_Lock (
       go_bind (\<lambda>s. go_deref (PriorityQueue_Peek (idle s)) s) (\<lambda>peeked.
       case peeked of
         None \<Rightarrow> go_return ()
       | Some item \<Rightarrow>
           go_bind time_Now (\<lambda>now.
           if now < item_reverse item then go_return ()
           else
             go_bind idle_Pop (\<lambda>popped.
             go_seq pool_Unlock (
             go_bind (go_deref popped) (\<lambda>item.
             go_bind (pool_Dispose (item_res item)) (\<lambda>err.
             go_seq (case err of None \<Rightarrow> token_send | Some e \<Rightarrow> AddIdle (item_res item))
             (checkIdle fuel)))))))))"

definition needAddition :: "('e SimpleObjectPool, int) go" where
  "needAddition =
     go_seq pool_Lock (
     go_bind (go_get (\<lambda>s.
       let addition = minIdle s - idle_size s in
       if capacity s - sizeLocked s < addition then capacity s - sizeLocked s else addition))
     (\<lambda>r. go_seq pool_Unlock (go_return r)))"

text \<open>The first loop of \<open>checkInsufficient\<close>: up to that many tokens, as many as there are.\<close>

fun take_tokens :: "nat \<Rightarrow> ('e SimpleObjectPool, nat) go" where
  "take_tokens 0 = go_return 0"
| "take_tokens (Suc n) =
     go_bind token_try (\<lambda>got.
     go_bind (take_tokens n) (\<lambda>k. go_return (if got then Suc k else k)))"

text \<open>The second loop: a resource for each token, a token back for each failure.\<close>

fun create_for_tokens :: "nat \<Rightarrow> ('e SimpleObjectPool, nat) go" where
  "create_for_tokens 0 = go_return 0"
| "create_for_tokens (Suc n) =
     go_bind (pool_Create '''') (\<lambda>r.
     case r of
       Inl e \<Rightarrow> go_seq token_send (
               go_bind (create_for_tokens n) (\<lambda>left. go_return (Suc left)))
     | Inr res \<Rightarrow> go_seq (AddIdle res) (create_for_tokens n))"

definition checkInsufficient :: "('e SimpleObjectPool, unit) go" where
  "checkInsufficient =
     go_bind needAddition (\<lambda>addition.
     if addition \<le> 0 then go_return ()
     else
       go_bind (take_tokens (nat addition)) (\<lambda>tokenAcquired.
       if tokenAcquired = 0 then go_return ()
       else
         go_bind (create_for_tokens tokenAcquired) (\<lambda>leftCount.
         if 0 < leftCount then notify else go_return ())))"

text \<open>
  One round of the goroutine: it has been woken by the ticker or by a notification, does its
  two checks and goes back to its \<open>select\<close>. It starts with a single \<open>checkIdle\<close>.
\<close>

definition ticker_start :: "nat \<Rightarrow> ('e SimpleObjectPool, unit) go" where
  "ticker_start fuel =
     go_seq (checkIdle fuel) (go_modify (\<lambda>s. s\<lparr>tickerWaiting := True\<rparr>))"

definition ticker_round :: "nat \<Rightarrow> ('e SimpleObjectPool, unit) go" where
  "ticker_round fuel =
     go_seq (go_modify (\<lambda>s. s\<lparr>tickerWaiting := False\<rparr>)) (
     go_seq (checkIdle fuel) (
     go_seq checkInsufficient (
     go_modify (\<lambda>s. s\<lparr>tickerWaiting := True\<rparr>))))"

text \<open>
  \<open>preload\<close>: its loop stops when there are enough idle resources or the pool is full. Each
  round adds an idle resource, so \<open>minIdle\<close> rounds and one more are enough.
\<close>

fun preload_loop :: "nat \<Rightarrow> ('e SimpleObjectPool, error option) go" where
  "preload_loop 0 = go_halt NoFuel"
| "preload_loop (Suc fuel) =
     go_bind (go_get (\<lambda>s. minIdle s \<le> idle_size s \<or> capacity s \<le> pool_size s)) (\<lambda>stop.
     if stop then go_return None
     else
       go_bind (pool_Create '''') (\<lambda>r.
       case r of
         Inl e \<Rightarrow> go_return (Some e)
       | Inr res \<Rightarrow> go_seq (AddIdle res) (preload_loop fuel)))"

fun send_tokens :: "nat \<Rightarrow> ('e SimpleObjectPool, unit) go" where
  "send_tokens 0 = go_return ()"
| "send_tokens (Suc n) = go_seq token_send (send_tokens n)"

definition preload :: "('e SimpleObjectPool, error option) go" where
  "preload =
     go_bind (\<lambda>s. preload_loop (Suc (nat (minIdle s))) s) (\<lambda>err.
     case err of
       Some e \<Rightarrow> go_return (Some e)
     | None \<Rightarrow>
         go_bind (go_get (\<lambda>s. capacity s - pool_size s)) (\<lambda>tokenCount.
         go_seq (send_tokens (nat tokenCount)) (go_return None)))"

text \<open>
  What the constructor logs: the ids in the first \<open>size\<close> slots, where an empty slot is a nil
  dereference and a missing one an index out of range, and the ids in use in the order of the map.
\<close>

fun slot_keys :: "nat \<Rightarrow> poolItem option list \<Rightarrow> string list option" where
  "slot_keys 0 xs = Some []"
| "slot_keys (Suc n) [] = None"
| "slot_keys (Suc n) (None # xs) = None"
| "slot_keys (Suc n) (Some item # xs) = map_option (\<lambda>keys. GetResourceId (item_res item) # keys) (slot_keys n xs)"

definition queueKeys :: "PriorityQueue \<Rightarrow> string option" where
  "queueKeys q = map_option (Join_with '', '') (slot_keys (qsize q) (slots q))"

definition mapKeys :: "(string, NetworkResource) gmap \<Rightarrow> string" where
  "mapKeys m = Join_with '', '' (map fst m)"

text \<open>
  \<open>NewSimpleObjectPool\<close>: the checks come before the defaults. The clock and the factory's
  environment are those at the time of the call. A negative buffer size panics in \<open>make\<close>.
  On success the goroutine has been started and is about to run its first \<open>checkIdle\<close>.
\<close>

definition new_pool :: "'e PoolConfig \<Rightarrow> int stream \<Rightarrow> 'e \<Rightarrow> 'e SimpleObjectPool" where
  "new_pool cfg clk e =
     \<lparr>inuse = [], idle = NewPriorityQueue, locked = False,
      factory = cfg_Factory cfg,
      maxIdle = (if cfg_MaxIdle cfg = 0 then DefaultMaxIdle else cfg_MaxIdle cfg),
      minIdle = cfg_MinIdle cfg,
      capacity = (if cfg_Capacity cfg = 0 then DefaultCapacity else cfg_Capacity cfg),
      tokens = 0,
      tokenCap = nat (if cfg_Capacity cfg = 0 then DefaultCapacity else cfg_Capacity cfg),
      tickerWaiting = False, clock = clk, env = e\<rparr>"

definition NewSimpleObjectPool ::
    "'e PoolConfig \<Rightarrow> int stream \<Rightarrow> 'e \<Rightarrow> (error + 'e SimpleObjectPool) outcome" where
  "NewSimpleObjectPool cfg clk e =
     (if cfg_MaxIdle cfg < cfg_MinIdle cfg then Returns (Inl ErrInvalidArguments)
      else if cfg_Capacity cfg < cfg_MaxIdle cfg then Returns (Inl ErrInvalidArguments)
      else if cfg_Capacity cfg < 0 then Halts Panicked
      else
        (case go_bind (case cfg_Initializer cfg of None \<Rightarrow> go_return None | Some f \<Rightarrow> f)
           (\<lambda>err. case err of Some x \<Rightarrow> go_return (Some x) | None \<Rightarrow> preload)
           (new_pool cfg clk e) of
           (Returns None, pool) \<Rightarrow>
             (case queueKeys (idle pool) of None \<Rightarrow> Halts Panicked | Some keys \<Rightarrow> Returns (Inr pool))
         | (Returns (Some err), pool) \<Rightarrow> Returns (Inl err)
         | (Halts h, pool) \<Rightarrow> Halts h))"

definition getOneLocked :: "string \<Rightarrow> ('e SimpleObjectPool, poolItem option) go" where
  "getOneLocked resId =
     (if 0 < length resId then
        go_bind (idle_Rob resId) (\<lambda>item.
        case item of Some i \<Rightarrow> go_return (Some i) | None \<Rightarrow> idle_Pop)
      else idle_Pop)"

definition Acquire ::
    "Context \<Rightarrow> string \<Rightarrow> ('e SimpleObjectPool, error + NetworkResource) go" where
  "Acquire ctx resId =
     go_seq pool_Lock (
     go_bind (go_get idle_size) (\<lambda>n.
     if 0 < n then
       go_bind (getOneLocked resId) (\<lambda>item.
       go_bind (go_deref item) (\<lambda>item.
       go_seq (go_modify (\<lambda>s. s\<lparr>inuse :=
         gmap_put (inuse s) (GetResourceId (item_res item)) (item_res item)\<rparr>)) (
       go_seq pool_Unlock (
       go_return (Inr (item_res item))))))
     else
       go_bind (go_get (\<lambda>s. capacity s \<le> pool_size s)) (\<lambda>full.
       if full then go_seq pool_Unlock (go_return (Inl ErrNoAvailableResource))
       else
         go_seq pool_Unlock (
         go_bind (token_select ctx) (\<lambda>got.
         if got then
           go_bind (pool_Create '''') (\<lambda>r.
           case r of
             Inl err \<Rightarrow> go_seq token_send
               (go_return (Inl (Errorf ''error create from factory: '' (Some err))))
           | Inr res \<Rightarrow> go_seq (AddInuse res) (go_return (Inr res)))
         else go_return (Inl ErrContextDone))))))"

definition AcquireAny :: "Context \<Rightarrow> ('e SimpleObjectPool, error + NetworkResource) go" where
  "AcquireAny ctx = Acquire ctx ''''"

definition Stat :: "string \<Rightarrow> ('e SimpleObjectPool, error option) go" where
  "Stat resId =
     go_seq pool_Lock (
     go_bind (\<lambda>s. case gmap_get (inuse s) resId of
         Some r \<Rightarrow> (Returns None, s)
       | None \<Rightarrow>
           (case PriorityQueue_Find (idle s) resId of
              None \<Rightarrow> (Halts Panicked, s)
            | Some (Some item) \<Rightarrow> (Returns None, s)
            | Some None \<Rightarrow> (Returns (Some ErrNotFound), s)))
     (\<lambda>r. go_seq pool_Unlock (go_return r)))"

definition ReleaseWithReverse :: "string \<Rightarrow> int \<Rightarrow> ('e SimpleObjectPool, error option) go" where
  "ReleaseWithReverse resId reverse =
     go_seq pool_Lock (
     go_bind (go_get (\<lambda>s. gmap_get (inuse s) resId)) (\<lambda>found.
     case found of
       None \<Rightarrow> go_seq pool_Unlock (go_return (Some ErrInvalidState))
     | Some res \<Rightarrow>
         go_seq (go_modify (\<lambda>s. s\<lparr>inuse := gmap_delete (inuse s) resId\<rparr>)) (
         go_bind time_Now (\<lambda>now.
         go_seq (idle_Push \<lparr>item_res = res,
                            item_reverse = (if 0 < reverse then now + reverse else now)\<rparr>) (
         go_seq notify (
         go_seq pool_Unlock (
         go_return None)))))))"

definition Release :: "string \<Rightarrow> ('e SimpleObjectPool, error option) go" where
  "Release resId = ReleaseWithReverse resId 0"

definition GetInUse :: "'e SimpleObjectPool \<Rightarrow> (string, NetworkResource) gmap" where
  "GetInUse s = inuse s"

definition GetIdle :: "'e SimpleObjectPool \<Rightarrow> poolItem option list option" where
  "GetIdle s = PriorityQueue_List (idle s)"

end
