(* ===== verification/Pool_Runs.thy ===== *)
theory Pool_Runs
  imports Object_Pool
begin

section \<open>What the pool's methods do\<close>

text \<open>
  The pool's well-formedness, what it holds, and one lemma per method and branch that says
  what a run of it returns and leaves behind. The later theories reason with these lemmas
  only, never with the definitions of the methods.
\<close>

subsection \<open>What a pool holds\<close>

definition item_id :: "poolItem \<Rightarrow> string" where
  "item_id i = GetResourceId (item_res i)"

text \<open>The ids that the constructor logs are there whenever the queue is well formed.\<close>

lemma queueKeys_wf [simp]:
  assumes "queue_wf q"
  shows "queueKeys q = Some (Join_with '', '' (map item_id (queue_items q)))"
proof -
  have "slot_keys n (map Some xs @ ys) = Some (map item_id xs)" if "length xs = n" for n xs ys
    using that by (induction xs arbitrary: n) (auto simp: item_id_def)
  then have "slot_keys (qsize q) (slots q) = Some (map item_id (queue_items q))"
    using wf_holds [OF assms] length_queue_items [OF assms] unfolding holds_def by metis
  then show ?thesis by (simp add: queueKeys_def)
qed

definition idle_ids :: "'e SimpleObjectPool \<Rightarrow> string multiset" where
  "idle_ids s = image_mset item_id (mset (queue_items (idle s)))"

definition inuse_ids :: "'e SimpleObjectPool \<Rightarrow> string multiset" where
  "inuse_ids s = mset (map fst (inuse s))"

definition held :: "'e SimpleObjectPool \<Rightarrow> string multiset" where
  "held s = idle_ids s + inuse_ids s"

text \<open>
  The data structures are in order: a well-formed idle queue and a map from the resources'
  own ids.
\<close>

definition pool_wf :: "'e SimpleObjectPool \<Rightarrow> bool" where
  "pool_wf s \<longleftrightarrow> queue_wf (idle s) \<and> gmap_ok (inuse s) \<and>
     (\<forall>(k, r) \<in> set (inuse s). GetResourceId r = k)"

text \<open>No resource is held twice: not idle and in use at once, and not idle twice.\<close>

definition exclusive :: "'e SimpleObjectPool \<Rightarrow> bool" where
  "exclusive s \<longleftrightarrow> (\<forall>x. count (held s) x \<le> 1)"

text \<open>
  The comment on \<open>tokenCh\<close> in the code: the tokens are the capacity less what is held
  (between the statements of one method also less what is being disposed or created).
\<close>

definition balanced :: "'e SimpleObjectPool \<Rightarrow> bool" where
  "balanced s \<longleftrightarrow> int (tokens s) + pool_size s = capacity s \<and> int (tokenCap s) = capacity s"

lemma pool_wfD:
  "pool_wf s \<Longrightarrow> queue_wf (idle s)" "pool_wf s \<Longrightarrow> gmap_ok (inuse s)"
  "pool_wf s \<Longrightarrow> gmap_get (inuse s) k = Some r \<Longrightarrow> GetResourceId r = k"
  by (auto simp: pool_wf_def dest: gmap_get_Some_in)

lemma idle_size_eq: "queue_wf (idle s) \<Longrightarrow> idle_size s = int (size (idle_ids s))"
  by (simp add: idle_size_def PriorityQueue_Size_def idle_ids_def length_queue_items)

lemma pool_size_eq: "queue_wf (idle s) \<Longrightarrow> pool_size s = int (size (held s))"
  by (simp add: pool_size_def idle_size_eq held_def inuse_ids_def)

lemma pool_size_idle: "0 < idle_size s \<Longrightarrow> 0 < pool_size s"
  by (simp add: pool_size_def)

lemma idle_size_pos: "queue_wf (idle s) \<Longrightarrow> 0 < idle_size s \<longleftrightarrow> queue_items (idle s) \<noteq> []"
  by (simp add: idle_size_def PriorityQueue_Size_def length_queue_items [symmetric])

lemma idle_size_nonneg [simp]: "0 \<le> idle_size s"
  by (simp add: idle_size_def)

lemma pool_size_idle_le: "idle_size s \<le> pool_size s"
  by (simp add: pool_size_def)

lemma inuse_ids_put:
  "gmap_ok (inuse s) \<Longrightarrow> k \<notin> gmap_keys (inuse s) \<Longrightarrow>
   mset (map fst (gmap_put (inuse s) k r)) = add_mset k (inuse_ids s)"
  unfolding inuse_ids_def gmap_put_def gmap_keys_def
  by (simp add: update_keys)

lemma inuse_ids_delete:
  assumes "gmap_ok (inuse s)" "k \<in> gmap_keys (inuse s)"
  shows "add_mset k (mset (map fst (gmap_delete (inuse s) k))) = inuse_ids s"
proof -
  have "map fst (gmap_delete (inuse s) k) = removeAll k (map fst (inuse s))"
    by (simp add: gmap_delete_def delete_keys)
  also have "\<dots> = remove1 k (map fst (inuse s))"
    using assms(1) by (simp add: distinct_remove1_removeAll gmap_ok_def)
  finally show ?thesis
    using assms(2) by (simp add: inuse_ids_def gmap_keys_def)
qed

lemma set_inuse_ids: "set_mset (inuse_ids s) = gmap_keys (inuse s)"
  by (simp add: inuse_ids_def gmap_keys_def)

lemma set_idle_ids: "set_mset (idle_ids s) = item_id ` set (queue_items (idle s))"
  by (simp add: idle_ids_def)

lemma held_put_fresh:
  assumes "gmap_ok (inuse s)" "GetResourceId r \<notin># inuse_ids s"
  shows "held (s\<lparr>inuse := gmap_put (inuse s) (GetResourceId r) r\<rparr>) =
    add_mset (GetResourceId r) (held s)"
  using inuse_ids_put [OF assms(1), of "GetResourceId r" r] assms(2)
  by (simp add: held_def idle_ids_def inuse_ids_def set_inuse_ids [symmetric])

text \<open>Fields that \<open>held\<close> and the size do not look at.\<close>

lemma held_frame [simp]:
  "held (s\<lparr>locked := b\<rparr>) = held s" "held (s\<lparr>tokens := n\<rparr>) = held s"
  "held (s\<lparr>clock := c\<rparr>) = held s" "held (s\<lparr>env := e\<rparr>) = held s"
  "held (s\<lparr>tickerWaiting := b\<rparr>) = held s"
  by (simp_all add: held_def idle_ids_def inuse_ids_def)

lemma ids_frame [simp]:
  "idle_ids (s\<lparr>locked := b\<rparr>) = idle_ids s" "idle_ids (s\<lparr>tokens := n\<rparr>) = idle_ids s"
  "idle_ids (s\<lparr>clock := c\<rparr>) = idle_ids s" "idle_ids (s\<lparr>env := e\<rparr>) = idle_ids s"
  "idle_ids (s\<lparr>inuse := m\<rparr>) = idle_ids s" "inuse_ids (s\<lparr>idle := q\<rparr>) = inuse_ids s"
  "inuse_ids (s\<lparr>locked := b\<rparr>) = inuse_ids s" "inuse_ids (s\<lparr>tokens := n\<rparr>) = inuse_ids s"
  "inuse_ids (s\<lparr>clock := c\<rparr>) = inuse_ids s" "inuse_ids (s\<lparr>env := e\<rparr>) = inuse_ids s"
  by (simp_all add: idle_ids_def inuse_ids_def)

lemma pool_wf_frame [simp]:
  "pool_wf (s\<lparr>locked := b\<rparr>) = pool_wf s" "pool_wf (s\<lparr>tokens := n\<rparr>) = pool_wf s"
  "pool_wf (s\<lparr>clock := c\<rparr>) = pool_wf s" "pool_wf (s\<lparr>env := e\<rparr>) = pool_wf s"
  "pool_wf (s\<lparr>tickerWaiting := b\<rparr>) = pool_wf s"
  by (simp_all add: pool_wf_def)

lemma size_frame [simp]:
  "pool_size (s\<lparr>locked := b\<rparr>) = pool_size s" "pool_size (s\<lparr>tokens := n\<rparr>) = pool_size s"
  "pool_size (s\<lparr>clock := c\<rparr>) = pool_size s" "pool_size (s\<lparr>env := e\<rparr>) = pool_size s"
  "pool_size (s\<lparr>tickerWaiting := b\<rparr>) = pool_size s"
  "idle_size (s\<lparr>locked := b\<rparr>) = idle_size s" "idle_size (s\<lparr>tokens := n\<rparr>) = idle_size s"
  "idle_size (s\<lparr>clock := c\<rparr>) = idle_size s" "idle_size (s\<lparr>env := e\<rparr>) = idle_size s"
  "idle_size (s\<lparr>tickerWaiting := b\<rparr>) = idle_size s" "idle_size (s\<lparr>inuse := m\<rparr>) = idle_size s"
  by (simp_all add: pool_size_def idle_size_def)

lemma unlocked_same [simp]: "\<not> locked s \<Longrightarrow> s\<lparr>locked := False\<rparr> = s"
  by (cases s) simp

subsection \<open>The idle queue's statements\<close>

lemma idle_Push_run:
  assumes "queue_wf (idle s)"
  obtains q where "idle_Push item s = (Returns (), s\<lparr>idle := q\<rparr>)" "queue_wf q"
    "mset (queue_items q) = add_mset item (mset (queue_items (idle s)))"
    "due_ordered (idle s) \<longrightarrow> due_ordered q"
proof -
  obtain q where "PriorityQueue_Push (idle s) item = Some q" "queue_wf q"
    "mset (queue_items q) = add_mset item (mset (queue_items (idle s)))"
    "due_ordered (idle s) \<longrightarrow> due_ordered q"
    by (rule Push_facts [OF assms])
  then show ?thesis using that by (simp add: idle_Push_def)
qed

lemma idle_Pop_run:
  assumes "queue_wf (idle s)" "queue_items (idle s) \<noteq> []"
  obtains item q where "idle_Pop s = (Returns (Some item), s\<lparr>idle := q\<rparr>)" "queue_wf q"
    "item = queue_items (idle s) ! 0"
    "mset (queue_items (idle s)) = add_mset item (mset (queue_items q))"
    "due_ordered (idle s) \<longrightarrow> due_ordered q"
proof -
  obtain item q where "PriorityQueue_Pop (idle s) = Some (Some item, q)" "queue_wf q"
    "item = queue_items (idle s) ! 0"
    "mset (queue_items (idle s)) = add_mset item (mset (queue_items q))"
    "due_ordered (idle s) \<longrightarrow> due_ordered q"
    by (rule Pop_facts [OF assms])
  then show ?thesis using that by (simp add: idle_Pop_def)
qed

lemma idle_Rob_run:
  assumes "queue_wf (idle s)" "rid \<in> item_id ` set (queue_items (idle s))"
  obtains item q where "idle_Rob rid s = (Returns (Some item), s\<lparr>idle := q\<rparr>)" "queue_wf q"
    "item \<in> set (queue_items (idle s))" "item_id item = rid"
    "mset (queue_items (idle s)) = add_mset item (mset (queue_items q))"
proof -
  have "rid \<in> (\<lambda>x. GetResourceId (item_res x)) ` set (queue_items (idle s))"
    using assms(2) by (auto simp: item_id_def)
  then obtain item q where "PriorityQueue_Rob (idle s) rid = Some (Some item, q)" "queue_wf q"
    "item \<in> set (queue_items (idle s))" "GetResourceId (item_res item) = rid"
    "mset (queue_items (idle s)) = add_mset item (mset (queue_items q))"
    by (rule Rob_facts [OF assms(1)])
  then show ?thesis using that by (simp add: idle_Rob_def item_id_def)
qed

lemma idle_Rob_missing:
  assumes "queue_wf (idle s)" "rid \<notin> item_id ` set (queue_items (idle s))"
  shows "idle_Rob rid s = (Returns None, s)"
proof -
  have "rid \<notin> (\<lambda>x. GetResourceId (item_res x)) ` set (queue_items (idle s))"
    using assms(2) by (auto simp: item_id_def)
  from Rob_missing [OF assms(1) this] show ?thesis by (simp add: idle_Rob_def)
qed

text \<open>
  The pool's choice of an idle item: the one asked for if it is idle, else the head of the
  queue.
\<close>

lemma getOneLocked_run:
  assumes wf: "queue_wf (idle s)" and ne: "queue_items (idle s) \<noteq> []"
  obtains item q where "getOneLocked resId s = (Returns (Some item), s\<lparr>idle := q\<rparr>)" "queue_wf q"
    "item \<in> set (queue_items (idle s))"
    "mset (queue_items (idle s)) = add_mset item (mset (queue_items q))"
    "resId \<noteq> '''' \<and> resId \<in># idle_ids s \<longrightarrow> item_id item = resId"
    "resId = '''' \<or> resId \<notin># idle_ids s \<longrightarrow> item = queue_items (idle s) ! 0"
proof (cases "resId \<noteq> '''' \<and> resId \<in># idle_ids s")
  case True
  then have "resId \<in> item_id ` set (queue_items (idle s))" by (simp add: set_idle_ids)
  then obtain item q where "idle_Rob resId s = (Returns (Some item), s\<lparr>idle := q\<rparr>)" "queue_wf q"
    "item \<in> set (queue_items (idle s))" "item_id item = resId"
    "mset (queue_items (idle s)) = add_mset item (mset (queue_items q))"
    by (rule idle_Rob_run [OF wf])
  then show ?thesis using True that by (simp add: getOneLocked_def)
next
  case False
  obtain item q where pop: "idle_Pop s = (Returns (Some item), s\<lparr>idle := q\<rparr>)" "queue_wf q"
    "item = queue_items (idle s) ! 0"
    "mset (queue_items (idle s)) = add_mset item (mset (queue_items q))"
    using idle_Pop_run [OF wf ne] by blast
  have "getOneLocked resId s = (Returns (Some item), s\<lparr>idle := q\<rparr>)"
    using False pop(1) idle_Rob_missing [OF wf, of resId]
    by (cases "resId = ''''") (simp_all add: getOneLocked_def set_idle_ids)
  moreover have "item \<in> set (queue_items (idle s))" using pop(3) ne by simp
  ultimately show ?thesis using False pop that by blast
qed

subsection \<open>AddIdle, AddInuse and Release\<close>

lemma blocked_when_locked:
  assumes "locked s"
  shows "AddIdle r s = (Halts Blocked, s)" "AddInuse r s = (Halts Blocked, s)"
    "Acquire ctx rid s = (Halts Blocked, s)" "ReleaseWithReverse rid d s = (Halts Blocked, s)"
    "Stat rid s = (Halts Blocked, s)" "needAddition s = (Halts Blocked, s)"
  using assms
  by (simp_all add: AddIdle_def AddInuse_def Acquire_def ReleaseWithReverse_def Stat_def
      needAddition_def pool_Lock_def)

lemma AddIdle_run:
  assumes "\<not> locked s" "queue_wf (idle s)"
  obtains q where "AddIdle r s = (Returns (), s\<lparr>idle := q, clock := stl (clock s)\<rparr>)" "queue_wf q"
    "mset (queue_items q) =
       add_mset \<lparr>item_res = r, item_reverse = shd (clock s)\<rparr> (mset (queue_items (idle s)))"
    "due_ordered (idle s) \<longrightarrow> due_ordered q"
proof -
  let ?i = "\<lparr>item_res = r, item_reverse = shd (clock s)\<rparr>"
  obtain q where q: "PriorityQueue_Push (idle s) ?i = Some q" "queue_wf q"
    "mset (queue_items q) = add_mset ?i (mset (queue_items (idle s)))"
    "due_ordered (idle s) \<longrightarrow> due_ordered q"
    by (rule Push_facts [OF assms(2), of ?i])
  have "AddIdle r s = (Returns (), s\<lparr>idle := q, clock := stl (clock s)\<rparr>)"
    using q(1) assms(1)
    by (cases s) (simp add: AddIdle_def pool_Lock_def pool_Unlock_def time_Now_def idle_Push_def)
  with q show ?thesis using that by blast
qed

lemma AddInuse_run:
  "\<not> locked s \<Longrightarrow>
   AddInuse r s = (Returns (), s\<lparr>inuse := gmap_put (inuse s) (GetResourceId r) r\<rparr>)"
  by (cases s) (simp add: AddInuse_def pool_Lock_def pool_Unlock_def)

definition released_at :: "int \<Rightarrow> int \<Rightarrow> int" where
  "released_at now reverse = (if 0 < reverse then now + reverse else now)"

lemma Release_missing_run:
  "\<not> locked s \<Longrightarrow> rid \<notin># inuse_ids s \<Longrightarrow>
   ReleaseWithReverse rid d s = (Returns (Some ErrInvalidState), s)"
  using gmap_get_None_iff [of "inuse s" rid]
  by (simp add: ReleaseWithReverse_def pool_Lock_def pool_Unlock_def set_inuse_ids)

lemma Release_run:
  assumes free: "\<not> locked s" and wf: "pool_wf s" and found: "gmap_get (inuse s) rid = Some r"
  obtains q where
    "ReleaseWithReverse rid d s = (Returns None, s\<lparr>inuse := gmap_delete (inuse s) rid, idle := q,
       tickerWaiting := False, clock := stl (clock s)\<rparr>)" "queue_wf q"
    "mset (queue_items q) = add_mset
       \<lparr>item_res = r, item_reverse = released_at (shd (clock s)) d\<rparr> (mset (queue_items (idle s)))"
    "due_ordered (idle s) \<longrightarrow> due_ordered q"
proof -
  let ?i = "\<lparr>item_res = r, item_reverse = released_at (shd (clock s)) d\<rparr>"
  obtain q where q: "PriorityQueue_Push (idle s) ?i = Some q" "queue_wf q"
    "mset (queue_items q) = add_mset ?i (mset (queue_items (idle s)))"
    "due_ordered (idle s) \<longrightarrow> due_ordered q"
    by (rule Push_facts [OF pool_wfD(1) [OF wf], of ?i])
  have "ReleaseWithReverse rid d s = (Returns None, s\<lparr>inuse := gmap_delete (inuse s) rid, idle := q,
       tickerWaiting := False, clock := stl (clock s)\<rparr>)"
    using q(1) free found
    by (cases s) (simp add: ReleaseWithReverse_def pool_Lock_def pool_Unlock_def time_Now_def
        idle_Push_def notify_def released_at_def [symmetric])
  with q show ?thesis using that by blast
qed

subsection \<open>Acquire\<close>

lemma Acquire_idle_run:
  assumes free: "\<not> locked s" and wf: "pool_wf s" and ne: "idle_ids s \<noteq> {#}"
  obtains item q where
    "Acquire ctx resId s = (Returns (Inr (item_res item)),
       s\<lparr>idle := q, inuse := gmap_put (inuse s) (item_id item) (item_res item)\<rparr>)" "queue_wf q"
    "item \<in> set (queue_items (idle s))"
    "mset (queue_items (idle s)) = add_mset item (mset (queue_items q))"
    "resId \<noteq> '''' \<and> resId \<in># idle_ids s \<longrightarrow> item_id item = resId"
    "resId = '''' \<or> resId \<notin># idle_ids s \<longrightarrow> item = queue_items (idle s) ! 0"
proof -
  note qwf = pool_wfD(1) [OF wf]
  have items: "queue_items (idle s) \<noteq> []" using ne by (auto simp: idle_ids_def)
  let ?t = "s\<lparr>locked := True\<rparr>"
  have t: "queue_wf (idle ?t)" "queue_items (idle ?t) \<noteq> []" "idle_ids ?t = idle_ids s"
    using qwf items by (simp_all add: idle_ids_def)
  obtain item q where g: "getOneLocked resId ?t = (Returns (Some item), ?t\<lparr>idle := q\<rparr>)"
    and facts: "queue_wf q" "item \<in> set (queue_items (idle ?t))"
      "mset (queue_items (idle ?t)) = add_mset item (mset (queue_items q))"
      "resId \<noteq> '''' \<and> resId \<in># idle_ids ?t \<longrightarrow> item_id item = resId"
      "resId = '''' \<or> resId \<notin># idle_ids ?t \<longrightarrow> item = queue_items (idle ?t) ! 0"
    by (rule getOneLocked_run [OF t(1,2)])
  have "0 < idle_size s" using idle_size_pos [OF qwf] items by simp
  with g free have "Acquire ctx resId s = (Returns (Inr (item_res item)),
       s\<lparr>idle := q, inuse := gmap_put (inuse s) (item_id item) (item_res item)\<rparr>)"
    by (cases s) (simp add: Acquire_def pool_Lock_def pool_Unlock_def item_id_def idle_size_def)
  moreover have "idle ?t = idle s" by simp
  ultimately show ?thesis using facts that unfolding t(3) by metis
qed

lemma Acquire_full_run:
  assumes "\<not> locked s" "queue_wf (idle s)" "idle_ids s = {#}" "capacity s \<le> pool_size s"
  shows "Acquire ctx resId s = (Returns (Inl ErrNoAvailableResource), s)"
proof -
  have "idle_size s = 0" using assms(2,3) by (simp add: idle_size_eq)
  with assms(1,4) show ?thesis
    by (cases s) (simp add: Acquire_def pool_Lock_def pool_Unlock_def idle_size_def pool_size_def)
qed

text \<open>With nothing idle and room in the pool, everything depends on the \<open>select\<close>.\<close>

lemma Acquire_select_run:
  assumes "\<not> locked s" "queue_wf (idle s)" "idle_ids s = {#}" "pool_size s < capacity s"
  shows "Acquire ctx resId s =
    go_bind (token_select ctx) (\<lambda>got.
      if got then
        go_bind (pool_Create '''') (\<lambda>r. case r of
            Inl err \<Rightarrow> go_seq token_send
              (go_return (Inl (Errorf ''error create from factory: '' (Some err))))
          | Inr res \<Rightarrow> go_seq (AddInuse res) (go_return (Inr res)))
      else go_return (Inl ErrContextDone)) s"
proof -
  have "idle_size s = 0" using assms(2,3) by (simp add: idle_size_eq)
  with assms(1,4) show ?thesis
    by (cases s) (simp add: Acquire_def pool_Lock_def pool_Unlock_def idle_size_def pool_size_def)
qed

lemma Acquire_context_done_run:
  assumes "\<not> locked s" "queue_wf (idle s)" "idle_ids s = {#}" "pool_size s < capacity s"
    and "ctx_done ctx" "tokens s = 0 \<or> \<not> ctx_prefers_token ctx"
  shows "Acquire ctx resId s = (Returns (Inl ErrContextDone), s)"
  using assms(5,6) by (subst Acquire_select_run [OF assms(1-4)]) (auto simp: token_select_def)

lemma Acquire_waits_run:
  assumes "\<not> locked s" "queue_wf (idle s)" "idle_ids s = {#}" "pool_size s < capacity s"
    and "\<not> ctx_done ctx" "tokens s = 0"
  shows "Acquire ctx resId s = (Halts Blocked, s)"
  using assms(5,6) by (subst Acquire_select_run [OF assms(1-4)]) (auto simp: token_select_def)

lemma Acquire_create_run:
  assumes "\<not> locked s" "queue_wf (idle s)" "idle_ids s = {#}" "pool_size s < capacity s"
    and "0 < tokens s" "ctx_done ctx \<longrightarrow> ctx_prefers_token ctx"
    and create: "factory_Create (factory s) '''' (env s) = (Returns (Inr res), e)"
  shows "Acquire ctx resId s = (Returns (Inr res), s\<lparr>tokens := tokens s - 1, env := e,
     inuse := gmap_put (inuse s) (GetResourceId res) res\<rparr>)"
proof -
  have "pool_Create '''' (s\<lparr>tokens := tokens s - 1\<rparr>) =
      (Returns (Inr res), s\<lparr>tokens := tokens s - 1, env := e\<rparr>)"
    using create by (simp add: pool_Create_def)
  then show ?thesis
    using assms(1,5,6) AddInuse_run [of "s\<lparr>tokens := tokens s - 1, env := e\<rparr>" res]
    by (subst Acquire_select_run [OF assms(1-4)]) (simp add: token_select_def)
qed

lemma Acquire_create_error_run:
  assumes "\<not> locked s" "queue_wf (idle s)" "idle_ids s = {#}" "pool_size s < capacity s"
    and "0 < tokens s" "tokens s \<le> tokenCap s" "ctx_done ctx \<longrightarrow> ctx_prefers_token ctx"
    and create: "factory_Create (factory s) '''' (env s) = (Returns (Inl err), e)"
  shows "Acquire ctx resId s =
    (Returns (Inl (Errorf ''error create from factory: '' (Some err))), s\<lparr>env := e\<rparr>)"
proof -
  have "pool_Create '''' (s\<lparr>tokens := tokens s - 1\<rparr>) =
      (Returns (Inl err), s\<lparr>tokens := tokens s - 1, env := e\<rparr>)"
    using create by (simp add: pool_Create_def)
  moreover have "token_send (s\<lparr>tokens := tokens s - 1, env := e\<rparr>) = (Returns (), s\<lparr>env := e\<rparr>)"
    using assms(5,6) by (cases s) (simp add: token_send_def)
  ultimately show ?thesis
    using assms(5,7) by (subst Acquire_select_run [OF assms(1-4)]) (simp add: token_select_def)
qed

lemma Stat_run:
  assumes free: "\<not> locked s" and wf: "pool_wf s"
  shows "Stat rid s = (Returns (if rid \<in># held s then None else Some ErrNotFound), s)"
proof (cases "gmap_get (inuse s) rid")
  case None
  then have k: "rid \<notin># inuse_ids s" by (simp add: set_inuse_ids gmap_get_None_iff)
  obtain r where r: "PriorityQueue_Find (idle s) rid = Some r"
    "r = None \<longleftrightarrow> rid \<notin> (\<lambda>x. GetResourceId (item_res x)) ` set (queue_items (idle s))"
    using Find_facts [OF pool_wfD(1) [OF wf], of rid] by blast
  then show ?thesis
    using None k free
    by (cases r) (simp_all add: Stat_def pool_Lock_def pool_Unlock_def held_def set_idle_ids
        item_id_def [abs_def])
next
  case (Some r)
  then have "rid \<in># inuse_ids s" by (simp add: set_inuse_ids gmap_get_Some_key)
  then show ?thesis
    using Some free by (simp add: Stat_def pool_Lock_def pool_Unlock_def held_def)
qed

subsection \<open>One iteration of checkIdle\<close>

lemma checkIdle_done:
  "\<not> tooManyIdle s \<Longrightarrow> checkIdle (Suc fuel) s = (Returns (), s)"
  by simp

lemma checkIdle_locked:
  "tooManyIdle s \<Longrightarrow> locked s \<Longrightarrow> checkIdle (Suc fuel) s = (Halts Blocked, s)"
  by (simp add: pool_Lock_def)

lemma checkIdle_empty:
  assumes "tooManyIdle s" "\<not> locked s" "queue_wf (idle s)" "queue_items (idle s) = []"
  shows "checkIdle (Suc fuel) s = (Returns (), s\<lparr>locked := True\<rparr>)"
  using assms(1,2,4) Peek_facts [OF assms(3)] by (simp add: pool_Lock_def)

lemma checkIdle_early:
  assumes "tooManyIdle s" "\<not> locked s" "queue_wf (idle s)" "queue_items (idle s) \<noteq> []"
    and "shd (clock s) < item_reverse (queue_items (idle s) ! 0)"
  shows "checkIdle (Suc fuel) s = (Returns (), s\<lparr>locked := True, clock := stl (clock s)\<rparr>)"
  using assms(1,2,4,5) Peek_facts [OF assms(3)] by (simp add: pool_Lock_def time_Now_def)

lemma checkIdle_due:
  assumes too: "tooManyIdle s" and free: "\<not> locked s" and wf: "queue_wf (idle s)"
    and ne: "queue_items (idle s) \<noteq> []"
    and due: "item_reverse (queue_items (idle s) ! 0) \<le> shd (clock s)"
  obtains item q where
    "checkIdle (Suc fuel) s =
      go_bind (pool_Dispose (item_res item)) (\<lambda>err.
        go_seq (case err of None \<Rightarrow> token_send | Some e \<Rightarrow> AddIdle (item_res item))
          (checkIdle fuel)) (s\<lparr>clock := stl (clock s), idle := q\<rparr>)"
    "queue_wf q" "item = queue_items (idle s) ! 0"
    "mset (queue_items (idle s)) = add_mset item (mset (queue_items q))"
    "due_ordered (idle s) \<longrightarrow> due_ordered q"
proof -
  obtain item q where q: "PriorityQueue_Pop (idle s) = Some (Some item, q)" "queue_wf q"
    "item = queue_items (idle s) ! 0"
    "mset (queue_items (idle s)) = add_mset item (mset (queue_items q))"
    "due_ordered (idle s) \<longrightarrow> due_ordered q"
    by (rule Pop_facts [OF wf ne])
  have unlocked: "s\<lparr>locked := False, clock := stl (clock s), idle := q\<rparr> =
      s\<lparr>clock := stl (clock s), idle := q\<rparr>"
    using free by (cases s) simp
  have "checkIdle (Suc fuel) s =
      go_bind (pool_Dispose (item_res item)) (\<lambda>err.
        go_seq (case err of None \<Rightarrow> token_send | Some e \<Rightarrow> AddIdle (item_res item))
          (checkIdle fuel)) (s\<lparr>clock := stl (clock s), idle := q\<rparr>)"
    using too free ne due q(1) Peek_facts [OF wf] unlocked
    by (simp add: pool_Lock_def pool_Unlock_def time_Now_def idle_Pop_def del: go_bind_run go_seq_run)
       (simp add: pool_Lock_def pool_Unlock_def time_Now_def idle_Pop_def)
  with q show ?thesis using that by blast
qed

lemma needAddition_run:
  "\<not> locked s \<Longrightarrow> needAddition s =
     (Returns (min (minIdle s - idle_size s) (capacity s - pool_size s)), s)"
  by (cases s) (simp add: needAddition_def pool_Lock_def pool_Unlock_def Let_def sizeLocked_def
      pool_size_def idle_size_def min_def)

lemma take_tokens_run:
  "take_tokens n s = (Returns (min n (tokens s)), s\<lparr>tokens := tokens s - min n (tokens s)\<rparr>)"
proof (induction n arbitrary: s)
  case 0
  then show ?case by simp
next
  case (Suc n)
  show ?case
  proof (cases "tokens s")
    case 0
    then show ?thesis using Suc [of s] by (simp add: token_try_def)
  next
    case (Suc m)
    then show ?thesis
      using Suc.IH [of "s\<lparr>tokens := m\<rparr>"] by (simp add: token_try_def)
  qed
qed

end
