(* ===== verification/Pool_Laws.thy ===== *)
theory Pool_Laws
  imports Pool_Runs
begin

section \<open>The factory's contract and the pool's invariants\<close>

text \<open>
  What the pool needs to know of its factory is an interface: whatever happens in a call, the
  factory's own invariant survives, the ids it has ever issued only grow, and a resource that
  \<open>Create\<close> returns has an id never issued before. Under that contract every method of the pool
  keeps the pool safe, however its run ends: the data structures are in order, no resource is
  held twice, and tokens and resources together stay within the capacity.
\<close>

definition pool_safe ::
    "'e ObjectFactory \<Rightarrow> ('e \<Rightarrow> bool) \<Rightarrow> ('e \<Rightarrow> string set) \<Rightarrow> 'e SimpleObjectPool \<Rightarrow> bool" where
  "pool_safe fac finv known s \<longleftrightarrow>
     pool_wf s \<and> exclusive s \<and> factory s = fac \<and> finv (env s) \<and>
     set_mset (held s) \<subseteq> known (env s)"

text \<open>
  The capacity that is accounted for neither by a token nor by a resource: it is zero as long
  as the comment on \<open>tokenCh\<close> is true, and a reservation while a call is under way.
\<close>

definition slack :: "'e SimpleObjectPool \<Rightarrow> int" where
  "slack s = capacity s - int (tokens s) - pool_size s"

definition guarded ::
    "'e ObjectFactory \<Rightarrow> ('e \<Rightarrow> bool) \<Rightarrow> ('e \<Rightarrow> string set) \<Rightarrow> 'e SimpleObjectPool \<Rightarrow> bool" where
  "guarded fac finv known s \<longleftrightarrow>
     pool_safe fac finv known s \<and> 0 \<le> slack s \<and> int (tokenCap s) = capacity s"

text \<open>
  How a method that starts with \<open>a\<close> units reserved leaves the pool: safe and within its
  capacity however the run ends, and with the accounts exactly settled if it returns.
\<close>

definition settles :: "'e ObjectFactory \<Rightarrow> ('e \<Rightarrow> bool) \<Rightarrow> ('e \<Rightarrow> string set) \<Rightarrow> int \<Rightarrow>
    'e SimpleObjectPool \<Rightarrow> 'a outcome \<times> 'e SimpleObjectPool \<Rightarrow> bool" where
  "settles fac finv known a s result \<longleftrightarrow>
     guarded fac finv known (snd result) \<and> capacity (snd result) = capacity s \<and>
     (\<forall>r. fst result = Returns r \<longrightarrow> slack (snd result) = slack s - a)"

lemma balanced_slack: "balanced s \<longleftrightarrow> slack s = 0 \<and> int (tokenCap s) = capacity s"
  by (auto simp: balanced_def slack_def)

lemma guardedD:
  assumes "guarded fac finv known s"
  shows "pool_safe fac finv known s" "0 \<le> slack s" "int (tokenCap s) = capacity s"
    "int (tokens s) + pool_size s \<le> capacity s" "tokens s \<le> tokenCap s"
proof -
  show g: "pool_safe fac finv known s" "0 \<le> slack s" "int (tokenCap s) = capacity s"
    using assms by (simp_all add: guarded_def)
  show le: "int (tokens s) + pool_size s \<le> capacity s" using g(2) by (simp add: slack_def)
  have "0 \<le> pool_size s" by (simp add: pool_size_def)
  then show "tokens s \<le> tokenCap s" using le g(3) by linarith
qed

lemma slack_room:
  assumes "0 < slack s" "int (tokenCap s) = capacity s"
  shows "tokens s < tokenCap s"
proof -
  have "0 \<le> pool_size s" by (simp add: pool_size_def)
  then show ?thesis using assms unfolding slack_def by linarith
qed

lemma pool_safeD:
  assumes "pool_safe fac finv known s"
  shows "pool_wf s" "exclusive s" "factory s = fac" "finv (env s)"
    "set_mset (held s) \<subseteq> known (env s)" "queue_wf (idle s)" "gmap_ok (inuse s)"
  using assms by (auto simp: pool_safe_def pool_wf_def)

subsection \<open>Single changes of the pool\<close>

lemma safe_frame [simp]:
  "pool_safe fac finv known (s\<lparr>locked := b\<rparr>) = pool_safe fac finv known s"
  "pool_safe fac finv known (s\<lparr>tokens := n\<rparr>) = pool_safe fac finv known s"
  "pool_safe fac finv known (s\<lparr>clock := c\<rparr>) = pool_safe fac finv known s"
  "pool_safe fac finv known (s\<lparr>tickerWaiting := b\<rparr>) = pool_safe fac finv known s"
  by (simp_all add: pool_safe_def exclusive_def)

lemma slack_frame [simp]:
  "slack (s\<lparr>locked := b\<rparr>) = slack s" "slack (s\<lparr>clock := c\<rparr>) = slack s"
  "slack (s\<lparr>tickerWaiting := b\<rparr>) = slack s" "slack (s\<lparr>env := e\<rparr>) = slack s"
  "slack (s\<lparr>tokens := n\<rparr>) = slack s + int (tokens s) - int n"
  by (simp_all add: slack_def)

lemma guarded_frame [simp]:
  "guarded fac finv known (s\<lparr>locked := b\<rparr>) = guarded fac finv known s"
  "guarded fac finv known (s\<lparr>clock := c\<rparr>) = guarded fac finv known s"
  "guarded fac finv known (s\<lparr>tickerWaiting := b\<rparr>) = guarded fac finv known s"
  by (simp_all add: guarded_def)

lemma safe_env:
  "pool_safe fac finv known s \<Longrightarrow> finv e \<Longrightarrow> known (env s) \<subseteq> known e \<Longrightarrow>
   pool_safe fac finv known (s\<lparr>env := e\<rparr>)"
  by (auto simp: pool_safe_def exclusive_def)

lemma held_idle:
  "held (s\<lparr>idle := q\<rparr>) = image_mset item_id (mset (queue_items q)) + inuse_ids s"
  by (simp add: held_def idle_ids_def inuse_ids_def)

lemma idle_add:
  assumes "queue_wf q" "mset (queue_items q) = add_mset i (mset (queue_items (idle s)))"
  shows "held (s\<lparr>idle := q\<rparr>) = add_mset (item_id i) (held s)"
    and "queue_wf (idle s) \<Longrightarrow> pool_size (s\<lparr>idle := q\<rparr>) = pool_size s + 1"
    and "pool_wf s \<Longrightarrow> pool_wf (s\<lparr>idle := q\<rparr>)"
proof -
  show h: "held (s\<lparr>idle := q\<rparr>) = add_mset (item_id i) (held s)"
    unfolding held_idle assms(2) by (simp add: held_def idle_ids_def)
  show "pool_size (s\<lparr>idle := q\<rparr>) = pool_size s + 1" if "queue_wf (idle s)"
    using h assms(1) that by (simp add: pool_size_eq)
  show "pool_wf (s\<lparr>idle := q\<rparr>)" if "pool_wf s"
    using assms(1) that by (simp add: pool_wf_def)
qed

lemma idle_remove:
  assumes "queue_wf q" "mset (queue_items (idle s)) = add_mset i (mset (queue_items q))"
  shows "held s = add_mset (item_id i) (held (s\<lparr>idle := q\<rparr>))"
    and "queue_wf (idle s) \<Longrightarrow> pool_size s = pool_size (s\<lparr>idle := q\<rparr>) + 1"
    and "pool_wf s \<Longrightarrow> pool_wf (s\<lparr>idle := q\<rparr>)"
proof -
  show h: "held s = add_mset (item_id i) (held (s\<lparr>idle := q\<rparr>))"
    unfolding held_idle held_def idle_ids_def assms(2) by (simp add: inuse_ids_def)
  show "pool_size s = pool_size (s\<lparr>idle := q\<rparr>) + 1" if "queue_wf (idle s)"
    using h assms(1) that by (simp add: pool_size_eq)
  show "pool_wf (s\<lparr>idle := q\<rparr>)" if "pool_wf s"
    using assms(1) that by (simp add: pool_wf_def)
qed

lemma inuse_add:
  assumes "pool_wf s" "GetResourceId r \<notin># held s"
  shows "held (s\<lparr>inuse := gmap_put (inuse s) (GetResourceId r) r\<rparr>) = add_mset (GetResourceId r) (held s)"
    and "pool_size (s\<lparr>inuse := gmap_put (inuse s) (GetResourceId r) r\<rparr>) = pool_size s + 1"
    and "pool_wf (s\<lparr>inuse := gmap_put (inuse s) (GetResourceId r) r\<rparr>)"
proof -
  let ?t = "s\<lparr>inuse := gmap_put (inuse s) (GetResourceId r) r\<rparr>"
  show h: "held ?t = add_mset (GetResourceId r) (held s)"
    using held_put_fresh [of s r] assms by (auto simp: held_def pool_wf_def)
  show wf: "pool_wf ?t"
    using assms(1) set_gmap_put [of "inuse s" "GetResourceId r" r]
    by (auto simp: pool_wf_def)
  show "pool_size ?t = pool_size s + 1"
    using h assms(1) wf by (simp add: pool_size_eq pool_wfD(1))
qed

lemma inuse_remove:
  assumes "pool_wf s" "gmap_get (inuse s) k = Some r"
  shows "held s = add_mset k (held (s\<lparr>inuse := gmap_delete (inuse s) k\<rparr>))"
    and "pool_size s = pool_size (s\<lparr>inuse := gmap_delete (inuse s) k\<rparr>) + 1"
    and "pool_wf (s\<lparr>inuse := gmap_delete (inuse s) k\<rparr>)"
proof -
  let ?t = "s\<lparr>inuse := gmap_delete (inuse s) k\<rparr>"
  show h: "held s = add_mset k (held ?t)"
    using inuse_ids_delete [of s k] assms gmap_get_Some_key [OF assms(2)]
    by (simp add: held_def idle_ids_def inuse_ids_def pool_wf_def)
  show wf: "pool_wf ?t"
    using assms(1) set_gmap_delete [of "inuse s" k] by (auto simp: pool_wf_def)
  show "pool_size s = pool_size ?t + 1"
    using h assms(1) wf by (simp add: pool_size_eq pool_wfD(1))
qed

lemma exclusive_held: "held t = held s \<Longrightarrow> exclusive t = exclusive s"
  by (simp add: exclusive_def)

lemma exclusive_less: "held s = add_mset x (held t) \<Longrightarrow> exclusive s \<Longrightarrow> exclusive t \<and> x \<notin># held t"
proof -
  assume h: "held s = add_mset x (held t)" and "exclusive s"
  then have c: "count (add_mset x (held t)) y \<le> 1" for y by (simp add: exclusive_def)
  have "count (held t) y \<le> 1" for y using c [of y] by (cases "x = y") auto
  moreover have "count (held t) x = 0" using c [of x] by simp
  ultimately show ?thesis by (simp add: exclusive_def count_eq_zero_iff)
qed

lemma exclusive_more: "held t = add_mset x (held s) \<Longrightarrow> exclusive s \<Longrightarrow> x \<notin># held s \<Longrightarrow> exclusive t"
  by (simp add: exclusive_def not_in_iff)

text \<open>An idle item moving into use, and a resource in use becoming idle, leave what is held alone.\<close>

lemma move_to_inuse:
  assumes wf: "pool_wf s" and ex: "exclusive s" and q: "queue_wf q"
    and items: "mset (queue_items (idle s)) = add_mset i (mset (queue_items q))"
  shows "held (s\<lparr>idle := q, inuse := gmap_put (inuse s) (item_id i) (item_res i)\<rparr>) = held s"
    and "pool_size (s\<lparr>idle := q, inuse := gmap_put (inuse s) (item_id i) (item_res i)\<rparr>) = pool_size s"
    and "pool_wf (s\<lparr>idle := q, inuse := gmap_put (inuse s) (item_id i) (item_res i)\<rparr>)"
proof -
  let ?m = "s\<lparr>idle := q\<rparr>"
  note r = idle_remove [OF q items]
  have fresh: "GetResourceId (item_res i) \<notin># held ?m"
    using exclusive_less [OF r(1) ex] by (simp add: item_id_def)
  note a = inuse_add [OF r(3) [OF wf] fresh]
  show "held (s\<lparr>idle := q, inuse := gmap_put (inuse s) (item_id i) (item_res i)\<rparr>) = held s"
    using a(1) r(1) by (simp add: item_id_def)
  show "pool_size (s\<lparr>idle := q, inuse := gmap_put (inuse s) (item_id i) (item_res i)\<rparr>) = pool_size s"
    using a(2) r(2) [OF pool_wfD(1) [OF wf]] by (simp add: item_id_def)
  show "pool_wf (s\<lparr>idle := q, inuse := gmap_put (inuse s) (item_id i) (item_res i)\<rparr>)"
    using a(3) by (simp add: item_id_def)
qed

lemma move_to_idle:
  assumes wf: "pool_wf s" and found: "gmap_get (inuse s) k = Some r" and q: "queue_wf q"
    and items: "mset (queue_items q) = add_mset \<lparr>item_res = r, item_reverse = d\<rparr> (mset (queue_items (idle s)))"
  shows "held (s\<lparr>inuse := gmap_delete (inuse s) k, idle := q\<rparr>) = held s"
    and "pool_size (s\<lparr>inuse := gmap_delete (inuse s) k, idle := q\<rparr>) = pool_size s"
    and "pool_wf (s\<lparr>inuse := gmap_delete (inuse s) k, idle := q\<rparr>)"
proof -
  let ?m = "s\<lparr>inuse := gmap_delete (inuse s) k\<rparr>"
  note r = inuse_remove [OF wf found]
  have "mset (queue_items q) = add_mset \<lparr>item_res = r, item_reverse = d\<rparr> (mset (queue_items (idle ?m)))"
    using items by simp
  note a = idle_add [OF q this]
  have "GetResourceId r = k" using wf found by (rule pool_wfD(3))
  then show "held (s\<lparr>inuse := gmap_delete (inuse s) k, idle := q\<rparr>) = held s"
    using a(1) r(1) by (simp add: item_id_def)
  show "pool_size (s\<lparr>inuse := gmap_delete (inuse s) k, idle := q\<rparr>) = pool_size s"
    using a(2) r(2) pool_wfD(1) [OF wf] by simp
  show "pool_wf (s\<lparr>inuse := gmap_delete (inuse s) k, idle := q\<rparr>)"
    using a(3) r(3) by simp
qed

text \<open>An idle item is determined by its id.\<close>

lemma unique_idle:
  assumes one: "\<forall>x. count (held s) x \<le> 1"
    and i: "i \<in> set (queue_items (idle s))" and j: "j \<in> set (queue_items (idle s))"
    and same: "item_id i = item_id j"
  shows "i = j"
proof (rule ccontr)
  assume "i \<noteq> j"
  have "i \<in># mset (queue_items (idle s))" using i by simp
  then obtain A where A: "mset (queue_items (idle s)) = add_mset i A"
    by (blast dest: multi_member_split)
  have "j \<in># mset (queue_items (idle s))" using j by simp
  then have "j \<in># A" using \<open>i \<noteq> j\<close> unfolding A by simp
  then obtain B where "A = add_mset j B" using multi_member_split by metis
  with A have "2 \<le> count (idle_ids s) (item_id i)" using same by (simp add: idle_ids_def)
  moreover have "count (idle_ids s) (item_id i) \<le> 1"
    using spec [OF one, of "item_id i"] by (simp add: held_def)
  ultimately show False by simp
qed

subsection \<open>The contract\<close>

locale object_factory =
  fixes fac :: "'e ObjectFactory"
    and finv :: "'e \<Rightarrow> bool"
    and known :: "'e \<Rightarrow> string set"
  assumes create_law: "finv e \<Longrightarrow> factory_Create fac ip e = (out, e') \<Longrightarrow>
      finv e' \<and> known e \<subseteq> known e' \<and>
      (\<forall>r. out = Returns (Inr r) \<longrightarrow> GetResourceId r \<in> known e' \<and> GetResourceId r \<notin> known e)"
    and dispose_law: "finv e \<Longrightarrow> factory_Dispose fac r e = (out', e') \<Longrightarrow>
      finv e' \<and> known e \<subseteq> known e'"
begin

lemma create_keeps:
  assumes s: "pool_safe fac finv known s" and run: "pool_Create ip s = (out, t)"
  shows "pool_safe fac finv known t" "held t = held s" "pool_size t = pool_size s"
    "capacity t = capacity s" "tokens t = tokens s" "tokenCap t = tokenCap s" "locked t = locked s"
    and "out = Returns (Inr r) \<Longrightarrow> GetResourceId r \<notin># held t \<and> GetResourceId r \<in> known (env t)"
proof -
  obtain e where c: "factory_Create fac ip (env s) = (out, e)" and t: "t = s\<lparr>env := e\<rparr>"
    using run pool_safeD(3) [OF s] by (auto simp: pool_Create_def split: prod.splits)
  note law = create_law [OF pool_safeD(4) [OF s] c]
  show "pool_safe fac finv known t" unfolding t by (rule safe_env [OF s]) (use law in auto)
  show "held t = held s" "pool_size t = pool_size s" "capacity t = capacity s" "tokens t = tokens s"
    "tokenCap t = tokenCap s" "locked t = locked s"
    by (simp_all add: t)
  show "GetResourceId r \<notin># held t \<and> GetResourceId r \<in> known (env t)" if "out = Returns (Inr r)"
    using law that pool_safeD(5) [OF s] by (auto simp: t)
qed

lemma create_fresh:
  assumes s: "pool_safe fac finv known s" and run: "pool_Create ip s = (out, t)"
  shows "known (env s) \<subseteq> known (env t)"
    and "out = Returns (Inr r) \<Longrightarrow> GetResourceId r \<notin> known (env s)"
proof -
  obtain e where c: "factory_Create fac ip (env s) = (out, e)" and t: "t = s\<lparr>env := e\<rparr>"
    using run pool_safeD(3) [OF s] by (auto simp: pool_Create_def split: prod.splits)
  show "known (env s) \<subseteq> known (env t)"
    and "out = Returns (Inr r) \<Longrightarrow> GetResourceId r \<notin> known (env s)"
    using create_law [OF pool_safeD(4) [OF s] c] by (auto simp: t)
qed

lemma dispose_keeps:
  assumes s: "pool_safe fac finv known s" and run: "pool_Dispose res s = (out, t)"
  shows "pool_safe fac finv known t" "held t = held s" "pool_size t = pool_size s"
    "capacity t = capacity s" "tokens t = tokens s" "tokenCap t = tokenCap s" "locked t = locked s"
    "known (env s) \<subseteq> known (env t)"
proof -
  obtain e where c: "factory_Dispose fac res (env s) = (out, e)" and t: "t = s\<lparr>env := e\<rparr>"
    using run pool_safeD(3) [OF s] by (auto simp: pool_Dispose_def split: prod.splits)
  note law = dispose_law [OF pool_safeD(4) [OF s] c]
  show "pool_safe fac finv known t" unfolding t by (rule safe_env [OF s]) (use law in auto)
  show "held t = held s" "pool_size t = pool_size s" "capacity t = capacity s" "tokens t = tokens s"
    "tokenCap t = tokenCap s" "locked t = locked s" "known (env s) \<subseteq> known (env t)"
    using law by (auto simp: t)
qed

text \<open>
  A new or returned resource enters the pool: one unit of the reservation is used up. If the
  mutex is held, the call blocks and nothing has changed.
\<close>

lemma AddIdle_keeps:
  assumes s: "pool_safe fac finv known s" and fresh: "GetResourceId r \<notin># held s"
    and kn: "GetResourceId r \<in> known (env s)" and run: "AddIdle r s = (out, t)"
  shows "pool_safe fac finv known t" "capacity t = capacity s" "tokenCap t = tokenCap s"
    "tokens t = tokens s" "locked t = locked s"
    and "out = Returns () \<and> slack t = slack s - 1 \<and> \<not> locked s \<and>
         idle_size t = idle_size s + 1 \<and> inuse t = inuse s \<and>
         idle_ids t = add_mset (GetResourceId r) (idle_ids s)
       \<or> out = Halts Blocked \<and> t = s \<and> locked s"
proof -
  have "pool_safe fac finv known t \<and> capacity t = capacity s \<and> tokenCap t = tokenCap s \<and>
      tokens t = tokens s \<and> locked t = locked s \<and>
      (out = Returns () \<and> slack t = slack s - 1 \<and> \<not> locked s \<and>
         idle_size t = idle_size s + 1 \<and> inuse t = inuse s \<and>
         idle_ids t = add_mset (GetResourceId r) (idle_ids s)
       \<or> out = Halts Blocked \<and> t = s \<and> locked s)"
  proof (cases "locked s")
    case True
    then show ?thesis using s run blocked_when_locked(1) [OF True, of r] by simp
  next
    case False
    obtain q where q: "AddIdle r s = (Returns (), s\<lparr>idle := q, clock := stl (clock s)\<rparr>)" "queue_wf q"
      "mset (queue_items q) =
         add_mset \<lparr>item_res = r, item_reverse = shd (clock s)\<rparr> (mset (queue_items (idle s)))"
      by (rule AddIdle_run [OF False pool_safeD(6) [OF s]])
    note a = idle_add [OF q(2,3)]
    have "exclusive (s\<lparr>idle := q\<rparr>)"
      using exclusive_more [OF a(1)] pool_safeD(2) [OF s] fresh by (simp add: item_id_def)
    then have "pool_safe fac finv known (s\<lparr>idle := q\<rparr>)"
      using s a kn by (auto simp: pool_safe_def item_id_def)
    moreover have "slack (s\<lparr>idle := q\<rparr>) = slack s - 1"
      using a(2) [OF pool_safeD(6) [OF s]] by (simp add: slack_def)
    moreover have "idle_size (s\<lparr>idle := q\<rparr>) = idle_size s + 1"
      using a(2) [OF pool_safeD(6) [OF s]] by (simp add: pool_size_def)
    moreover have "idle_ids (s\<lparr>idle := q\<rparr>) = add_mset (GetResourceId r) (idle_ids s)"
      using q(3) by (simp add: idle_ids_def item_id_def)
    ultimately show ?thesis using q(1) run False by (simp add: idle_ids_def)
  qed
  then show "pool_safe fac finv known t" "capacity t = capacity s" "tokenCap t = tokenCap s"
    "tokens t = tokens s" "locked t = locked s"
    and "out = Returns () \<and> slack t = slack s - 1 \<and> \<not> locked s \<and>
         idle_size t = idle_size s + 1 \<and> inuse t = inuse s \<and>
         idle_ids t = add_mset (GetResourceId r) (idle_ids s)
       \<or> out = Halts Blocked \<and> t = s \<and> locked s"
    by blast+
qed

lemma AddInuse_keeps:
  assumes s: "pool_safe fac finv known s" and fresh: "GetResourceId r \<notin># held s"
    and kn: "GetResourceId r \<in> known (env s)" and run: "AddInuse r s = (out, t)"
  shows "pool_safe fac finv known t" "capacity t = capacity s" "tokenCap t = tokenCap s"
    "tokens t = tokens s" "locked t = locked s"
    and "out = Returns () \<and> slack t = slack s - 1 \<and> \<not> locked s \<or> out = Halts Blocked \<and> t = s"
proof -
  have "pool_safe fac finv known t \<and> capacity t = capacity s \<and> tokenCap t = tokenCap s \<and>
      tokens t = tokens s \<and> locked t = locked s \<and>
      (out = Returns () \<and> slack t = slack s - 1 \<and> \<not> locked s \<or> out = Halts Blocked \<and> t = s)"
  proof (cases "locked s")
    case True
    then show ?thesis using s run blocked_when_locked(2) [OF True, of r] by simp
  next
    case False
    note a = inuse_add [OF pool_safeD(1) [OF s] fresh]
    have "exclusive (s\<lparr>inuse := gmap_put (inuse s) (GetResourceId r) r\<rparr>)"
      using exclusive_more [OF a(1)] pool_safeD(2) [OF s] fresh by simp
    then have "pool_safe fac finv known (s\<lparr>inuse := gmap_put (inuse s) (GetResourceId r) r\<rparr>)"
      using s a kn by (auto simp: pool_safe_def)
    then show ?thesis using AddInuse_run [OF False, of r] a run False by (auto simp: slack_def)
  qed
  then show "pool_safe fac finv known t" "capacity t = capacity s" "tokenCap t = tokenCap s"
    "tokens t = tokens s" "locked t = locked s"
    and "out = Returns () \<and> slack t = slack s - 1 \<and> \<not> locked s \<or> out = Halts Blocked \<and> t = s"
    by blast+
qed

text \<open>A token given back.\<close>

lemma token_send_settles:
  assumes s: "pool_safe fac finv known s" and chan: "int (tokenCap s) = capacity s"
    and room: "0 < slack s"
  shows "token_send s = (Returns (), s\<lparr>tokens := tokens s + 1\<rparr>)"
    and "guarded fac finv known (s\<lparr>tokens := tokens s + 1\<rparr>)"
    and "slack (s\<lparr>tokens := tokens s + 1\<rparr>) = slack s - 1"
  using assms slack_room [OF room chan] by (simp_all add: token_send_def guarded_def)

end

end
