(* ===== verification/Pool_Account.thy ===== *)
theory Pool_Account
  imports Pool_Laws
begin

section \<open>Every method settles the pool's account\<close>

text \<open>
  For a factory that honours its contract, each method of the pool takes a safe pool within
  its capacity to a safe pool within its capacity however its run ends (a return, a panic, a
  block on the mutex or a channel), and when it returns the tokens and the resources have
  changed by exactly opposite amounts.
\<close>

lemma settlesI:
  assumes "guarded fac finv known t" "capacity t = capacity s"
    and "\<And>r. out = Returns r \<Longrightarrow> slack t = slack s - a"
  shows "settles fac finv known a s (out, t)"
  using assms by (auto simp: settles_def)

lemma settles_refl: "guarded fac finv known s \<Longrightarrow> settles fac finv known 0 s (out, s)"
  by (simp add: settles_def)

lemma settles_guarded: "settles fac finv known a s (out, t) \<Longrightarrow> guarded fac finv known t"
  by (simp add: settles_def)

lemma settles_then:
  assumes "settles fac finv known a s (Returns r, t)" "settles fac finv known b t res"
  shows "settles fac finv known (a + b) s res"
  using assms by (auto simp: settles_def)

lemma settles_from:
  assumes "settles fac finv known b t res" "capacity t = capacity s" "slack t = slack s - a"
  shows "settles fac finv known (a + b) s res"
  using assms by (auto simp: settles_def)

lemma guarded_slack: "pool_safe fac finv known s \<Longrightarrow> 0 \<le> slack s \<Longrightarrow>
    int (tokenCap s) = capacity s \<Longrightarrow> guarded fac finv known s"
  by (simp add: guarded_def)

context object_factory
begin

lemma Release_settles:
  assumes g: "guarded fac finv known s"
  shows "settles fac finv known 0 s (ReleaseWithReverse rid d s)"
proof (cases "locked s \<or> rid \<notin># inuse_ids s")
  case True
  then have "snd (ReleaseWithReverse rid d s) = s"
    using blocked_when_locked(4) [of s rid d] Release_missing_run [of s rid d]
    by (cases "locked s") auto
  then show ?thesis using g by (simp add: settles_def)
next
  case False
  note s = guardedD(1) [OF g]
  obtain r where r: "gmap_get (inuse s) rid = Some r"
    using False gmap_get_None_iff [of "inuse s" rid] by (auto simp: set_inuse_ids)
  have free: "\<not> locked s" using False by simp
  obtain q where q: "ReleaseWithReverse rid d s = (Returns None, s\<lparr>inuse := gmap_delete (inuse s) rid,
      idle := q, tickerWaiting := False, clock := stl (clock s)\<rparr>)" "queue_wf q"
    "mset (queue_items q) = add_mset
       \<lparr>item_res = r, item_reverse = released_at (shd (clock s)) d\<rparr> (mset (queue_items (idle s)))"
    by (rule Release_run [OF free pool_safeD(1) [OF s] r])
  note m = move_to_idle [OF pool_safeD(1) [OF s] r q(2,3)]
  let ?t = "s\<lparr>inuse := gmap_delete (inuse s) rid, idle := q\<rparr>"
  have "pool_safe fac finv known ?t"
    using s m exclusive_held [OF m(1)] by (simp add: pool_safe_def)
  moreover have "slack ?t = slack s" using m(2) by (simp add: slack_def)
  ultimately show ?thesis using q(1) g by (simp add: settles_def guarded_def)
qed

lemma Stat_settles:
  assumes g: "guarded fac finv known s"
  shows "settles fac finv known 0 s (Stat rid s)"
proof (cases "locked s")
  case True
  then show ?thesis using g blocked_when_locked(5) [OF True, of rid] by (simp add: settles_refl)
next
  case False
  then show ?thesis
    using g Stat_run [OF False pool_safeD(1) [OF guardedD(1) [OF g]], of rid]
    by (simp add: settles_refl)
qed

text \<open>The part of \<open>Acquire\<close> after the mutex was given up: a token, a creation, a bookkeeping.\<close>

lemma token_create_settles:
  assumes g: "guarded fac finv known s"
    and sel: "token_select ctx s = (Returns True, t)"
  shows "settles fac finv known 0 s
    (go_bind (pool_Create '''') (\<lambda>r. case r of
        Inl err \<Rightarrow> go_seq token_send
          (go_return (Inl (Errorf ''error create from factory: '' (Some err))))
      | Inr res \<Rightarrow> go_seq (AddInuse res) (go_return (Inr res))) t)"
proof -
  have t: "t = s\<lparr>tokens := tokens s - 1\<rparr>" and pos: "0 < tokens s"
    using sel by (auto simp: token_select_def split: if_splits)
  have ts: "pool_safe fac finv known t" using guardedD(1) [OF g] by (simp add: t)
  obtain o2 u where cr: "pool_Create '''' t = (o2, u)" by fastforce
  note c = create_keeps [OF ts cr]
  have su: "slack u = slack s + 1" "int (tokenCap u) = capacity u" "capacity u = capacity s"
    using c(2-6) pos guardedD(3) [OF g] by (simp_all add: t slack_def)
  have gu: "guarded fac finv known u"
    using c(1) su guardedD(2) [OF g] by (simp add: guarded_def)
  have room: "0 < slack u" using su(1) guardedD(2) [OF g] by simp
  show ?thesis
  proof (cases o2)
    case (Halts h)
    then show ?thesis using cr gu su by (simp add: settles_def)
  next
    case (Returns r)
    show ?thesis
    proof (cases r)
      case (Inl err)
      then show ?thesis
        using cr Returns token_send_settles [OF c(1) su(2) room] su by (simp add: settles_def)
    next
      case (Inr res)
      have res: "GetResourceId res \<notin># held u" "GetResourceId res \<in> known (env u)"
        using c(8) [of res] Returns Inr by auto
      obtain o3 v where add: "AddInuse res u = (o3, v)" by fastforce
      note a = AddInuse_keeps [OF c(1) res add]
      have "guarded fac finv known v"
        using a(1-4) a(6) su gu guardedD(2) [OF g] by (auto simp: guarded_def)
      then show ?thesis
        using cr Returns Inr add a(2,6) su by (auto simp: settles_def)
    qed
  qed
qed

lemma Acquire_settles:
  assumes g: "guarded fac finv known s"
  shows "settles fac finv known 0 s (Acquire ctx rid s)"
proof -
  note s = guardedD(1) [OF g]
  note wf = pool_safeD(1) [OF s] and qwf = pool_safeD(6) [OF s]
  consider "locked s" | "\<not> locked s" "idle_ids s \<noteq> {#}"
    | "\<not> locked s" "idle_ids s = {#}" "capacity s \<le> pool_size s"
    | "\<not> locked s" "idle_ids s = {#}" "pool_size s < capacity s" by linarith
  then show ?thesis
  proof cases
    case 1
    then show ?thesis using g blocked_when_locked(3) [OF 1] by (simp add: settles_refl)
  next
    case 2
    obtain item q where q: "Acquire ctx rid s = (Returns (Inr (item_res item)),
         s\<lparr>idle := q, inuse := gmap_put (inuse s) (item_id item) (item_res item)\<rparr>)" "queue_wf q"
      "mset (queue_items (idle s)) = add_mset item (mset (queue_items q))"
      by (rule Acquire_idle_run [OF 2(1) wf 2(2)])
    note m = move_to_inuse [OF wf pool_safeD(2) [OF s] q(2,3)]
    let ?t = "s\<lparr>idle := q, inuse := gmap_put (inuse s) (item_id item) (item_res item)\<rparr>"
    have "pool_safe fac finv known ?t"
      using s m exclusive_held [OF m(1)] by (simp add: pool_safe_def)
    moreover have "slack ?t = slack s" using m(2) by (simp add: slack_def)
    ultimately show ?thesis using g q(1) by (simp add: settles_def guarded_def)
  next
    case 3
    then show ?thesis using g Acquire_full_run [OF 3(1) qwf 3(2,3)] by (simp add: settles_refl)
  next
    case 4
    obtain o1 t where sel: "token_select ctx s = (o1, t)" by fastforce
    note run = Acquire_select_run [OF 4(1) qwf 4(2,3), of ctx rid]
    show ?thesis
    proof (cases "o1 = Returns True")
      case False
      then have t: "t = s" using sel by (auto simp: token_select_def split: if_splits)
      then have "snd (Acquire ctx rid s) = s"
        using False sel by (subst run) (auto split: outcome.splits)
      then show ?thesis using g by (simp add: settles_def)
    next
      case True
      then have "Acquire ctx rid s = go_bind (pool_Create '''') (\<lambda>r. case r of
            Inl err \<Rightarrow> go_seq token_send
              (go_return (Inl (Errorf ''error create from factory: '' (Some err))))
          | Inr res \<Rightarrow> go_seq (AddInuse res) (go_return (Inr res))) t"
        using sel by (subst run) simp
      then show ?thesis using token_create_settles [OF g] sel True by simp
    qed
  qed
qed

end

end
