(* ===== verification/Pool_Background.thy ===== *)
theory Pool_Background
  imports Pool_Account
begin

section \<open>The goroutine that trims and refills the pool\<close>

text \<open>
  \<open>checkIdle\<close>, \<open>checkInsufficient\<close>, \<open>preload\<close> and the constructor keep the pool's account, and
  how much fuel their loops need.
\<close>

lemma AddIdle_env: "\<not> locked s \<Longrightarrow> queue_wf (idle s) \<Longrightarrow> env (snd (AddIdle r s)) = env s"
  by (rule AddIdle_run [of s r]) auto

context object_factory
begin

text \<open>One iteration of \<open>checkIdle\<close> on a due item: after the disposal, the rest of the loop.\<close>

lemma dispose_round_settles:
  assumes g: "guarded fac finv known s" and free: "\<not> locked s"
    and q: "queue_wf q" "mset (queue_items (idle s)) = add_mset item (mset (queue_items q))"
    and IH: "\<And>u. guarded fac finv known u \<Longrightarrow> settles fac finv known 0 u (rest u)"
  shows "settles fac finv known 0 s
    (go_bind (pool_Dispose (item_res item)) (\<lambda>err.
      go_seq (case err of None \<Rightarrow> token_send | Some e \<Rightarrow> AddIdle (item_res item)) rest)
      (s\<lparr>clock := c, idle := q\<rparr>))"
proof -
  note s = guardedD(1) [OF g]
  let ?m = "s\<lparr>idle := q\<rparr>" and ?t = "s\<lparr>clock := c, idle := q\<rparr>"
  note r = idle_remove [OF q]
  have frame: "held ?t = held ?m" "slack ?t = slack ?m"
    by (simp_all add: held_def idle_ids_def inuse_ids_def slack_def pool_size_def idle_size_def)
  have ex: "exclusive ?m" "item_id item \<notin># held ?m"
    using exclusive_less [OF r(1) pool_safeD(2) [OF s]] by auto
  have mem: "item_id item \<in># held s" "set_mset (held ?m) \<subseteq> set_mset (held s)"
    using arg_cong [OF r(1), of set_mset] by auto
  have ts: "pool_safe fac finv known ?t"
  proof -
    have "pool_safe fac finv known ?m"
      using s ex(1) r(3) [OF pool_safeD(1) [OF s]] mem(2) by (auto simp: pool_safe_def)
    then show ?thesis
      by (simp add: pool_safe_def exclusive_def pool_wf_def held_def idle_ids_def inuse_ids_def)
  qed
  have tsl: "slack ?t = slack s + 1"
    using r(2) [OF pool_safeD(6) [OF s]] frame(2) by (simp add: slack_def)
  obtain o2 u where dis: "pool_Dispose (item_res item) ?t = (o2, u)" by fastforce
  note d = dispose_keeps [OF ts dis]
  have su: "slack u = slack s + 1" "int (tokenCap u) = capacity u" "capacity u = capacity s"
    using d(2-6) tsl guardedD(3) [OF g] by (simp_all add: slack_def)
  have gu: "guarded fac finv known u" using d(1) su guardedD(2) [OF g] by (simp add: guarded_def)
  have room: "0 < slack u" using su(1) guardedD(2) [OF g] by simp
  have base: "settles fac finv known 0 s (rest v)"
    if "guarded fac finv known v" "capacity v = capacity s" "slack v = slack s" for v
    using settles_from [OF IH [OF that(1)] that(2), of 0] that(3) by simp
  show ?thesis
  proof (cases o2)
    case (Halts h)
    then show ?thesis using dis gu su by (simp add: settles_def)
  next
    case (Returns err)
    show ?thesis
    proof (cases err)
      case None
      note ret = token_send_settles [OF d(1) su(2) room]
      have "settles fac finv known 0 s (rest (u\<lparr>tokens := tokens u + 1\<rparr>))"
        by (rule base [OF ret(2)]) (use ret(3) su in simp_all)
      then show ?thesis using dis Returns None ret(1) by simp
    next
      case (Some e)
      have kn: "GetResourceId (item_res item) \<in> known (env u)"
        using mem(1) pool_safeD(5) [OF s] d(8) by (auto simp: item_id_def)
      have fr: "GetResourceId (item_res item) \<notin># held u"
        using ex(2) frame(1) d(2) by (simp add: item_id_def)
      obtain o3 v where add: "AddIdle (item_res item) u = (o3, v)" by fastforce
      note a = AddIdle_keeps [OF d(1) fr kn add]
      have gv: "guarded fac finv known v"
        using a(1-4) a(6) su gu guardedD(2) [OF g] by (auto simp: guarded_def)
      show ?thesis
      proof (cases o3)
        case (Halts h)
        then show ?thesis using dis Returns Some add gv a(2) su by (simp add: settles_def)
      next
        case o3: (Returns x)
        have "settles fac finv known 0 s (rest v)"
          by (rule base [OF gv]) (use a(2,6) su o3 in auto)
        then show ?thesis using dis Returns Some add o3 by simp
      qed
    qed
  qed
qed

lemma checkIdle_settles:
  "guarded fac finv known s \<Longrightarrow> settles fac finv known 0 s (checkIdle fuel s)"
proof (induction fuel arbitrary: s)
  case 0
  then show ?case by (simp add: settles_def)
next
  case (Suc fuel)
  note g = Suc.prems and qwf = pool_safeD(6) [OF guardedD(1) [OF Suc.prems]]
  consider "\<not> tooManyIdle s" | "tooManyIdle s" "locked s"
    | "tooManyIdle s" "\<not> locked s" "queue_items (idle s) = []"
    | "tooManyIdle s" "\<not> locked s" "queue_items (idle s) \<noteq> []"
        "shd (clock s) < item_reverse (queue_items (idle s) ! 0)"
    | "tooManyIdle s" "\<not> locked s" "queue_items (idle s) \<noteq> []"
        "item_reverse (queue_items (idle s) ! 0) \<le> shd (clock s)"
    by (meson not_less)
  then show ?case
  proof cases
    case 1
    then show ?thesis using g by (simp add: checkIdle_done settles_refl del: checkIdle.simps)
  next
    case 2
    then show ?thesis using g by (simp add: checkIdle_locked settles_refl del: checkIdle.simps)
  next
    case 3
    then show ?thesis using g checkIdle_empty [OF 3(1,2) qwf 3(3)]
      by (simp add: settles_def del: checkIdle.simps)
  next
    case 4
    then show ?thesis using g checkIdle_early [OF 4(1,2) qwf 4(3,4)]
      by (simp add: settles_def del: checkIdle.simps)
  next
    case 5
    obtain item q where run: "checkIdle (Suc fuel) s =
      go_bind (pool_Dispose (item_res item)) (\<lambda>err.
        go_seq (case err of None \<Rightarrow> token_send | Some e \<Rightarrow> AddIdle (item_res item))
          (checkIdle fuel)) (s\<lparr>clock := stl (clock s), idle := q\<rparr>)"
      "queue_wf q" "mset (queue_items (idle s)) = add_mset item (mset (queue_items q))"
      by (rule checkIdle_due [OF 5(1,2) qwf 5(3,4)])
    show ?thesis unfolding run(1) by (rule dispose_round_settles [OF g 5(2) run(2,3) Suc.IH])
  qed
qed

text \<open>Creating resources for tokens already taken: the reservation is used up to the last.\<close>

lemma create_for_tokens_settles:
  "pool_safe fac finv known s \<Longrightarrow> int n \<le> slack s \<Longrightarrow> int (tokenCap s) = capacity s \<Longrightarrow>
   settles fac finv known (int n) s (create_for_tokens n s)"
proof (induction n arbitrary: s)
  case 0
  then show ?case by (simp add: settles_def guarded_def)
next
  case (Suc n)
  note s = Suc.prems(1)
  obtain o2 u where cr: "pool_Create '''' s = (o2, u)" by fastforce
  note c = create_keeps [OF s cr]
  have su: "slack u = slack s" "int (tokenCap u) = capacity u" "capacity u = capacity s"
    using c(2-6) Suc.prems(3) by (simp_all add: slack_def)
  have room: "0 < slack u" using su(1) Suc.prems(2) by simp
  have base: "settles fac finv known (int (Suc n)) s (create_for_tokens n v)"
    if "pool_safe fac finv known v" "int (tokenCap v) = capacity v"
      "capacity v = capacity s" "slack v = slack s - 1" for v
  proof -
    have "settles fac finv known (int n) v (create_for_tokens n v)"
      using Suc.IH that Suc.prems(2) by simp
    from settles_from [OF this that(3), of 1] that(4) show ?thesis by (simp add: add.commute)
  qed
  have halted: "settles fac finv known (int (Suc n)) s (Halts h, v)"
    if "pool_safe fac finv known v" "int (tokenCap v) = capacity v"
      "capacity v = capacity s" "0 \<le> slack v" for v and h :: halt
    using that by (simp add: settles_def guarded_def)
  show ?case
  proof (cases o2)
    case (Halts h)
    then show ?thesis using cr halted [OF c(1)] su room by simp
  next
    case (Returns r)
    show ?thesis
    proof (cases r)
      case (Inl e)
      note ret = token_send_settles [OF c(1) su(2) room]
      have "settles fac finv known (int (Suc n)) s (create_for_tokens n (u\<lparr>tokens := tokens u + 1\<rparr>))"
        by (rule base) (use c(1) su in simp_all)
      then show ?thesis using cr Returns Inl ret(1)
        by (auto simp: settles_def split: prod.splits outcome.splits)
    next
      case (Inr res)
      have res: "GetResourceId res \<notin># held u" "GetResourceId res \<in> known (env u)"
        using c(8) [of res] Returns Inr by auto
      obtain o3 v where add: "AddIdle res u = (o3, v)" by fastforce
      note a = AddIdle_keeps [OF c(1) res add]
      show ?thesis
      proof (cases o3)
        case (Halts h)
        then show ?thesis using cr Returns Inr add a(6) halted [OF c(1)] su room by simp
      next
        case o3: (Returns x)
        have "settles fac finv known (int (Suc n)) s (create_for_tokens n v)"
          by (rule base [OF a(1)]) (use a(2-6) su o3 in auto)
        then show ?thesis using cr Returns Inr add o3 by simp
      qed
    qed
  qed
qed

lemma checkInsufficient_settles:
  assumes g: "guarded fac finv known s"
  shows "settles fac finv known 0 s (checkInsufficient s)"
proof (cases "locked s")
  case True
  then show ?thesis
    using g blocked_when_locked(6) [OF True] by (simp add: checkInsufficient_def settles_refl)
next
  case False
  define a where "a = min (minIdle s - idle_size s) (capacity s - pool_size s)"
  define k where "k = min (nat a) (tokens s)"
  let ?t = "s\<lparr>tokens := tokens s - k\<rparr>"
  have k: "k \<le> tokens s" by (simp add: k_def)
  have sl: "slack ?t = slack s + int k" using k by (simp add: of_nat_diff)
  have sub: "settles fac finv known (int k) ?t (create_for_tokens k ?t)"
    using create_for_tokens_settles [of ?t k] guardedD [OF g] sl by simp
  obtain o2 u where cr: "create_for_tokens k ?t = (o2, u)" by fastforce
  have su: "guarded fac finv known u" "capacity u = capacity s"
    "\<And>r. o2 = Returns r \<Longrightarrow> slack u = slack s"
    using sub sl unfolding cr by (auto simp: settles_def)
  have run: "checkInsufficient s = (if a \<le> 0 then (Returns (), s)
      else if k = 0 then (Returns (), ?t)
      else case o2 of Returns l \<Rightarrow> (Returns (), if 0 < l then u\<lparr>tickerWaiting := False\<rparr> else u)
        | Halts h \<Rightarrow> (Halts h, u))"
    unfolding checkInsufficient_def go_bind_run needAddition_run [OF False] a_def [symmetric]
    using cr by (simp add: take_tokens_run k_def [symmetric] notify_def split: outcome.splits)
  show ?thesis
  proof (cases "a \<le> 0 \<or> k = 0")
    case True
    then show ?thesis using run g by (auto simp: settles_def)
  next
    case False
    then show ?thesis using run su by (cases o2) (simp_all add: settles_def)
  qed
qed

text \<open>
  A factory whose disposals succeed: \<open>checkIdle\<close> needs one more round than there are idle
  resources, and ends either with few enough of them, or with the mutex still held.
\<close>

lemma checkIdle_ends:
  assumes ok: "\<And>e r. finv e \<Longrightarrow> good e \<Longrightarrow>
      \<exists>e'. factory_Dispose fac r e = (Returns None, e') \<and> good e'"
  shows "guarded fac finv known s \<Longrightarrow> \<not> locked s \<Longrightarrow> idle_size s < int fuel \<Longrightarrow> good (env s) \<Longrightarrow>
    \<exists>t. checkIdle fuel s = (Returns (), t) \<and> (locked t \<longleftrightarrow> tooManyIdle t) \<and> inuse t = inuse s"
proof (induction fuel arbitrary: s)
  case 0
  then show ?case by (simp add: idle_size_def)
next
  case (Suc fuel)
  note g = Suc.prems(1) and free = Suc.prems(2)
  note s = guardedD(1) [OF g]
  note qwf = pool_safeD(6) [OF s]
  have same: "tooManyIdle (u\<lparr>locked := b\<rparr>) = tooManyIdle u" "tooManyIdle (u\<lparr>clock := c\<rparr>) = tooManyIdle u"
    for u :: "'e SimpleObjectPool" and b c
    by (simp_all add: tooManyIdle_def)
  consider "\<not> tooManyIdle s"
    | "tooManyIdle s" "queue_items (idle s) = []"
    | "tooManyIdle s" "queue_items (idle s) \<noteq> []"
        "shd (clock s) < item_reverse (queue_items (idle s) ! 0)"
    | "tooManyIdle s" "queue_items (idle s) \<noteq> []"
        "item_reverse (queue_items (idle s) ! 0) \<le> shd (clock s)"
    by (meson not_less)
  then show ?case
  proof cases
    case 1
    then show ?thesis using free by (simp add: checkIdle_done del: checkIdle.simps)
  next
    case 2
    show ?thesis using checkIdle_empty [OF 2(1) free qwf 2(2)] 2(1)
      by (simp add: same del: checkIdle.simps)
  next
    case 3
    show ?thesis using checkIdle_early [OF 3(1) free qwf 3(2,3)] 3(1)
      by (simp add: same del: checkIdle.simps)
  next
    case 4
    obtain item q where run: "checkIdle (Suc fuel) s =
      go_bind (pool_Dispose (item_res item)) (\<lambda>err.
        go_seq (case err of None \<Rightarrow> token_send | Some e \<Rightarrow> AddIdle (item_res item))
          (checkIdle fuel)) (s\<lparr>clock := stl (clock s), idle := q\<rparr>)"
      "queue_wf q" "mset (queue_items (idle s)) = add_mset item (mset (queue_items q))"
      by (rule checkIdle_due [OF 4(1) free qwf 4(2,3)])
    let ?t = "s\<lparr>clock := stl (clock s), idle := q\<rparr>"
    obtain e where e: "factory_Dispose fac (item_res item) (env s) = (Returns None, e)" "good e"
      using ok [OF pool_safeD(4) [OF s] Suc.prems(4)] by blast
    let ?u = "?t\<lparr>env := e\<rparr>"
    have dis: "pool_Dispose (item_res item) ?t = (Returns None, ?u)"
      using e(1) pool_safeD(3) [OF s] by (simp add: pool_Dispose_def)
    have "settles fac finv known 0 s
        (go_bind (pool_Dispose (item_res item)) (\<lambda>err.
          go_seq (case err of None \<Rightarrow> token_send | Some e \<Rightarrow> AddIdle (item_res item)) (go_return ()))
          ?t)"
      by (rule dispose_round_settles [OF g free run(2,3)]) (simp add: settles_refl)
    then have sent: "guarded fac finv known (snd (token_send ?u))"
      using dis by (auto simp: settles_def split: prod.splits outcome.splits)
    have sz: "idle_size ?u = idle_size s - 1" "pool_size ?u = pool_size s - 1"
      using idle_remove(2) [OF run(2,3) qwf] by (simp_all add: pool_size_def idle_size_def)
    have "0 \<le> pool_size ?u" by (simp add: pool_size_def)
    then have "int (tokens s) < int (tokenCap s)"
      using sz(2) guardedD(3,4) [OF g] by linarith
    then have send: "token_send ?u = (Returns (), ?u\<lparr>tokens := tokens s + 1\<rparr>)"
      by (simp add: token_send_def)
    have "\<exists>t. checkIdle fuel (?u\<lparr>tokens := tokens s + 1\<rparr>) = (Returns (), t) \<and>
        (locked t \<longleftrightarrow> tooManyIdle t) \<and> inuse t = inuse (?u\<lparr>tokens := tokens s + 1\<rparr>)"
      by (rule Suc.IH) (use sent send sz(1) Suc.prems(3) free e(2) in simp_all)
    then show ?thesis using run(1) dis send by simp
  qed
qed

subsection \<open>preload and the constructor\<close>

lemma preload_loop_ends:
  "pool_safe fac finv known s \<Longrightarrow> \<not> locked s \<Longrightarrow> preload_loop fuel s = (out, t) \<Longrightarrow>
   minIdle s - idle_size s < int fuel \<Longrightarrow> 0 < fuel \<Longrightarrow>
   pool_safe fac finv known t \<and> \<not> locked t \<and> capacity t = capacity s \<and> tokenCap t = tokenCap s \<and>
   tokens t = tokens s \<and> minIdle t = minIdle s \<and> pool_size t \<le> max (pool_size s) (capacity s) \<and>
   inuse t = inuse s \<and> (\<forall>x. x \<in># idle_ids t \<longrightarrow> x \<in># idle_ids s \<or> x \<notin> known (env s)) \<and>
   (out = Returns None \<longrightarrow> minIdle t \<le> idle_size t \<or> capacity t \<le> pool_size t) \<and>
   (\<forall>h. out = Halts h \<longrightarrow> (\<exists>e. finv e \<and> fst (factory_Create fac '''' e) = Halts h))"
proof (induction fuel arbitrary: s)
  case 0
  then show ?case by simp
next
  case (Suc fuel)
  note s = Suc.prems(1)
  show ?case
  proof (cases "minIdle s \<le> idle_size s \<or> capacity s \<le> pool_size s")
    case True
    then show ?thesis using Suc.prems by auto
  next
    case False
    obtain o2 u where cr: "pool_Create '''' s = (o2, u)" by fastforce
    note c = create_keeps [OF s cr]
    obtain e where e: "factory_Create fac '''' (env s) = (o2, e)" "u = s\<lparr>env := e\<rparr>"
      using cr pool_safeD(3) [OF s] by (auto simp: pool_Create_def split: prod.splits)
    show ?thesis
    proof (cases o2)
      case (Halts h)
      have "out = Halts h" "t = u" using Suc.prems(3) False cr Halts by auto
      moreover have "fst (factory_Create fac '''' (env s)) = Halts h" using e(1) Halts by simp
      ultimately show ?thesis
        using Suc.prems(2) c(1-7) e(2) pool_safeD(4) [OF s] by auto
    next
      case (Returns r)
      show ?thesis
      proof (cases r)
        case (Inl err)
        then show ?thesis using Suc.prems(2,3) Returns False cr c(1-7) e(2) by auto
      next
        case (Inr res)
        have res: "GetResourceId res \<notin># held u" "GetResourceId res \<in> known (env u)"
          using c(8) [of res] Returns Inr by auto
        obtain o3 v where add: "AddIdle res u = (o3, v)" by fastforce
        note a = AddIdle_keeps [OF c(1) res add]
        have v: "o3 = Returns ()" "\<not> locked v" "idle_size v = idle_size s + 1"
          "pool_size v = pool_size s + 1"
          using a(5,6) c(7) e(2) Suc.prems(2) by (auto simp: pool_size_def)
        have "\<not> locked u" using c(7) Suc.prems(2) by simp
        then obtain q where "AddIdle res u = (Returns (), u\<lparr>idle := q, clock := stl (clock u)\<rparr>)"
          by (rule AddIdle_run [OF _ pool_safeD(6) [OF c(1)]])
        then have mi: "minIdle v = minIdle s" using add e(2) by auto
        have run: "preload_loop fuel v = (out, t)"
          using Suc.prems(3) False cr Returns Inr add v(1) by simp
        have "minIdle v - idle_size v < int fuel" using Suc.prems(4) v(3) mi by simp
        moreover from this have "0 < fuel" using False v(3) mi by simp
        moreover have "env v = env u" using AddIdle_env [OF \<open>\<not> locked u\<close> pool_safeD(6) [OF c(1)], of res] add
          by simp
        moreover have "idle_ids v = add_mset (GetResourceId res) (idle_ids s)" "inuse v = inuse s"
          using a(6) v(1) e(2) by auto
        moreover have "GetResourceId res \<notin> known (env s)" "known (env s) \<subseteq> known (env u)"
          using create_fresh [OF s cr] Returns Inr by auto
        ultimately show ?thesis using Suc.IH [OF a(1) v(2) run]
          using v(4) a(2-4) c(4-6) mi False by auto
      qed
    qed
  qed
qed

lemma send_tokens_run:
  "tokens s + n \<le> tokenCap s \<Longrightarrow>
   send_tokens n s = (Returns (), s\<lparr>tokens := tokens s + n\<rparr>)"
proof (induction n arbitrary: s)
  case 0
  then show ?case by simp
next
  case (Suc n)
  then show ?case using Suc.IH [of "s\<lparr>tokens := tokens s + 1\<rparr>"] by (simp add: token_send_def)
qed

lemma preload_ends:
  assumes s: "pool_safe fac finv known s" and free: "\<not> locked s" and none: "tokens s = 0"
    and chan: "int (tokenCap s) = capacity s" and run: "preload s = (out, t)"
  shows "pool_safe fac finv known t" "\<not> locked t" "capacity t = capacity s"
    and "out = Returns None \<Longrightarrow> minIdle s \<le> idle_size t \<or> capacity s \<le> pool_size t"
    and "out = Returns None \<Longrightarrow> pool_size s \<le> capacity s \<Longrightarrow> balanced t"
    and "out = Halts h \<Longrightarrow> \<exists>e. finv e \<and> fst (factory_Create fac '''' e) = Halts h"
    and "inuse t = inuse s" "x \<in># idle_ids t \<Longrightarrow> x \<in># idle_ids s \<or> x \<notin> known (env s)"
proof -
  obtain o1 u where loop: "preload_loop (Suc (nat (minIdle s))) s = (o1, u)" by fastforce
  have "minIdle s - idle_size s < int (Suc (nat (minIdle s)))"
    using idle_size_nonneg [of s] by linarith
  note p = preload_loop_ends [OF s free loop this zero_less_Suc]
  have fits: "tokens u + nat (capacity u - pool_size u) \<le> tokenCap u"
    using p none chan by (simp add: pool_size_def idle_size_def)
  note send = send_tokens_run [OF fits]
  have t: "t = (if o1 = Returns None then u\<lparr>tokens := tokens u + nat (capacity u - pool_size u)\<rparr> else u)"
    and out: "out = o1"
    using run loop send by (auto simp: preload_def split: outcome.splits option.splits)
  show "pool_safe fac finv known t" "\<not> locked t" "capacity t = capacity s"
    using p t by (auto split: if_splits)
  show "minIdle s \<le> idle_size t \<or> capacity s \<le> pool_size t" if "out = Returns None"
    using p t that out by auto
  show "balanced t" if "out = Returns None" "pool_size s \<le> capacity s"
    using p t that out none chan by (auto simp: balanced_def)
  show "\<exists>e. finv e \<and> fst (factory_Create fac '''' e) = Halts h" if "out = Halts h"
    using p that out by simp
  show "inuse t = inuse s" using p t by (simp split: if_splits)
  show "x \<in># idle_ids s \<or> x \<notin> known (env s)" if "x \<in># idle_ids t"
    using p t that by (auto split: if_splits)
qed

text \<open>
  The empty pool is safe, and what an initializer has to achieve for the constructor: a safe
  pool with the mutex free and no tokens in the channel yet.
\<close>

lemma new_pool_safe:
  assumes "cfg_Factory cfg = fac" "finv e"
  shows "pool_safe fac finv known (new_pool cfg clk e)"
  using assms NewPriorityQueue_wf
  by (simp add: pool_safe_def new_pool_def pool_wf_def exclusive_def held_def idle_ids_def
      inuse_ids_def)

lemma constructor_ends:
  assumes init: "(case cfg_Initializer cfg of None \<Rightarrow> go_return None | Some f \<Rightarrow> f)
      (new_pool cfg clk e) = (Returns None, s)"
    and s: "pool_safe fac finv known s" "\<not> locked s" "tokens s = 0" "tokenCap s = nat (capacity s)"
      "capacity s = capacity (new_pool cfg clk e)" "minIdle s = cfg_MinIdle cfg"
    and new: "NewSimpleObjectPool cfg clk e = Returns (Inr p)"
  shows "pool_safe fac finv known p" "\<not> locked p" "capacity p = capacity s"
    and "cfg_MinIdle cfg \<le> idle_size p \<or> capacity p \<le> pool_size p"
    and "pool_size s \<le> capacity s \<Longrightarrow> balanced p"
    and "inuse p = inuse s" "x \<in># idle_ids p \<Longrightarrow> x \<in># idle_ids s \<or> x \<notin> known (env s)"
proof -
  have pos: "0 \<le> cfg_Capacity cfg" and pre: "preload s = (Returns None, p)"
    using new init by (auto simp: NewSimpleObjectPool_def split: if_splits prod.splits
        outcome.splits option.splits)
  have chan: "int (tokenCap s) = capacity s"
    using s(4,5) pos by (auto simp: new_pool_def DefaultCapacity_def)
  note e = preload_ends [OF s(1-3) chan pre]
  show "pool_safe fac finv known p" "\<not> locked p" "capacity p = capacity s" by (rule e(1-3))+
  show "cfg_MinIdle cfg \<le> idle_size p \<or> capacity p \<le> pool_size p"
    using e(3,4) s(6) by simp
  show "balanced p" if "pool_size s \<le> capacity s" using e(5) that by simp
  show "inuse p = inuse s" by (rule e(7))
  show "x \<in># idle_ids s \<or> x \<notin> known (env s)" if "x \<in># idle_ids p" using e(8) that .
qed

end

end
