(* ===== verification/Pool_Calls.thy ===== *)
theory Pool_Calls
  imports Pool_Background
begin

section \<open>Sequences of calls\<close>

text \<open>
  Clients and the background goroutine use the pool in any order. A run of several calls goes
  on, whatever became of a call, from the state the call left; its result says whether all
  calls returned.
\<close>

datatype pool_call =
    CallAcquire Context string
  | CallRelease string int
  | CallStat string
  | CallTick nat

definition returned :: "'a outcome \<Rightarrow> bool" where
  "returned out = (case out of Returns _ \<Rightarrow> True | Halts _ \<Rightarrow> False)"

fun run_call :: "pool_call \<Rightarrow> 'e SimpleObjectPool \<Rightarrow> bool \<times> 'e SimpleObjectPool" where
  "run_call (CallAcquire ctx rid) s = (case Acquire ctx rid s of (out, t) \<Rightarrow> (returned out, t))"
| "run_call (CallRelease rid d) s = (case ReleaseWithReverse rid d s of (out, t) \<Rightarrow> (returned out, t))"
| "run_call (CallStat rid) s = (case Stat rid s of (out, t) \<Rightarrow> (returned out, t))"
| "run_call (CallTick fuel) s = (case ticker_round fuel s of (out, t) \<Rightarrow> (returned out, t))"

fun run_calls :: "pool_call list \<Rightarrow> 'e SimpleObjectPool \<Rightarrow> bool \<times> 'e SimpleObjectPool" where
  "run_calls [] s = (True, s)"
| "run_calls (c # cs) s =
     (case run_call c s of (b, t) \<Rightarrow> (case run_calls cs t of (b', u) \<Rightarrow> (b \<and> b', u)))"

lemma settles_returned:
  "settles fac finv known 0 s res \<Longrightarrow> (case res of (out, t) \<Rightarrow> (returned out, t)) = (b, t) \<Longrightarrow>
   guarded fac finv known t \<and> capacity t = capacity s \<and> (b \<longrightarrow> slack t = slack s)"
  by (cases res) (auto simp: settles_def returned_def split: outcome.splits)

context object_factory
begin

lemma ticker_round_settles:
  assumes g: "guarded fac finv known s"
  shows "settles fac finv known 0 s (ticker_round fuel s)"
proof -
  let ?s = "s\<lparr>tickerWaiting := False\<rparr>"
  obtain o1 t where ci: "checkIdle fuel ?s = (o1, t)" by fastforce
  have s1: "settles fac finv known 0 s (o1, t)"
    using checkIdle_settles [of ?s fuel] g unfolding ci by (simp add: settles_def)
  show ?thesis
  proof (cases o1)
    case (Halts h)
    then show ?thesis using s1 ci by (simp add: ticker_round_def settles_def)
  next
    case (Returns x)
    obtain o2 u where cs: "checkInsufficient t = (o2, u)" by fastforce
    have s2: "settles fac finv known 0 s (o2, u)"
      using settles_then [OF s1 [unfolded Returns] checkInsufficient_settles [OF settles_guarded [OF s1]]]
      unfolding cs by simp
    then show ?thesis
      using ci cs Returns by (cases o2) (simp_all add: ticker_round_def settles_def)
  qed
qed

lemma run_call_settles:
  assumes "guarded fac finv known s" "run_call c s = (b, t)"
  shows "guarded fac finv known t" "capacity t = capacity s" "b \<Longrightarrow> slack t = slack s"
proof -
  have "guarded fac finv known t \<and> capacity t = capacity s \<and> (b \<longrightarrow> slack t = slack s)"
  proof (cases c)
    case (CallAcquire ctx rid)
    then show ?thesis using settles_returned [OF Acquire_settles [OF assms(1)]] assms(2) by simp
  next
    case (CallRelease rid d)
    then show ?thesis using settles_returned [OF Release_settles [OF assms(1)]] assms(2) by simp
  next
    case (CallStat rid)
    then show ?thesis using settles_returned [OF Stat_settles [OF assms(1)]] assms(2) by simp
  next
    case (CallTick fuel)
    then show ?thesis using settles_returned [OF ticker_round_settles [OF assms(1)]] assms(2) by simp
  qed
  then show "guarded fac finv known t" "capacity t = capacity s" "b \<Longrightarrow> slack t = slack s"
    by blast+
qed

lemma run_calls_settles:
  "guarded fac finv known s \<Longrightarrow> run_calls cs s = (b, t) \<Longrightarrow>
   guarded fac finv known t \<and> capacity t = capacity s \<and> (b \<longrightarrow> slack t = slack s)"
proof (induction cs arbitrary: s b)
  case Nil
  then show ?case by simp
next
  case (Cons c cs)
  obtain b1 u b2 where r: "run_call c s = (b1, u)" "run_calls cs u = (b2, t)" "b = (b1 \<and> b2)"
    using Cons.prems(2) by (auto split: prod.splits)
  note s1 = run_call_settles [OF Cons.prems(1) r(1)]
  show ?case using Cons.IH [OF s1(1) r(2)] s1 r(3) by simp
qed

subsection \<open>Refilling\<close>

lemma create_for_tokens_all:
  assumes ok: "\<And>e. finv e \<Longrightarrow> good e \<Longrightarrow>
      \<exists>r e'. factory_Create fac '''' e = (Returns (Inr r), e') \<and> good e'"
  shows "pool_safe fac finv known s \<Longrightarrow> \<not> locked s \<Longrightarrow> good (env s) \<Longrightarrow>
    \<exists>t. create_for_tokens n s = (Returns 0, t) \<and> \<not> locked t \<and> inuse t = inuse s \<and>
      idle_size t = idle_size s + int n"
proof (induction n arbitrary: s)
  case 0
  then show ?case by simp
next
  case (Suc n)
  obtain r e' where e: "factory_Create fac '''' (env s) = (Returns (Inr r), e')" "good e'"
    using ok [OF pool_safeD(4) [OF Suc.prems(1)] Suc.prems(3)] by blast
  let ?u = "s\<lparr>env := e'\<rparr>"
  have cr: "pool_Create '''' s = (Returns (Inr r), ?u)"
    using e(1) pool_safeD(3) [OF Suc.prems(1)] by (simp add: pool_Create_def)
  note c = create_keeps [OF Suc.prems(1) cr]
  obtain o3 v where add: "AddIdle r ?u = (o3, v)" by fastforce
  note a = AddIdle_keeps [OF c(1) _ _ add]
  have fresh: "GetResourceId r \<notin># held ?u" "GetResourceId r \<in> known (env ?u)"
    using c(8) [of r] by auto
  have v: "o3 = Returns ()" "idle_size v = idle_size s + 1" "inuse v = inuse s" "\<not> locked v"
    using a(5,6) [OF fresh] Suc.prems(2) by auto
  have "env v = e'"
    using AddIdle_env [of "?u" r] Suc.prems(2) pool_safeD(6) [OF c(1)] add by simp
  then have gv: "good (env v)" using e(2) by simp
  obtain t where "create_for_tokens n v = (Returns 0, t)" "\<not> locked t" "inuse t = inuse v"
    "idle_size t = idle_size v + int n"
    using Suc.IH [OF a(1) [OF fresh] v(4) gv] by blast
  then show ?case using cr add v by simp
qed

lemma checkInsufficient_refills:
  assumes ok: "\<And>e. finv e \<Longrightarrow> good e \<Longrightarrow>
      \<exists>r e'. factory_Create fac '''' e = (Returns (Inr r), e') \<and> good e'"
    and g: "guarded fac finv known s" and b: "balanced s" and free: "\<not> locked s"
    and good: "good (env s)"
  shows "\<exists>t. checkInsufficient s = (Returns (), t) \<and> \<not> locked t \<and> inuse t = inuse s \<and>
     idle_size t = max (idle_size s) (min (minIdle s) (idle_size s + (capacity s - pool_size s)))"
proof -
  define a where "a = min (minIdle s - idle_size s) (capacity s - pool_size s)"
  have k: "min (nat a) (tokens s) = nat a"
    using b by (auto simp: a_def balanced_def)
  let ?t = "s\<lparr>tokens := tokens s - nat a\<rparr>"
  have pre: "pool_safe fac finv known ?t" "\<not> locked ?t" "good (env ?t)"
    using guardedD(1) [OF g] free good by simp_all
  obtain t where t:
    "create_for_tokens (nat a) ?t = (Returns 0, t)" "\<not> locked t" "inuse t = inuse s"
    "idle_size t = idle_size s + int (nat a)"
    using create_for_tokens_all [of good, OF ok pre, of "nat a"] by auto
  have "checkInsufficient s = (Returns (), if a \<le> 0 then s else t)"
    unfolding checkInsufficient_def go_bind_run needAddition_run [OF free] a_def [symmetric]
    using t(1) by (simp add: take_tokens_run k)
  then show ?thesis using t(2-4) free by (auto simp: a_def)
qed

end

end
