(* ===== verification/Pool_Concurrency.thy ===== *)
theory Pool_Concurrency
  imports Pool_Calls
begin

section \<open>Goroutines on the pool (pkg/pool/pool.go)\<close>

text \<open>
  The methods of the pool as goroutines that interleave. A goroutine is at a point of its
  method; one step takes it to the next point. What happens between locking and unlocking the
  mutex is one step, which needs the mutex to be free: nobody else can see or change what the
  mutex protects in between. Outside of it, each channel operation, each call of the factory and
  each unprotected read is a step of its own, so that other goroutines can move in between.

  A goroutine carries the resource it has in its hands, and at every point it is known for how
  many tokens it still has to account. \<open>Stuck\<close> is a goroutine that will not move again: it is
  in a call of the factory that does not return, or it has panicked.
\<close>

subsection \<open>The parts of the methods between two points\<close>

datatype acquired = Found NetworkResource | PoolFull | Room

definition acquire_section :: "string \<Rightarrow> ('e SimpleObjectPool, acquired) go" where
  "acquire_section resId =
     go_seq pool_Lock (
     go_bind (go_get idle_size) (\<lambda>n.
     if 0 < n then
       go_bind (getOneLocked resId) (\<lambda>item.
       go_bind (go_deref item) (\<lambda>item.
       go_seq (go_modify (\<lambda>s. s\<lparr>inuse :=
         gmap_put (inuse s) (GetResourceId (item_res item)) (item_res item)\<rparr>)) (
       go_seq pool_Unlock (
       go_return (Found (item_res item))))))
     else
       go_bind (go_get (\<lambda>s. capacity s \<le> pool_size s)) (\<lambda>full.
       go_seq pool_Unlock (go_return (if full then PoolFull else Room)))))"

text \<open>The locked part of a round of \<open>checkIdle\<close>; both \<open>break\<close>s leave with the mutex held.\<close>

definition check_idle_section :: "('e SimpleObjectPool, NetworkResource option) go" where
  "check_idle_section =
     go_seq pool_Lock (
     go_bind (\<lambda>s. go_deref (PriorityQueue_Peek (idle s)) s) (\<lambda>peeked.
     case peeked of
       None \<Rightarrow> go_return None
     | Some item \<Rightarrow>
         go_bind time_Now (\<lambda>now.
         if now < item_reverse item then go_return None
         else
           go_bind idle_Pop (\<lambda>popped.
           go_seq pool_Unlock (
           go_bind (go_deref popped) (\<lambda>item. go_return (Some (item_res item))))))))"

subsection \<open>Goroutines\<close>

text \<open>
  The flag of the background goroutine's points tells the first \<open>checkIdle\<close>, before the loop of
  \<open>startCheckIdleTicker\<close>, from the later ones, which \<open>checkInsufficient\<close> follows. The numbers of
  \<open>TakeTokens\<close> are the rounds to go and the tokens taken, those of the creation loop the
  resources to create and the failures so far.
\<close>

datatype goroutine =
    AcquireEnter Context string
  | AcquireSelect Context
  | AcquireCreate
  | AcquireReturnToken error
  | AcquireAdd NetworkResource
  | AcquireDone "error + NetworkResource"
  | ReleaseEnter string int
  | ReleaseDone "error option"
  | StatEnter string
  | StatDone "error option"
  | CheckIdle bool
  | CheckIdleLock bool
  | CheckIdleDispose bool NetworkResource
  | CheckIdleSend bool
  | CheckIdleAddBack bool NetworkResource
  | Insufficient
  | TakeTokens nat nat
  | CreateFor nat nat
  | CreateReturnToken nat nat
  | CreateAdd NetworkResource nat nat
  | ToSelect
  | AtSelect
  | Stuck nat

text \<open>
  A step of the pool's own code: if it blocks the goroutine does not move. A call of the
  factory: if it blocks, what it did to the outside world has happened nevertheless.
\<close>

definition attempt ::
    "('e SimpleObjectPool, 'a) go \<Rightarrow> ('a \<Rightarrow> goroutine) \<Rightarrow> nat \<Rightarrow> 'e SimpleObjectPool \<Rightarrow>
     (goroutine \<times> 'e SimpleObjectPool) option" where
  "attempt m next hands s =
     (case m s of
        (Returns a, t) \<Rightarrow> Some (next a, t)
      | (Halts Blocked, t) \<Rightarrow> None
      | (Halts _, t) \<Rightarrow> Some (Stuck hands, t))"

definition call_out ::
    "('e SimpleObjectPool, 'a) go \<Rightarrow> ('a \<Rightarrow> goroutine) \<Rightarrow> nat \<Rightarrow> 'e SimpleObjectPool \<Rightarrow>
     (goroutine \<times> 'e SimpleObjectPool) option" where
  "call_out m next hands s =
     (case m s of (Returns a, t) \<Rightarrow> Some (next a, t) | (Halts _, t) \<Rightarrow> Some (Stuck hands, t))"

definition after_checkIdle :: "bool \<Rightarrow> goroutine" where
  "after_checkIdle first = (if first then ToSelect else Insufficient)"

fun gstep :: "goroutine \<Rightarrow> 'e SimpleObjectPool \<Rightarrow> (goroutine \<times> 'e SimpleObjectPool) option" where
  "gstep (AcquireEnter ctx resId) = attempt (acquire_section resId) (\<lambda>r. case r of
       Found res \<Rightarrow> AcquireDone (Inr res)
     | PoolFull \<Rightarrow> AcquireDone (Inl ErrNoAvailableResource)
     | Room \<Rightarrow> AcquireSelect ctx) 0"
| "gstep (AcquireSelect ctx) = attempt (token_select ctx) (\<lambda>got.
     if got then AcquireCreate else AcquireDone (Inl ErrContextDone)) 0"
| "gstep AcquireCreate = call_out (pool_Create '''') (\<lambda>r. case r of
     Inl err \<Rightarrow> AcquireReturnToken err | Inr res \<Rightarrow> AcquireAdd res) 1"
| "gstep (AcquireReturnToken err) = attempt token_send (\<lambda>_.
     AcquireDone (Inl (Errorf ''error create from factory: '' (Some err)))) 1"
| "gstep (AcquireAdd res) = attempt (AddInuse res) (\<lambda>_. AcquireDone (Inr res)) 1"
| "gstep (ReleaseEnter resId reverse) = attempt (ReleaseWithReverse resId reverse) ReleaseDone 0"
| "gstep (StatEnter resId) = attempt (Stat resId) StatDone 0"
| "gstep (CheckIdle first) = (\<lambda>s.
     Some (if tooManyIdle s then CheckIdleLock first else after_checkIdle first, s))"
| "gstep (CheckIdleLock first) = attempt check_idle_section (\<lambda>r. case r of
     None \<Rightarrow> after_checkIdle first | Some res \<Rightarrow> CheckIdleDispose first res) 0"
| "gstep (CheckIdleDispose first res) = call_out (pool_Dispose res) (\<lambda>err. case err of
     None \<Rightarrow> CheckIdleSend first | Some _ \<Rightarrow> CheckIdleAddBack first res) 1"
| "gstep (CheckIdleSend first) = attempt token_send (\<lambda>_. CheckIdle first) 1"
| "gstep (CheckIdleAddBack first res) = attempt (AddIdle res) (\<lambda>_. CheckIdle first) 1"
| "gstep Insufficient = attempt needAddition (\<lambda>addition.
     if addition \<le> 0 then ToSelect else TakeTokens (nat addition) 0) 0"
| "gstep (TakeTokens 0 k) = (\<lambda>s. Some (if k = 0 then ToSelect else CreateFor k 0, s))"
| "gstep (TakeTokens (Suc n) k) = attempt token_try (\<lambda>got. TakeTokens n (if got then Suc k else k)) k"
| "gstep (CreateFor 0 left) = (\<lambda>s. Some (ToSelect, if 0 < left then snd (notify s) else s))"
| "gstep (CreateFor (Suc n) left) = call_out (pool_Create '''') (\<lambda>r. case r of
     Inl err \<Rightarrow> CreateReturnToken n left | Inr res \<Rightarrow> CreateAdd res n left) (Suc n)"
| "gstep (CreateReturnToken n left) = attempt token_send (\<lambda>_. CreateFor n (Suc left)) (Suc n)"
| "gstep (CreateAdd res n left) = attempt (AddIdle res) (\<lambda>_. CreateFor n left) (Suc n)"
| "gstep ToSelect = (\<lambda>s. Some (AtSelect, s\<lparr>tickerWaiting := True\<rparr>))"
| "gstep AtSelect = (\<lambda>s. Some (CheckIdle False, s\<lparr>tickerWaiting := False\<rparr>))"
| "gstep (AcquireDone r) = (\<lambda>s. None)"
| "gstep (ReleaseDone r) = (\<lambda>s. None)"
| "gstep (StatDone r) = (\<lambda>s. None)"
| "gstep (Stuck n) = (\<lambda>s. None)"

text \<open>
  What can happen: some goroutine moves, a client calls a method, or the context of a waiting
  call is done, in which case either ready branch of its \<open>select\<close> may be picked.
\<close>

type_synonym 'e goroutines = "'e SimpleObjectPool \<times> goroutine list"

datatype action = Run nat | Call goroutine | Cancel nat bool

fun is_call :: "goroutine \<Rightarrow> bool" where
  "is_call (AcquireEnter ctx resId) = True"
| "is_call (ReleaseEnter resId reverse) = True"
| "is_call (StatEnter resId) = True"
| "is_call _ = False"

fun act :: "action \<Rightarrow> 'e goroutines \<Rightarrow> 'e goroutines option" where
  "act (Run i) (s, gs) =
     (if i < length gs
      then (case gstep (gs ! i) s of None \<Rightarrow> None | Some (g, t) \<Rightarrow> Some (t, gs[i := g]))
      else None)"
| "act (Call g) (s, gs) = (if is_call g then Some (s, gs @ [g]) else None)"
| "act (Cancel i b) (s, gs) =
     (if i < length gs
      then (case gs ! i of
              AcquireSelect ctx \<Rightarrow>
                Some (s, gs[i := AcquireSelect (ctx\<lparr>ctx_done := True, ctx_prefers_token := b\<rparr>)])
            | _ \<Rightarrow> None)
      else None)"

fun acts :: "action list \<Rightarrow> 'e goroutines \<Rightarrow> 'e goroutines option" where
  "acts [] c = Some c"
| "acts (a # as) c = (case act a c of None \<Rightarrow> None | Some c' \<Rightarrow> acts as c')"

inductive pool_step :: "'e goroutines \<Rightarrow> 'e goroutines \<Rightarrow> bool" where
  run: "i < length gs \<Longrightarrow> gstep (gs ! i) s = Some (g, t) \<Longrightarrow> pool_step (s, gs) (t, gs[i := g])"
| call: "is_call g \<Longrightarrow> pool_step (s, gs) (s, gs @ [g])"
| cancel: "i < length gs \<Longrightarrow> gs ! i = AcquireSelect ctx \<Longrightarrow>
     pool_step (s, gs) (s, gs[i := AcquireSelect (ctx\<lparr>ctx_done := True, ctx_prefers_token := b\<rparr>)])"

inductive_cases pool_stepE: "pool_step (s, gs) (t, hs)"

text \<open>The executable actions are steps.\<close>

lemma act_step: "act a (s, gs) = Some (t, hs) \<Longrightarrow> pool_step (s, gs) (t, hs)"
proof (cases a)
  case (Run i)
  assume "act a (s, gs) = Some (t, hs)"
  with Run show ?thesis by (auto split: if_splits option.splits intro: pool_step.run)
next
  case (Call g)
  assume "act a (s, gs) = Some (t, hs)"
  with Call show ?thesis by (auto split: if_splits intro: pool_step.call)
next
  case (Cancel i b)
  assume "act a (s, gs) = Some (t, hs)"
  with Cancel show ?thesis by (auto split: if_splits goroutine.splits intro: pool_step.cancel)
qed

lemma acts_steps: "acts as (s, gs) = Some (t, hs) \<Longrightarrow> pool_step\<^sup>*\<^sup>* (s, gs) (t, hs)"
proof (induction "as" arbitrary: s gs)
  case Nil
  then show ?case by simp
next
  case (Cons a "as")
  then obtain u ks where "act a (s, gs) = Some (u, ks)" "acts as (u, ks) = Some (t, hs)"
    by (auto split: option.splits)
  then show ?case using act_step Cons.IH by (metis converse_rtranclp_into_rtranclp)
qed

text \<open>\<open>Acquire\<close> is its locked part followed by what it does outside of it.\<close>

lemma Acquire_sections:
  "Acquire ctx rid = go_bind (acquire_section rid) (\<lambda>r. case r of
       Found res \<Rightarrow> go_return (Inr res)
     | PoolFull \<Rightarrow> go_return (Inl ErrNoAvailableResource)
     | Room \<Rightarrow>
         go_bind (token_select ctx) (\<lambda>got.
         if got then
           go_bind (pool_Create '''') (\<lambda>r.
           case r of
             Inl err \<Rightarrow> go_seq token_send
               (go_return (Inl (Errorf ''error create from factory: '' (Some err))))
           | Inr res \<Rightarrow> go_seq (AddInuse res) (go_return (Inr res)))
         else go_return (Inl ErrContextDone)))"
  by (rule ext) (simp add: Acquire_def acquire_section_def go_bind_def go_seq_def go_get_def go_modify_def
      go_return_def pool_Lock_def pool_Unlock_def go_deref_def split: prod.splits outcome.splits option.splits)

subsection \<open>What goroutines hold\<close>

text \<open>The tokens a goroutine still has to account for, and the resource in its hands.\<close>

fun owes :: "goroutine \<Rightarrow> nat" where
  "owes AcquireCreate = 1"
| "owes (AcquireReturnToken err) = 1"
| "owes (AcquireAdd res) = 1"
| "owes (CheckIdleDispose first res) = 1"
| "owes (CheckIdleSend first) = 1"
| "owes (CheckIdleAddBack first res) = 1"
| "owes (TakeTokens n k) = k"
| "owes (CreateFor n left) = n"
| "owes (CreateReturnToken n left) = Suc n"
| "owes (CreateAdd res n left) = Suc n"
| "owes (Stuck n) = n"
| "owes _ = 0"

fun carries :: "goroutine \<Rightarrow> string multiset" where
  "carries (AcquireAdd res) = {#GetResourceId res#}"
| "carries (CheckIdleDispose first res) = {#GetResourceId res#}"
| "carries (CheckIdleAddBack first res) = {#GetResourceId res#}"
| "carries (CreateAdd res n left) = {#GetResourceId res#}"
| "carries _ = {#}"

definition in_hands :: "goroutine list \<Rightarrow> string multiset" where
  "in_hands gs = sum_list (map carries gs)"

definition owed :: "goroutine list \<Rightarrow> nat" where
  "owed gs = sum_list (map owes gs)"

text \<open>
  The pool is kept for goroutines that together hold the resources \<open>C\<close>, with the excess \<open>z\<close>:
  what is in the pool and in hands is there once and known to the factory, and tokens and
  resources fall short of the capacity by \<open>z\<close>. It is sound for goroutines that owe \<open>n\<close> tokens
  when they fall short by exactly these debts.
\<close>

definition kept ::
    "'e ObjectFactory \<Rightarrow> ('e \<Rightarrow> bool) \<Rightarrow> ('e \<Rightarrow> string set) \<Rightarrow> int \<Rightarrow> string multiset \<Rightarrow>
     'e SimpleObjectPool \<Rightarrow> bool" where
  "kept fac finv known z C s \<longleftrightarrow>
     pool_safe fac finv known s \<and> (\<forall>x. count (held s + C) x \<le> 1) \<and> set_mset C \<subseteq> known (env s) \<and>
     slack s = z"

abbreviation same_size :: "'e SimpleObjectPool \<Rightarrow> 'e SimpleObjectPool \<Rightarrow> bool" where
  "same_size s t \<equiv> capacity t = capacity s \<and> tokenCap t = tokenCap s"

definition sound ::
    "'e ObjectFactory \<Rightarrow> ('e \<Rightarrow> bool) \<Rightarrow> ('e \<Rightarrow> string set) \<Rightarrow> nat \<Rightarrow> string multiset \<Rightarrow>
     'e SimpleObjectPool \<Rightarrow> bool" where
  "sound fac finv known n C s \<longleftrightarrow>
     kept fac finv known (int n) C s \<and> int (tokenCap s) = capacity s"

lemma keptD:
  assumes "kept fac finv known z C s"
  shows "pool_safe fac finv known s" "\<forall>x. count (held s + C) x \<le> 1" "set_mset C \<subseteq> known (env s)"
    "slack s = z"
  using assms by (simp_all add: kept_def)

lemma soundD:
  assumes "sound fac finv known n C s"
  shows "pool_safe fac finv known s" "\<forall>x. count (held s + C) x \<le> 1" "set_mset C \<subseteq> known (env s)"
    "slack s = int n" "int (tokenCap s) = capacity s" "kept fac finv known (int n) C s"
  using assms by (simp_all add: sound_def kept_def)

lemma hands_at:
  assumes "i < length gs"
  obtains n C where "\<forall>g. owed (gs[i := g]) = owes g + n" "\<forall>g. in_hands (gs[i := g]) = carries g + C"
    "owed gs = owes (gs ! i) + n" "in_hands gs = carries (gs ! i) + C"
proof -
  let ?n = "owed (take i gs) + owed (drop (Suc i) gs)" and ?C = "in_hands (take i gs) + in_hands (drop (Suc i) gs)"
  have u: "owed (gs[i := g]) = owes g + ?n" "in_hands (gs[i := g]) = carries g + ?C" for g
    using assms by (simp_all add: upd_conv_take_nth_drop owed_def in_hands_def)
  show ?thesis using that [of ?n ?C] u u [of "gs ! i"] by simp
qed

subsection \<open>Runs of the locked parts\<close>

lemma acquire_section_found:
  assumes free: "\<not> locked s" and wf: "pool_wf s" and ne: "idle_ids s \<noteq> {#}"
  obtains item q where
    "acquire_section resId s = (Returns (Found (item_res item)),
       s\<lparr>idle := q, inuse := gmap_put (inuse s) (item_id item) (item_res item)\<rparr>)" "queue_wf q"
    "mset (queue_items (idle s)) = add_mset item (mset (queue_items q))"
proof -
  note qwf = pool_wfD(1) [OF wf]
  have items: "queue_items (idle s) \<noteq> []" using ne by (auto simp: idle_ids_def)
  let ?t = "s\<lparr>locked := True\<rparr>"
  have t: "queue_wf (idle ?t)" "queue_items (idle ?t) \<noteq> []" using qwf items by simp_all
  obtain item q where g: "getOneLocked resId ?t = (Returns (Some item), ?t\<lparr>idle := q\<rparr>)" "queue_wf q"
      "mset (queue_items (idle ?t)) = add_mset item (mset (queue_items q))"
    by (rule getOneLocked_run [OF t])
  have "0 < idle_size s" using idle_size_pos [OF qwf] items by simp
  with g free have "acquire_section resId s = (Returns (Found (item_res item)),
       s\<lparr>idle := q, inuse := gmap_put (inuse s) (item_id item) (item_res item)\<rparr>)"
    by (cases s) (simp add: acquire_section_def pool_Lock_def pool_Unlock_def item_id_def idle_size_def)
  then show ?thesis using that g by simp
qed

lemma acquire_section_empty:
  assumes "\<not> locked s" "queue_wf (idle s)" "idle_ids s = {#}"
  shows "acquire_section resId s = (Returns (if capacity s \<le> pool_size s then PoolFull else Room), s)"
proof -
  have "idle_size s = 0" using assms(2,3) by (simp add: idle_size_eq)
  with assms(1) show ?thesis
    by (cases s) (simp add: acquire_section_def pool_Lock_def pool_Unlock_def idle_size_def pool_size_def)
qed

lemma check_idle_section_empty:
  assumes "\<not> locked s" "queue_wf (idle s)" "queue_items (idle s) = []"
  shows "check_idle_section s = (Returns None, s\<lparr>locked := True\<rparr>)"
  using assms(1,3) Peek_facts [OF assms(2)] by (simp add: check_idle_section_def pool_Lock_def)

lemma check_idle_section_early:
  assumes "\<not> locked s" "queue_wf (idle s)" "queue_items (idle s) \<noteq> []"
    and "shd (clock s) < item_reverse (queue_items (idle s) ! 0)"
  shows "check_idle_section s = (Returns None, s\<lparr>locked := True, clock := stl (clock s)\<rparr>)"
  using assms(1,3,4) Peek_facts [OF assms(2)] by (simp add: check_idle_section_def pool_Lock_def time_Now_def)

lemma check_idle_section_due:
  assumes free: "\<not> locked s" and wf: "queue_wf (idle s)" and ne: "queue_items (idle s) \<noteq> []"
    and due: "item_reverse (queue_items (idle s) ! 0) \<le> shd (clock s)"
  obtains item q where
    "check_idle_section s = (Returns (Some (item_res item)), s\<lparr>clock := stl (clock s), idle := q\<rparr>)" "queue_wf q"
    "mset (queue_items (idle s)) = add_mset item (mset (queue_items q))"
proof -
  obtain item q where q: "PriorityQueue_Pop (idle s) = Some (Some item, q)" "queue_wf q"
    "item = queue_items (idle s) ! 0"
    "mset (queue_items (idle s)) = add_mset item (mset (queue_items q))"
    by (rule Pop_facts [OF wf ne])
  have unlocked: "s\<lparr>locked := False, clock := stl (clock s), idle := q\<rparr> =
      s\<lparr>clock := stl (clock s), idle := q\<rparr>"
    using free by (cases s) simp
  have "check_idle_section s = (Returns (Some (item_res item)), s\<lparr>clock := stl (clock s), idle := q\<rparr>)"
    using free ne due q(1) Peek_facts [OF wf] unlocked
    by (simp add: check_idle_section_def pool_Lock_def pool_Unlock_def time_Now_def idle_Pop_def)
  with q show ?thesis using that by blast
qed

lemma not_inuse: "rid \<notin># inuse_ids s \<or> (\<exists>r. gmap_get (inuse s) rid = Some r)"
  using gmap_get_None_iff [of "inuse s" rid] by (auto simp: set_inuse_ids)

lemma blocked_sections:
  "locked s \<Longrightarrow> acquire_section rid s = (Halts Blocked, s)"
  "locked s \<Longrightarrow> check_idle_section s = (Halts Blocked, s)"
  by (simp_all add: acquire_section_def check_idle_section_def pool_Lock_def)

subsection \<open>Every step keeps the pool\<close>

lemma kept_frame [simp]:
  "kept fac finv known z C (s\<lparr>locked := b\<rparr>) = kept fac finv known z C s"
  "kept fac finv known z C (s\<lparr>clock := c\<rparr>) = kept fac finv known z C s"
  "kept fac finv known z C (s\<lparr>tickerWaiting := b\<rparr>) = kept fac finv known z C s"
  by (simp_all add: kept_def)

text \<open>A resource that leaves the pool for a goroutine's hands, and one that enters it from there.\<close>

lemma kept_moved:
  assumes s: "kept fac finv known z C s" and t: "pool_safe fac finv known t" "held t + D = held s + C"
    and env: "env t = env s" and m: "slack t = k" "same_size s t" "tokenCap t = tokenCap s"
  shows "kept fac finv known k D t"
proof -
  have "set_mset (held t) \<union> set_mset D = set_mset (held s) \<union> set_mset C"
    using arg_cong [OF t(2), of set_mset] by simp
  then have "set_mset D \<subseteq> known (env t)"
    using keptD(3) [OF s] pool_safeD(5) [OF keptD(1) [OF s]] env by auto
  then show ?thesis using keptD(2) [OF s] t m by (simp add: kept_def)
qed

context object_factory
begin

lemma acquire_section_kept:
  assumes s: "kept fac finv known z C s" and run: "acquire_section rid s = (Returns r, t)"
  shows "kept fac finv known z C t \<and> same_size s t"
proof -
  note safe = keptD(1) [OF s]
  note wf = pool_safeD(1) [OF safe]
  have free: "\<not> locked s" using run blocked_sections(1) [of s rid] by auto
  show ?thesis
  proof (cases "idle_ids s = {#}")
    case True
    then show ?thesis using s run acquire_section_empty [OF free pool_wfD(1) [OF wf] True, of rid] by simp
  next
    case False
    obtain item q where q: "acquire_section rid s = (Returns (Found (item_res item)),
       s\<lparr>idle := q, inuse := gmap_put (inuse s) (item_id item) (item_res item)\<rparr>)" "queue_wf q"
      "mset (queue_items (idle s)) = add_mset item (mset (queue_items q))"
      by (rule acquire_section_found [OF free wf False])
    note m = move_to_inuse [OF wf pool_safeD(2) [OF safe] q(2,3)]
    let ?t = "s\<lparr>idle := q, inuse := gmap_put (inuse s) (item_id item) (item_res item)\<rparr>"
    have "pool_safe fac finv known ?t" using safe m exclusive_held [OF m(1)] by (simp add: pool_safe_def)
    then have "kept fac finv known z C ?t"
      using kept_moved [OF s, of ?t C z] m keptD(4) [OF s] by (simp add: slack_def)
    then show ?thesis using q(1) run by auto
  qed
qed

lemma check_idle_section_kept:
  assumes s: "kept fac finv known z C s" and run: "check_idle_section s = (Returns r, t)"
  shows "same_size s t \<and> (case r of
      None \<Rightarrow> kept fac finv known z C t
    | Some res \<Rightarrow> kept fac finv known (1 + z) (add_mset (GetResourceId res) C) t)"
proof -
  note safe = keptD(1) [OF s]
  note wf = pool_safeD(1) [OF safe] and qwf = pool_safeD(6) [OF safe]
  have free: "\<not> locked s" using run blocked_sections(2) [of s] by auto
  consider "queue_items (idle s) = []" | "queue_items (idle s) \<noteq> []" "shd (clock s) < item_reverse (queue_items (idle s) ! 0)"
    | "queue_items (idle s) \<noteq> []" "item_reverse (queue_items (idle s) ! 0) \<le> shd (clock s)" by linarith
  then show ?thesis
  proof cases
    case 1
    then show ?thesis using s run check_idle_section_empty [OF free qwf 1] by auto
  next
    case 2
    then show ?thesis using s run check_idle_section_early [OF free qwf 2] by auto
  next
    case 3
    obtain item q where q: "check_idle_section s = (Returns (Some (item_res item)), s\<lparr>clock := stl (clock s), idle := q\<rparr>)"
      "queue_wf q" "mset (queue_items (idle s)) = add_mset item (mset (queue_items q))"
      by (rule check_idle_section_due [OF free qwf 3])
    note m = idle_remove [OF q(2,3)]
    have "pool_safe fac finv known (s\<lparr>idle := q\<rparr>)"
      using safe m(3) [OF wf] exclusive_less [OF m(1)] pool_safeD(2,5) [OF safe] m(1)
      by (auto simp: pool_safe_def)
    moreover have "slack (s\<lparr>idle := q\<rparr>) = 1 + z"
      using m(2) [OF qwf] keptD(4) [OF s] by (simp add: slack_def)
    ultimately have "kept fac finv known (1 + z) (add_mset (item_id item) C) (s\<lparr>idle := q\<rparr>)"
      using kept_moved [OF s, of "s\<lparr>idle := q\<rparr>" "add_mset (item_id item) C" "1 + z"] m(1) by simp
    moreover have "s\<lparr>clock := stl (clock s), idle := q\<rparr> = s\<lparr>idle := q, clock := stl (clock s)\<rparr>" by simp
    ultimately have "kept fac finv known (1 + z) (add_mset (item_id item) C) (s\<lparr>clock := stl (clock s), idle := q\<rparr>)"
      by (simp only: kept_frame)
    then show ?thesis using q(1) run by (auto simp: item_id_def)
  qed
qed

lemma Release_kept:
  assumes s: "kept fac finv known z C s" and run: "ReleaseWithReverse rid d s = (Returns r, t)"
  shows "kept fac finv known z C t \<and> same_size s t"
proof -
  note safe = keptD(1) [OF s]
  have free: "\<not> locked s" using run blocked_when_locked(4) [of s rid d] by auto
  show ?thesis
  proof (cases "gmap_get (inuse s) rid")
    case None
    then have "rid \<notin># inuse_ids s" by (simp add: set_inuse_ids gmap_get_None_iff)
    then show ?thesis using Release_missing_run [OF free, of rid d] s run by simp
  next
    case (Some res)
    obtain q where q: "ReleaseWithReverse rid d s = (Returns None, s\<lparr>inuse := gmap_delete (inuse s) rid,
        idle := q, tickerWaiting := False, clock := stl (clock s)\<rparr>)" "queue_wf q"
      "mset (queue_items q) = add_mset
         \<lparr>item_res = res, item_reverse = released_at (shd (clock s)) d\<rparr> (mset (queue_items (idle s)))"
      by (rule Release_run [OF free pool_safeD(1) [OF safe] Some])
    note m = move_to_idle [OF pool_safeD(1) [OF safe] Some q(2,3)]
    let ?t = "s\<lparr>inuse := gmap_delete (inuse s) rid, idle := q\<rparr>"
    have "pool_safe fac finv known ?t" using safe m exclusive_held [OF m(1)] by (simp add: pool_safe_def)
    then have "kept fac finv known z C ?t"
      using kept_moved [OF s, of ?t C z] m keptD(4) [OF s] by (simp add: slack_def)
    then show ?thesis using q(1) run by auto
  qed
qed

lemma AddInuse_kept:
  assumes s: "kept fac finv known (1 + z) (add_mset (GetResourceId r) C) s" and run: "AddInuse r s = (Returns x, t)"
  shows "kept fac finv known z C t \<and> same_size s t"
proof -
  note safe = keptD(1) [OF s]
  have "count (held s) (GetResourceId r) + Suc (count C (GetResourceId r)) \<le> 1"
    using keptD(2) [OF s] by (metis count_add_mset count_union)
  then have fresh: "GetResourceId r \<notin># held s" by (simp add: not_in_iff)
  have kn: "GetResourceId r \<in> known (env s)" using keptD(3) [OF s] by simp
  note a = AddInuse_keeps [OF safe fresh kn run]
  have free: "\<not> locked s" using a(6) by simp
  note i = inuse_add [OF pool_safeD(1) [OF safe] fresh]
  have t: "t = s\<lparr>inuse := gmap_put (inuse s) (GetResourceId r) r\<rparr>" using AddInuse_run [OF free, of r] run by simp
  have "kept fac finv known z C t"
    using kept_moved [OF s a(1), of C z] i(1) a(2,3,6) keptD(4) [OF s] by (simp add: t)
  then show ?thesis using a(2,3) by simp
qed

lemma AddIdle_kept:
  assumes s: "kept fac finv known (1 + z) (add_mset (GetResourceId r) C) s" and run: "AddIdle r s = (Returns x, t)"
  shows "kept fac finv known z C t \<and> same_size s t"
proof -
  note safe = keptD(1) [OF s]
  have "count (held s) (GetResourceId r) + Suc (count C (GetResourceId r)) \<le> 1"
    using keptD(2) [OF s] by (metis count_add_mset count_union)
  then have fresh: "GetResourceId r \<notin># held s" by (simp add: not_in_iff)
  have kn: "GetResourceId r \<in> known (env s)" using keptD(3) [OF s] by simp
  note a = AddIdle_keeps [OF safe fresh kn run]
  have held: "held t = add_mset (GetResourceId r) (held s)" using a(6) by (simp add: held_def inuse_ids_def)
  have env: "env t = env s" using AddIdle_env [of s r] a(6) pool_safeD(6) [OF safe] run by simp
  have "kept fac finv known z C t"
    using kept_moved [OF s a(1) _ env, of C z] held a(2,3,6) keptD(4) [OF s] by simp
  then show ?thesis using a(2,3) by simp
qed

lemma create_kept:
  assumes s: "kept fac finv known z C s" and run: "pool_Create ip s = (out, t)"
  shows "kept fac finv known z C t" "same_size s t"
    "out = Returns (Inr r) \<Longrightarrow> kept fac finv known z (add_mset (GetResourceId r) C) t"
proof -
  note safe = keptD(1) [OF s]
  note c = create_keeps [OF safe run] and f = create_fresh [OF safe run]
  have slack: "slack t = z" using c(3-6) keptD(4) [OF s] by (simp add: slack_def)
  show t: "kept fac finv known z C t"
    using c(1,2) slack keptD(2,3) [OF s] f(1) by (auto simp: kept_def)
  show "same_size s t" using c(4,6) by simp
  show "kept fac finv known z (add_mset (GetResourceId r) C) t" if r: "out = Returns (Inr r)"
  proof -
    have new: "GetResourceId r \<notin> known (env s)" "GetResourceId r \<in> known (env t)" using f(2) [OF r] c(8) [OF r] by auto
    then have "GetResourceId r \<notin># held s + C"
      using keptD(3) [OF s] pool_safeD(5) [OF safe] by auto
    then have "count (held s + add_mset (GetResourceId r) C) x \<le> 1" for x
      using spec [OF keptD(2) [OF s], of x] by (auto simp: not_in_iff)
    then show ?thesis using t new(2) c(2) by (simp add: kept_def)
  qed
qed

lemma dispose_kept:
  assumes s: "kept fac finv known z C s" and run: "pool_Dispose res s = (out, t)"
  shows "kept fac finv known z C t" "same_size s t"
proof -
  note safe = keptD(1) [OF s]
  note d = dispose_keeps [OF safe run]
  have "slack t = z" using d(3-6) keptD(4) [OF s] by (simp add: slack_def)
  then show "kept fac finv known z C t" using d(1,2,8) keptD(2,3) [OF s] by (auto simp: kept_def)
  show "same_size s t" using d(4,6) by simp
qed

lemma kept_tokens:
  assumes "kept fac finv known z C s" "int k + y = int (tokens s) + z"
  shows "kept fac finv known y C (s\<lparr>tokens := k\<rparr>)"
  using assms by (simp add: kept_def)

lemma kept_less: "kept fac finv known z (add_mset x C) s \<Longrightarrow> kept fac finv known z C s"
proof -
  assume s: "kept fac finv known z (add_mset x C) s"
  have "count (held s + C) y \<le> 1" for y
    using spec [OF keptD(2) [OF s], of y] by (auto split: if_splits)
  then show ?thesis using s by (simp add: kept_def)
qed

lemma sections_return:
  assumes s: "kept fac finv known z C s" and free: "\<not> locked s"
  shows "\<exists>r t. acquire_section rid s = (Returns r, t)" "\<exists>r t. check_idle_section s = (Returns r, t)"
    "\<exists>r t. ReleaseWithReverse rid d s = (Returns r, t)" "\<exists>r t. Stat rid s = (Returns r, t)"
    "\<exists>t. AddIdle res s = (Returns (), t)" "\<exists>t. AddInuse res s = (Returns (), t)"
    "\<exists>r. needAddition s = (Returns r, s)"
proof -
  note safe = keptD(1) [OF s]
  note wf = pool_safeD(1) [OF safe] and qwf = pool_safeD(6) [OF safe]
  show "\<exists>r t. acquire_section rid s = (Returns r, t)"
    using acquire_section_empty [OF free qwf, of rid] acquire_section_found [OF free wf, of rid] by metis
  show "\<exists>r t. check_idle_section s = (Returns r, t)"
    using check_idle_section_empty [OF free qwf] check_idle_section_early [OF free qwf]
      check_idle_section_due [OF free qwf] by (metis not_le)
  show "\<exists>r t. ReleaseWithReverse rid d s = (Returns r, t)"
    using Release_missing_run [OF free, of rid d] not_inuse [of rid s] Release_run [OF free wf, of rid _ d] by metis
  show "\<exists>r t. Stat rid s = (Returns r, t)" using Stat_run [OF free wf, of rid] by blast
  show "\<exists>t. AddIdle res s = (Returns (), t)" using AddIdle_run [OF free qwf, of res] by metis
  show "\<exists>t. AddInuse res s = (Returns (), t)" using AddInuse_run [OF free, of res] by blast
  show "\<exists>r. needAddition s = (Returns r, s)" using needAddition_run [OF free] by blast
qed

text \<open>One step of a goroutine, with the debts and the hands of all others kept aside.\<close>

lemma attempt_cases:
  assumes "attempt m next k s = Some (g, t)"
  obtains a where "m s = (Returns a, t)" "g = next a" | h where "m s = (Halts h, t)" "h \<noteq> Blocked" "g = Stuck k"
  using assms by (auto simp: attempt_def split: prod.splits outcome.splits halt.splits)

lemma call_out_cases:
  assumes "call_out m next k s = Some (g, t)"
  obtains a where "m s = (Returns a, t)" "g = next a" | h where "m s = (Halts h, t)" "g = Stuck k"
  using assms by (auto simp: call_out_def split: prod.splits outcome.splits)

lemma attempt_locked:
  assumes "attempt m next k s = Some (g, t)" "locked s \<Longrightarrow> m s = (Halts Blocked, s)"
    and "\<not> locked s \<Longrightarrow> \<exists>r u. m s = (Returns r, u)"
  obtains a where "m s = (Returns a, t)" "g = next a"
  using assms by (cases "locked s") (auto simp: attempt_def)

lemma send_step:
  assumes "kept fac finv known (1 + z) C s" "attempt token_send next k s = Some (g, t)"
  shows "g = next () \<and> kept fac finv known z C t \<and> same_size s t"
  using kept_tokens [OF assms(1), of "Suc (tokens s)" z] assms(2)
  by (auto simp: attempt_def token_send_def split: if_splits)

lemma create_step:
  assumes s: "kept fac finv known z C s" and step: "call_out (pool_Create ip) next k s = Some (g, t)"
  shows "same_size s t \<and>
    ((\<exists>e. g = next (Inl e)) \<and> kept fac finv known z C t \<or>
     (\<exists>r. g = next (Inr r) \<and> kept fac finv known z (add_mset (GetResourceId r) C) t) \<or>
     g = Stuck k \<and> kept fac finv known z C t)"
  using step
proof (cases rule: call_out_cases)
  case (1 a)
  then show ?thesis using create_kept [OF s 1(1)] by (cases a) auto
next
  case (2 h)
  then show ?thesis using create_kept [OF s 2(1)] by auto
qed

lemma add_inuse_step:
  assumes s: "kept fac finv known (1 + z) (add_mset (GetResourceId res) C) s"
    and step: "attempt (AddInuse res) next k s = Some (g, t)"
  shows "g = next () \<and> kept fac finv known z C t \<and> same_size s t"
proof -
  obtain a where "AddInuse res s = (Returns a, t)" "g = next a"
    by (rule attempt_locked [OF step])
      (use blocked_when_locked(2) [of s res] sections_return(6) [OF s, of res] in auto)
  then show ?thesis using AddInuse_kept [OF s] by simp
qed

lemma add_idle_step:
  assumes s: "kept fac finv known (1 + z) (add_mset (GetResourceId res) C) s"
    and step: "attempt (AddIdle res) next k s = Some (g, t)"
  shows "g = next () \<and> kept fac finv known z C t \<and> same_size s t"
proof -
  obtain a where "AddIdle res s = (Returns a, t)" "g = next a"
    by (rule attempt_locked [OF step])
      (use blocked_when_locked(1) [of s res] sections_return(5) [OF s, of res] in auto)
  then show ?thesis using AddIdle_kept [OF s] by simp
qed

lemma call_step:
  assumes s: "kept fac finv known z C s" and g: "is_call g" and step: "gstep g s = Some (g', t)"
  shows "kept fac finv known z C t \<and> same_size s t \<and> owes g' = 0 \<and> carries g' = {#}"
proof (cases g)
  case (AcquireEnter ctx rid)
  obtain a where "acquire_section rid s = (Returns a, t)"
    "g' = (case a of Found res \<Rightarrow> AcquireDone (Inr res) | PoolFull \<Rightarrow> AcquireDone (Inl ErrNoAvailableResource)
       | Room \<Rightarrow> AcquireSelect ctx)"
    by (rule attempt_locked [OF step [unfolded AcquireEnter gstep.simps]])
      (use blocked_sections sections_return(1) [OF s] in auto)
  then show ?thesis using acquire_section_kept [OF s] by (auto split: acquired.splits)
next
  case (ReleaseEnter rid d)
  obtain a where "ReleaseWithReverse rid d s = (Returns a, t)" "g' = ReleaseDone a"
    by (rule attempt_locked [OF step [unfolded ReleaseEnter gstep.simps]])
      (use blocked_when_locked(4) [of s rid d] sections_return(3) [OF s, of rid d] in auto)
  then show ?thesis using Release_kept [OF s] by simp
next
  case (StatEnter rid)
  obtain a where a: "Stat rid s = (Returns a, t)" "g' = StatDone a"
    by (rule attempt_locked [OF step [unfolded StatEnter gstep.simps]])
      (use blocked_when_locked(5) [of s rid] sections_return(4) [OF s, of rid] in auto)
  have "\<not> locked s" using a(1) blocked_when_locked(5) [of s rid] by auto
  then show ?thesis using Stat_run [OF _ pool_safeD(1) [OF keptD(1) [OF s]], of rid] a s by simp
qed (use g in auto)

lemma check_idle_lock_step:
  assumes s: "kept fac finv known z C s" and step: "gstep (CheckIdleLock b) s = Some (g', t)"
  shows "kept fac finv known (int (owes g') + z) (carries g' + C) t \<and> same_size s t"
proof -
  obtain a where "check_idle_section s = (Returns a, t)"
    "g' = (case a of None \<Rightarrow> after_checkIdle b | Some res \<Rightarrow> CheckIdleDispose b res)"
    by (rule attempt_locked [OF step [unfolded gstep.simps]])
      (use blocked_sections(2) sections_return(2) [OF s] in auto)
  then show ?thesis using check_idle_section_kept [OF s]
    by (auto simp: after_checkIdle_def split: option.splits)
qed

lemma dispose_step:
  assumes s: "kept fac finv known (1 + z) (add_mset (GetResourceId res) C) s"
    and step: "gstep (CheckIdleDispose b res) s = Some (g', t)"
  shows "kept fac finv known (int (owes g') + z) (carries g' + C) t \<and> same_size s t"
  using step [unfolded gstep.simps]
proof (cases rule: call_out_cases)
  case (1 a)
  then show ?thesis using dispose_kept [OF s 1(1)] by (cases a) (auto intro: kept_less)
next
  case (2 h)
  then show ?thesis using dispose_kept [OF s 2(1)] by (auto intro: kept_less)
qed

lemma insufficient_step:
  assumes s: "kept fac finv known z C s" and step: "gstep Insufficient s = Some (g', t)"
  shows "t = s \<and> owes g' = 0 \<and> carries g' = {#}"
proof -
  obtain a where a: "needAddition s = (Returns a, t)" "g' = (if a \<le> 0 then ToSelect else TakeTokens (nat a) 0)"
    by (rule attempt_locked [OF step [unfolded gstep.simps]])
      (use blocked_when_locked(6) [of s] sections_return(7) [OF s] in auto)
  have "\<not> locked s" using a(1) blocked_when_locked(6) [of s] by auto
  then show ?thesis using needAddition_run [of s] a by simp
qed

lemma take_token_kept:
  assumes "kept fac finv known z C s" "0 < tokens s"
  shows "kept fac finv known (1 + z) C (s\<lparr>tokens := tokens s - 1\<rparr>)"
  by (rule kept_tokens [OF assms(1)]) (use assms(2) in simp)

text \<open>All steps, by the point the goroutine is at.\<close>

lemma gstep_kept:
  assumes s: "kept fac finv known (int (owes g) + z) (carries g + C) s" and step: "gstep g s = Some (g', t)"
  shows "kept fac finv known (int (owes g') + z) (carries g' + C) t \<and> same_size s t"
proof (cases g)
  case (AcquireSelect ctx)
  then show ?thesis using s step take_token_kept [of z C s]
    by (auto simp: attempt_def token_select_def split: if_splits)
next
  case AcquireCreate
  then show ?thesis using create_step [OF s step [unfolded AcquireCreate gstep.simps]] by auto
next
  case (TakeTokens m k)
  then show ?thesis using s step take_token_kept [of "int k + z" C s]
    by (cases m) (auto simp: attempt_def token_try_def add.assoc split: if_splits)
next
  case (CreateFor m left)
  show ?thesis
  proof (cases m)
    case 0
    then show ?thesis using s step CreateFor by (auto simp: notify_def)
  next
    case (Suc j)
    then show ?thesis using create_step [OF s step [unfolded CreateFor Suc gstep.simps]] CreateFor by auto
  qed
next
  case (AcquireReturnToken e)
  then show ?thesis using s send_step [OF _ step [unfolded AcquireReturnToken gstep.simps], of z C] by simp
next
  case (AcquireAdd res)
  then show ?thesis using s add_inuse_step [OF _ step [unfolded AcquireAdd gstep.simps], of z C] by simp
next
  case (CheckIdleSend b)
  then show ?thesis using s send_step [OF _ step [unfolded CheckIdleSend gstep.simps], of z C] by simp
next
  case (CheckIdleAddBack b res)
  then show ?thesis using s add_idle_step [OF _ step [unfolded CheckIdleAddBack gstep.simps], of z C] by simp
next
  case (CreateReturnToken m left)
  then show ?thesis using s send_step [OF _ step [unfolded CreateReturnToken gstep.simps], of "int m + z" C] by (simp add: add.assoc)
next
  case (CreateAdd res m left)
  then show ?thesis using s add_idle_step [OF _ step [unfolded CreateAdd gstep.simps], of "int m + z" C] by (simp add: add.assoc)
qed (use s step call_step [of z C s g g' t] check_idle_lock_step [of z C s] dispose_step [of z _ C s]
      insufficient_step [of z C s] in
    \<open>auto simp: after_checkIdle_def simp del: gstep.simps(1,6,7,9,10,13)\<close>)

text \<open>On a sound pool a token always finds room.\<close>

lemma token_send_sound:
  assumes "sound fac finv known (Suc n) C s"
  shows "token_send s = (Returns (), s\<lparr>tokens := Suc (tokens s)\<rparr>)"
proof -
  have "tokens s < tokenCap s"
    by (rule slack_room) (use soundD(4,5) [OF assms] in simp_all)
  then show "token_send s = (Returns (), s\<lparr>tokens := Suc (tokens s)\<rparr>)" by (simp add: token_send_def)
qed

lemma gstep_sound:
  assumes "sound fac finv known (owes g + n) (carries g + C) s" "gstep g s = Some (g', t)"
  shows "sound fac finv known (owes g' + n) (carries g' + C) t \<and> capacity t = capacity s"
  using gstep_kept [OF _ assms(2), of "int n" C] assms(1) by (simp add: sound_def)

text \<open>
  Every reachable configuration is sound, with the debts and the hands of its goroutines.
\<close>

lemma pool_step_sound:
  assumes "pool_step c d" and "sound fac finv known (owed (snd c)) (in_hands (snd c)) (fst c)"
  shows "sound fac finv known (owed (snd d)) (in_hands (snd d)) (fst d) \<and> capacity (fst d) = capacity (fst c)"
  using assms
proof (induction rule: pool_step.induct)
  case (run i gs s g t)
  obtain n C where h: "\<forall>g. owed (gs[i := g]) = owes g + n" "\<forall>g. in_hands (gs[i := g]) = carries g + C"
    "owed gs = owes (gs ! i) + n" "in_hands gs = carries (gs ! i) + C"
    by (rule hands_at [OF run.hyps(1)])
  have "sound fac finv known (owes (gs ! i) + n) (carries (gs ! i) + C) s" using run.prems h(3,4) by simp
  from gstep_sound [OF this run.hyps(2)] show ?case using h(1,2) by simp
next
  case (call g s gs)
  then have "owes g = 0" "carries g = {#}" by (cases g; simp)+
  then show ?case using call.prems by (simp add: owed_def in_hands_def)
next
  case (cancel i gs ctx s b)
  obtain n C where h: "\<forall>g. owed (gs[i := g]) = owes g + n" "\<forall>g. in_hands (gs[i := g]) = carries g + C"
    "owed gs = owes (gs ! i) + n" "in_hands gs = carries (gs ! i) + C"
    by (rule hands_at [OF cancel.hyps(1)])
  then show ?case using cancel by simp
qed

lemma pool_steps_sound:
  assumes "pool_step\<^sup>*\<^sup>* c d" and "sound fac finv known (owed (snd c)) (in_hands (snd c)) (fst c)"
  shows "sound fac finv known (owed (snd d)) (in_hands (snd d)) (fst d) \<and> capacity (fst d) = capacity (fst c)"
  using assms
proof (induction rule: rtranclp_induct)
  case base
  then show ?case by simp
next
  case (step d e)
  then show ?case using pool_step_sound [OF step.hyps(2)] by auto
qed

text \<open>Giving a token back never waits.\<close>

lemma senders_move:
  assumes "sound fac finv known (owed gs) (in_hands gs) s" "i < length gs"
    and "gs ! i \<in> range AcquireReturnToken \<union> range CheckIdleSend \<union> range (\<lambda>(n, l). CreateReturnToken n l)"
  shows "gstep (gs ! i) s \<noteq> None"
proof -
  obtain n where n: "owed gs = owes (gs ! i) + n" using hands_at [OF assms(2)] by metis
  have "0 < owes (gs ! i)" using assms(3) by auto
  then obtain m where "owed gs = Suc m" using n by (metis add_gr_0 gr0_implies_Suc)
  then have "token_send s = (Returns (), s\<lparr>tokens := Suc (tokens s)\<rparr>)"
    using token_send_sound assms(1) by metis
  then show ?thesis using assms(3) by (auto simp: attempt_def)
qed

text \<open>A section that is not about tokens, on a pool with any debts.\<close>

lemma acquire_section_sound:
  assumes "sound fac finv known n C s" "acquire_section rid s = (Returns r, t)"
  shows "sound fac finv known n C t"
  using acquire_section_kept [OF soundD(6) [OF assms(1)] assms(2)] assms(1) by (simp add: sound_def)

end

subsection \<open>A mutex that is left locked\<close>

lemma call_out_locked:
  assumes "call_out m next k s = Some (g, t)" "\<And>r u. m s = (r, u) \<Longrightarrow> locked u = locked s"
  shows "locked t = locked s"
  using assms by (auto simp: call_out_def split: prod.splits outcome.splits)

lemma attempt_blocked: "m s = (Halts Blocked, s) \<Longrightarrow> attempt m next k s = None"
  by (simp add: attempt_def)

lemma calls_blocked:
  assumes "locked s"
  shows "gstep (AcquireEnter ctx rid) s = None" "gstep (ReleaseEnter rid d) s = None" "gstep (StatEnter rid) s = None"
    "gstep (AcquireAdd res) s = None" "gstep (CheckIdleLock b) s = None" "gstep (CheckIdleAddBack b res) s = None"
    "gstep Insufficient s = None" "gstep (CreateAdd res n l) s = None"
  using blocked_sections [OF assms] blocked_when_locked [OF assms] by (simp_all add: attempt_blocked)

lemma factory_calls_locked:
  "pool_Create ip s = (out, t) \<Longrightarrow> locked t = locked s" "pool_Dispose res s = (out', t) \<Longrightarrow> locked t = locked s"
  by (auto simp: pool_Create_def pool_Dispose_def split: prod.splits)

lemmas factory_step_locked =
  call_out_locked [OF _ factory_calls_locked(1)] call_out_locked [OF _ factory_calls_locked(2)]

lemma gstep_locked:
  assumes l: "locked s" and step: "gstep g s = Some (g', t)"
  shows "locked t"
proof (cases g)
  case AcquireCreate
  show ?thesis using factory_step_locked(1) [OF step [unfolded AcquireCreate gstep.simps]] l by simp
next
  case (CheckIdleDispose b res)
  show ?thesis using factory_step_locked(2) [OF step [unfolded CheckIdleDispose gstep.simps]] l by simp
next
  case (CreateFor n left)
  show ?thesis
  proof (cases n)
    case 0
    then show ?thesis using step l CreateFor by (auto simp: notify_def)
  next
    case (Suc m)
    show ?thesis using factory_step_locked(1) [OF step [unfolded CreateFor Suc gstep.simps]] l by simp
  qed
next
  case (TakeTokens n k)
  then show ?thesis using step l by (cases n) (auto simp: attempt_def token_try_def split: if_splits)
qed (use calls_blocked [OF l] step l in
    \<open>auto simp: attempt_def token_send_def token_select_def simp del: gstep.simps(1,5,6,7,9,12,13,19)
      split: if_splits\<close>)

lemma locked_forever:
  "pool_step\<^sup>*\<^sup>* c d \<Longrightarrow> locked (fst c) \<Longrightarrow> locked (fst d)"
proof (induction rule: rtranclp_induct)
  case base
  then show ?case .
next
  case (step d e)
  from step.hyps(2) step.IH [OF step.prems] show ?case by (cases rule: pool_step.cases) (auto dest: gstep_locked)
qed

end
