(* ===== verification/Port_Factory.thy ===== *)
theory Port_Factory
  imports Neutron_Laws Pool_Concurrency
begin

section \<open>The factory of ports (pkg/ipam/port.go)\<close>

text \<open>
  \<open>PortFactory\<close> is the pool's factory: it creates and deletes Neutron ports. Its methods act
  on a record that holds the struct's fields, its embedded mutex as the flag \<open>pf_locked\<close>, and
  beside them what they reach outside: the state of the outside world and the random numbers
  for the port's name. The record is the environment \<open>env\<close> of the pool.
\<close>

definition VMTagPrefix :: string where "VMTagPrefix = ''vm_uuid''"
definition DeviceOwner :: string where "DeviceOwner = ''network:secondary''"

record 'w PortFactory =
  pf_client :: "'w Client"
  pf_netID :: string
  pf_subnetID :: string
  pf_nodeName :: string
  pf_vmUUID :: string
  pf_projectID :: string
  pf_ports :: "NetworkResource list"
  pf_locked :: bool
  pf_world :: 'w
  pf_rand :: "nat stream"

definition pf_Lock :: "('w PortFactory, unit) go" where
  "pf_Lock = (\<lambda>f. if pf_locked f then (Halts Blocked, f) else (Returns (), f\<lparr>pf_locked := True\<rparr>))"

definition pf_Unlock :: "('w PortFactory, unit) go" where
  "pf_Unlock = (\<lambda>f. if pf_locked f then (Returns (), f\<lparr>pf_locked := False\<rparr>) else (Halts Panicked, f))"

text \<open>A call of the factory's client.\<close>

definition pf_call :: "('w Client \<Rightarrow> ('w, 'a) go) \<Rightarrow> ('w PortFactory, 'a) go" where
  "pf_call m = (\<lambda>f. go_zoom pf_world (\<lambda>w f. f\<lparr>pf_world := w\<rparr>) (m (pf_client f)) f)"

definition pf_random :: "nat \<Rightarrow> ('w PortFactory, string) go" where
  "pf_random n = (\<lambda>f. case RandomString n (pf_rand f) of (s, r) \<Rightarrow> (Returns s, f\<lparr>pf_rand := r\<rparr>))"

definition vm_tag :: "string \<Rightarrow> string" where
  "vm_tag uuid = VMTagPrefix @ '':'' @ uuid"

definition PortFactory_Create :: "string \<Rightarrow> ('w PortFactory, error + NetworkResource) go" where
  "PortFactory_Create ip =
     go_bind (pf_random 10) (\<lambda>suffix.
     go_bind (go_get (\<lambda>f.
       \<lparr>co_Name = ''rubble-port-'' @ suffix, co_NetworkID = pf_netID f, co_SubnetID = pf_subnetID f,
        co_IPAddress = (if 0 < length ip then ip else ''''), co_ProjectID = '''',
        co_SecurityGroup = '''', co_DeviceID = '''', co_DeviceOwner = DeviceOwner,
        co_Tags = ''''\<rparr>)) (\<lambda>opts.
     go_bind (pf_call (\<lambda>c. CreatePort c opts)) (\<lambda>created.
     case created of
       Inl err \<Rightarrow> go_return (Inl err)
     | Inr port \<Rightarrow>
         go_bind (go_get pf_vmUUID) (\<lambda>uuid.
         go_bind (pf_call (\<lambda>c. AddTag c ''ports'' (port_ID port) (vm_tag uuid))) (\<lambda>tagged.
         case tagged of
           Some err \<Rightarrow> go_return (Inl err)
         | None \<Rightarrow>
             go_seq pf_Lock (
             go_seq (go_modify (\<lambda>f. f\<lparr>pf_ports := pf_ports f @ [PortResource port]\<rparr>)) (
             go_seq pf_Unlock (
             go_return (Inr (PortResource port))))))))))"

text \<open>When the deletion fails, \<open>Dispose\<close> returns with the mutex still locked.\<close>

definition PortFactory_Dispose :: "NetworkResource \<Rightarrow> ('w PortFactory, error option) go" where
  "PortFactory_Dispose res =
     go_seq pf_Lock (
     go_bind (pf_call (\<lambda>c. DeletePort c (GetResourceId res))) (\<lambda>deleted.
     case deleted of
       Some err \<Rightarrow> go_return (Some (Errorf ''failed to delete port with error'' (Some err)))
     | None \<Rightarrow> go_seq pf_Unlock (go_return None)))"

definition GetClient :: "'w PortFactory \<Rightarrow> 'w Client" where
  "GetClient f = pf_client f"

definition GetConfig :: "'w PortFactory \<Rightarrow> string \<times> string" where
  "GetConfig f = (pf_netID f, pf_subnetID f)"

definition port_factory :: "'w PortFactory ObjectFactory" where
  "port_factory = \<lparr>factory_Create = PortFactory_Create, factory_Dispose = PortFactory_Dispose\<rparr>"

subsection \<open>The factory honours the pool's contract\<close>

definition factory_ok :: "('w \<Rightarrow> string set) \<Rightarrow> 'w PortFactory \<Rightarrow> bool" where
  "factory_ok issued f \<longleftrightarrow> neutron_ok issued (networkCliV2 (pf_client f))"

lemma pf_call_run: "pf_call m f = (case m (pf_client f) (pf_world f) of
    (r, w) \<Rightarrow> (r, f\<lparr>pf_world := w\<rparr>))"
  by (simp add: pf_call_def)

text \<open>The calls that a successful creation consists of.\<close>

definition create_opts :: "'w PortFactory \<Rightarrow> string \<Rightarrow> CreateOpts" where
  "create_opts f ip =
     \<lparr>co_Name = ''rubble-port-'' @ fst (RandomString 10 (pf_rand f)), co_NetworkID = pf_netID f,
      co_SubnetID = pf_subnetID f, co_IPAddress = ip, co_ProjectID = '''',
      co_SecurityGroup = '''', co_DeviceID = '''', co_DeviceOwner = DeviceOwner, co_Tags = ''''\<rparr>"

lemma PortFactory_Create_run:
  "PortFactory_Create ip f =
    (let f0 = f\<lparr>pf_rand := snd (RandomString 10 (pf_rand f))\<rparr> in
     case CreatePort (pf_client f) (create_opts f ip) (pf_world f) of
       (Halts h, w) \<Rightarrow> (Halts h, f0\<lparr>pf_world := w\<rparr>)
     | (Returns (Inl err), w) \<Rightarrow> (Returns (Inl err), f0\<lparr>pf_world := w\<rparr>)
     | (Returns (Inr port), w) \<Rightarrow>
         (case AddTag (pf_client f) ''ports'' (port_ID port) (vm_tag (pf_vmUUID f)) w of
            (Halts h, w') \<Rightarrow> (Halts h, f0\<lparr>pf_world := w'\<rparr>)
          | (Returns (Some err), w') \<Rightarrow> (Returns (Inl err), f0\<lparr>pf_world := w'\<rparr>)
          | (Returns None, w') \<Rightarrow>
              (if pf_locked f then (Halts Blocked, f0\<lparr>pf_world := w'\<rparr>)
               else (Returns (Inr (PortResource port)),
                     f0\<lparr>pf_world := w', pf_ports := pf_ports f @ [PortResource port]\<rparr>))))"
proof -
  have ip: "(if 0 < length ip then ip else '''') = ip" by simp
  show ?thesis
    unfolding PortFactory_Create_def pf_random_def ip Let_def
    by (auto simp: pf_call_run create_opts_def pf_Lock_def pf_Unlock_def
        split: prod.splits outcome.splits sum.splits option.splits)
qed

lemma PortFactory_Dispose_run:
  "PortFactory_Dispose res f =
    (if pf_locked f then (Halts Blocked, f)
     else case DeletePort (pf_client f) (GetResourceId res) (pf_world f) of
       (Halts h, w) \<Rightarrow> (Halts h, f\<lparr>pf_locked := True, pf_world := w\<rparr>)
     | (Returns (Some err), w) \<Rightarrow>
         (Returns (Some (Errorf ''failed to delete port with error'' (Some err))),
          f\<lparr>pf_locked := True, pf_world := w\<rparr>)
     | (Returns None, w) \<Rightarrow> (Returns None, f\<lparr>pf_world := w\<rparr>))"
  by (cases f) (auto simp: PortFactory_Dispose_def pf_Lock_def pf_Unlock_def pf_call_run
      split: prod.splits outcome.splits option.splits)

lemma PortFactory_Create_law:
  assumes ok: "factory_ok issued f" and run: "PortFactory_Create ip f = (out, f')"
  shows "factory_ok issued f'" "issued (pf_world f) \<subseteq> issued (pf_world f')"
    and "out = Returns (Inr r) \<Longrightarrow>
      GetResourceId r \<in> issued (pf_world f') \<and> GetResourceId r \<notin> issued (pf_world f)"
proof -
  note ok' = ok [unfolded factory_ok_def]
  obtain o1 w1 where cp: "CreatePort (pf_client f) (create_opts f ip) (pf_world f) = (o1, w1)"
    by fastforce
  note c = CreatePort_facts [OF ok' cp]
  have tag: "issued w1 \<subseteq> issued w2"
    if "AddTag (pf_client f) ''ports'' x (vm_tag (pf_vmUUID f)) w1 = (o2, w2)" for x o2 w2
    by (rule growsD [OF neutron_grows(8) [OF ok'] that])
  note run' = run [unfolded PortFactory_Create_run Let_def cp prod.case]
  show "factory_ok issued f'"
    using run' ok
    by (auto simp: factory_ok_def split: outcome.splits sum.splits prod.splits option.splits if_splits)
  show "issued (pf_world f) \<subseteq> issued (pf_world f')"
    using run'
    by (auto split: outcome.splits sum.splits prod.splits option.splits if_splits
        dest: subsetD [OF c(1)] subsetD [OF tag])
  assume out: "out = Returns (Inr r)"
  obtain q w2 where q: "o1 = Returns (Inr q)" "r = PortResource q"
    "AddTag (pf_client f) ''ports'' (port_ID q) (vm_tag (pf_vmUUID f)) w1 = (Returns None, w2)"
    "pf_world f' = w2"
    using run' out by (auto split: outcome.splits sum.splits prod.splits option.splits if_splits)
  show "GetResourceId r \<in> issued (pf_world f') \<and> GetResourceId r \<notin> issued (pf_world f)"
    using c(2) [OF q(1)] tag [OF q(3)] q(2,4) by auto
qed

lemma PortFactory_Dispose_law:
  assumes ok: "factory_ok issued f" and run: "PortFactory_Dispose res f = (out, f')"
  shows "factory_ok issued f'" "issued (pf_world f) \<subseteq> issued (pf_world f')"
proof -
  note ok' = ok [unfolded factory_ok_def]
  obtain o1 w1 where dp: "DeletePort (pf_client f) (GetResourceId res) (pf_world f) = (o1, w1)"
    by fastforce
  have "issued (pf_world f) \<subseteq> issued w1" by (rule growsD [OF neutron_grows(2) [OF ok'] dp])
  then show "issued (pf_world f) \<subseteq> issued (pf_world f')"
    using run [unfolded PortFactory_Dispose_run dp]
    by (auto split: if_splits outcome.splits option.splits)
  show "factory_ok issued f'"
    using run [unfolded PortFactory_Dispose_run dp] ok
    by (auto simp: factory_ok_def split: if_splits outcome.splits option.splits)
qed

interpretation ports: object_factory port_factory "factory_ok issued" "\<lambda>f. issued (pf_world f)"
  for issued :: "'w \<Rightarrow> string set"
proof
  fix e :: "'w PortFactory" and ip out e'
  assume "factory_ok issued e" "factory_Create port_factory ip e = (out, e')"
  then show "factory_ok issued e' \<and> issued (pf_world e) \<subseteq> issued (pf_world e') \<and>
      (\<forall>r. out = Returns (Inr r) \<longrightarrow>
        GetResourceId r \<in> issued (pf_world e') \<and> GetResourceId r \<notin> issued (pf_world e))"
    using PortFactory_Create_law [of issued e ip out e'] by (simp add: port_factory_def)
next
  fix e :: "'w PortFactory" and r out' e'
  assume "factory_ok issued e" "factory_Dispose port_factory r e = (out', e')"
  then show "factory_ok issued e' \<and> issued (pf_world e) \<subseteq> issued (pf_world e')"
    using PortFactory_Dispose_law [of issued e r out' e'] by (simp add: port_factory_def)
qed

text \<open>The pool's invariant, for the pool over this factory.\<close>

definition pool_ok :: "('w \<Rightarrow> string set) \<Rightarrow> 'w PortFactory SimpleObjectPool \<Rightarrow> bool" where
  "pool_ok issued = guarded port_factory (factory_ok issued) (\<lambda>f. issued (pf_world f))"

end
