(* ===== verification/Samples.thy ===== *)
theory Samples
  imports Port_Factory
begin

section \<open>Concrete inputs\<close>

text \<open>
  Ports, queue items and a small simulation of the port service, on which the properties are
  applied to concrete inputs. The simulated service numbers the ports it creates; a variant of
  it refuses all deletions.
\<close>

definition sample_port :: "string \<Rightarrow> string \<Rightarrow> Port" where
  "sample_port rid ip =
     \<lparr>port_Name = ''rubble-port'', port_ID = rid, port_SubnetID = ''sn'', port_MAC = ''m'',
      port_IP = ip, port_CIDR = ''10.0.0.0/24'', port_Gateway = ''10.0.0.1'', port_MTU = 1500,
      port_Sgs = []\<rparr>"

definition sample_item :: "string \<Rightarrow> int \<Rightarrow> poolItem" where
  "sample_item rid t = \<lparr>item_res = PortResource (sample_port rid ''10.0.0.9''), item_reverse = t\<rparr>"

lemma sample_sel [simp]:
  "port_ID (sample_port rid ip) = rid" "port_IP (sample_port rid ip) = ip"
  "port_CIDR (sample_port rid ip) = ''10.0.0.0/24''" "port_Gateway (sample_port rid ip) = ''10.0.0.1''"
  "item_reverse (sample_item rid t) = t" "GetResourceId (item_res (sample_item rid t)) = rid"
  by (simp_all add: sample_port_def sample_item_def)

subsection \<open>A simulated port service\<close>

record sim =
  sim_created :: "PortCreate list"
  sim_deleted :: "string list"

definition sim_id :: "nat \<Rightarrow> string" where
  "sim_id n = CHR ''p'' # replicate n CHR ''i''"

definition sim_port :: "PortCreate \<Rightarrow> nat \<Rightarrow> NPort" where
  "sim_port opts n =
     \<lparr>np_Name = pc_Name opts, np_ID = sim_id n, np_MACAddress = ''m'',
      np_FixedIPs = pc_FixedIPs opts, np_SecurityGroups = [], np_Status = ''ACTIVE''\<rparr>"

definition sim_live :: "sim \<Rightarrow> NPort list" where
  "sim_live w = map (\<lambda>n. sim_port (sim_created w ! n) n)
     [n \<leftarrow> [0..<length (sim_created w)]. sim_id n \<notin> set (sim_deleted w)]"

definition sim_subnet :: Subnet where
  "sim_subnet = \<lparr>sub_ID = ''sn'', sub_Name = ''pods'', sub_CIDR = ''10.0.0.0/24'', sub_GatewayIP = ''10.0.0.1''\<rparr>"

definition sim_api :: "sim ServiceClient" where
  "sim_api =
     \<lparr>ports_Create = (\<lambda>opts w. (Returns (Inr (sim_port opts (length (sim_created w)))),
         w\<lparr>sim_created := sim_created w @ [opts]\<rparr>)),
      ports_Delete = (\<lambda>rid w. (Returns None, w\<lparr>sim_deleted := rid # sim_deleted w\<rparr>)),
      ports_Get = (\<lambda>rid w. (Returns (case find (\<lambda>p. np_ID p = rid) (sim_live w) of
         None \<Rightarrow> Inl (Foreign ''missing'') | Some p \<Rightarrow> Inr p), w)),
      ports_Update = (\<lambda>rid b w. (Returns None, w)),
      ports_List = (\<lambda>opts w. (Returns ([(sim_live w, None)], None), w)),
      networks_Get = (\<lambda>rid w. (Returns (Inr \<lparr>net_ID = rid, net_Name = ''net''\<rparr>), w)),
      networks_AllPages = (\<lambda>rid w. (Returns (Inr rid), w)),
      networks_ExtractInto = (\<lambda>body. Inr [\<lparr>nm_ID = body, nm_MTU = 1500\<rparr>]),
      networks_Extract = (\<lambda>body. Returns ([\<lparr>net_ID = ''n1'', net_Name = ''net''\<rparr>], None)),
      subnets_Get = (\<lambda>rid w. (Returns (Inr sim_subnet), w)),
      subnets_AllPages = (\<lambda>w. (Returns (Inr ''''), w)),
      subnets_Extract = (\<lambda>body. Returns ([sim_subnet], None)),
      tags_Add = (\<lambda>ty rid tag w. (Returns None, w))\<rparr>"

definition sim_issued :: "sim \<Rightarrow> string set" where
  "sim_issued w = sim_id ` {..<length (sim_created w)}"

lemma sim_id_inj [simp]: "sim_id m = sim_id n \<longleftrightarrow> m = n"
  by (simp add: sim_id_def)

lemma sim_neutron_ok: "neutron_ok sim_issued sim_api"
proof -
  have "map np_ID (sim_live w) = map sim_id [n \<leftarrow> [0..<length (sim_created w)]. sim_id n \<notin> set (sim_deleted w)]"
    for w by (simp add: sim_live_def sim_port_def)
  then have live: "distinct (map np_ID (sim_live w))" for w
    by (simp add: distinct_map inj_on_def)
  show ?thesis
    using live
    by (auto simp: neutron_ok_def grows_def sim_api_def sim_issued_def sim_port_def sim_live_def sim_id_def)
qed

definition sim_api_refusing :: "sim ServiceClient" where
  "sim_api_refusing = sim_api\<lparr>ports_Delete := (\<lambda>rid w. (Returns (Some (Foreign ''conflict'')), w))\<rparr>"

definition sim_client :: "sim Client" where
  "sim_client = \<lparr>networkCliV2 = sim_api, podsDeleteLock = False, portIDs = []\<rparr>"

definition sim_world :: sim where
  "sim_world = \<lparr>sim_created = [], sim_deleted = []\<rparr>"

text \<open>A factory on that service, and a pool of capacity four with two idle and one resource in use.\<close>

definition sim_factory :: "sim \<Rightarrow> sim PortFactory" where
  "sim_factory w =
     \<lparr>pf_client = sim_client, pf_netID = ''n1'', pf_subnetID = ''sn'', pf_nodeName = ''node'',
      pf_vmUUID = ''vm'', pf_projectID = ''prj'', pf_ports = [], pf_locked = False,
      pf_world = w, pf_rand = sconst 0\<rparr>"

lemma sim_factory_ok [simp]: "factory_ok sim_issued (sim_factory w)"
  using sim_neutron_ok by (simp add: factory_ok_def sim_factory_def sim_client_def)

definition sim_req :: PortCreate where
  "sim_req = \<lparr>pc_Name = ''x'', pc_NetworkID = ''n1'',
     pc_FixedIPs = [\<lparr>fip_SubnetID = ''sn'', fip_IPAddress = ''10.0.0.9''\<rparr>],
     pc_SecurityGroups = None, pc_DeviceOwner = DeviceOwner, pc_DeviceID = ''''\<rparr>"

definition sim_pool :: "sim PortFactory SimpleObjectPool" where
  "sim_pool =
     \<lparr>inuse = [(sim_id 0, PortResource (sample_port (sim_id 0) ''10.0.0.2''))],
      idle = \<lparr>slots = [Some (sample_item (sim_id 1) 5), Some (sample_item (sim_id 2) 7), None],
              qsize = 2, qcapacity = 3\<rparr>,
      locked = False, factory = port_factory, maxIdle = 1, minIdle = 0, capacity = 4, tokens = 1,
      tokenCap = 4, tickerWaiting = True, clock = sconst 10,
      env = sim_factory (sim_world\<lparr>sim_created := replicate 3 sim_req\<rparr>)\<rparr>"

lemma sim_pool_wf [simp]: "pool_wf sim_pool"
  by (auto simp: pool_wf_def sim_pool_def queue_wf_def gmap_ok_def less_2_cases_iff)

lemma sim_pool_ids [simp]:
  "idle_ids sim_pool = {#sim_id 1, sim_id 2#}" "inuse_ids sim_pool = {#sim_id 0#}"
  by (simp_all add: idle_ids_def inuse_ids_def sim_pool_def queue_items_def item_id_def)

lemma sim_pool_guarded: "guarded port_factory (factory_ok sim_issued) (\<lambda>f. sim_issued (pf_world f)) sim_pool"
proof -
  have "exclusive sim_pool" by (auto simp: exclusive_def held_def)
  moreover have "set_mset (held sim_pool) \<subseteq> sim_issued (pf_world (env sim_pool))"
  proof -
    have "sim_issued (pf_world (env sim_pool)) = sim_id ` {..<3}"
      by (simp add: sim_issued_def sim_pool_def sim_factory_def)
    moreover have "set_mset (held sim_pool) = {sim_id 0, sim_id 1, sim_id 2}"
      by (auto simp: held_def)
    ultimately show ?thesis by auto
  qed
  moreover have "slack sim_pool = 0"
    by (simp add: slack_def sim_pool_def pool_size_def idle_size_def PriorityQueue_Size_def)
  ultimately show ?thesis
    by (simp add: guarded_def pool_safe_def) (simp add: sim_pool_def)
qed

definition sim_ctx :: Context where
  "sim_ctx = \<lparr>ctx_done = False, ctx_prefers_token = True, ctx_Err = None\<rparr>"

lemma sim_create:
  assumes "networkCliV2 (pf_client f) = sim_api" "\<not> pf_locked f"
  shows "\<exists>r e. PortFactory_Create ip f = (Returns (Inr r), e) \<and>
    GetResourceId r = sim_id (length (sim_created (pf_world f))) \<and> GetIPAddress r = ip"
  using assms
  by (simp add: PortFactory_Create_run Let_def CreatePort_def getSubnetAsync_def getNetworkAsync_def
      GetSubnet_def getNetwork_def sim_api_def sim_port_def create_opts_def AddTag_def sim_subnet_def)

text \<open>The same pool with nothing idle.\<close>

definition sim_busy :: "sim PortFactory SimpleObjectPool" where
  "sim_busy = sim_pool\<lparr>idle := NewPriorityQueue\<rparr>"

lemma sim_busy_guarded:
  "guarded port_factory (factory_ok sim_issued) (\<lambda>f. sim_issued (pf_world f)) sim_busy"
proof -
  have ids: "idle_ids sim_busy = {#}" "inuse_ids sim_busy = {#sim_id 0#}"
    using NewPriorityQueue_wf(2) sim_pool_ids(2) by (simp_all add: idle_ids_def inuse_ids_def sim_busy_def)
  have sub: "held sim_busy = {#sim_id 0#}" by (simp add: held_def ids)
  have "slack sim_busy = 2"
    by (simp add: slack_def sim_busy_def sim_pool_def pool_size_def idle_size_def
        PriorityQueue_Size_def NewPriorityQueue_def)
  moreover have "pool_wf sim_busy"
    using sim_pool_wf NewPriorityQueue_wf(1) by (simp add: pool_wf_def sim_busy_def)
  moreover have "set_mset (held sim_busy) \<subseteq> sim_issued (pf_world (env sim_busy))"
  proof -
    have "sim_issued (pf_world (env sim_busy)) = sim_id ` {..<3}"
      by (simp add: sim_issued_def sim_busy_def sim_pool_def sim_factory_def)
    then show ?thesis by (simp add: sub)
  qed
  ultimately show ?thesis
    by (simp add: guarded_def pool_safe_def exclusive_def sub)
      (simp add: sim_busy_def sim_pool_def)
qed

lemma sim_CreatePort:
  "networkCliV2 c = sim_api \<Longrightarrow> \<exists>p w'. CreatePort c opts w = (Returns (Inr p), w')"
  by (simp add: CreatePort_def getSubnetAsync_def getNetworkAsync_def GetSubnet_def getNetwork_def
      sim_api_def sim_port_def)

text \<open>And with all its tokens, wanting two idle resources.\<close>

definition sim_short :: "sim PortFactory SimpleObjectPool" where
  "sim_short = sim_busy\<lparr>tokens := 3, minIdle := 2\<rparr>"

lemma sim_short_guarded:
  "guarded port_factory (factory_ok sim_issued) (\<lambda>f. sim_issued (pf_world f)) sim_short" "balanced sim_short"
proof -
  have sl: "slack sim_busy = 2" "tokens sim_busy = 1"
    by (simp_all add: slack_def sim_busy_def sim_pool_def pool_size_def idle_size_def
        PriorityQueue_Size_def NewPriorityQueue_def)
  have m: "pool_safe fac finv known (s\<lparr>minIdle := n\<rparr>) = pool_safe fac finv known s"
    "slack (s\<lparr>minIdle := n\<rparr>) = slack s" "balanced (s\<lparr>minIdle := n\<rparr>) = balanced s"
    for fac finv known n and s :: "sim PortFactory SimpleObjectPool"
    by (simp_all add: pool_safe_def pool_wf_def exclusive_def held_def idle_ids_def inuse_ids_def
        slack_def pool_size_def idle_size_def balanced_def)
  show "guarded port_factory (factory_ok sim_issued) (\<lambda>f. sim_issued (pf_world f)) sim_short"
    using sim_busy_guarded sl by (simp add: guarded_def m sim_short_def)
  show "balanced sim_short"
    using sl by (simp add: m sim_short_def balanced_slack) (simp add: sim_busy_def sim_pool_def)
qed

end
