(* ===== verification/Queue_Properties.thy ===== *)
theory Queue_Properties
  imports Samples
begin

section \<open>Properties of the idle queues\<close>

text \<open>
  The priority queue is a priority queue as long as nothing is taken from its middle; \<open>Rob\<close>
  takes exactly the item asked for but may leave the queue out of order.
\<close>

lemma Rob_keeps_order:
  assumes wf: "queue_wf q" and ord: "due_ordered q"
    and i: "first_pos rid (queue_items q) 0 = Some i"
    and late: "i = 0 \<or> item_reverse (queue_items q ! parent i) \<le> item_reverse (last (queue_items q))"
    and rob: "PriorityQueue_Rob q rid = Some (x, q')"
  shows "due_ordered q'"
proof -
  let ?xs = "queue_items q"
  obtain y rest where h: "holds q ?xs (y # rest)" by (rule queue_wf_rest [OF wf])
  obtain q2 z where q2: "PriorityQueue_Rob q rid = Some (Some (?xs ! i), q2)"
    "holds q2 (sift_down item_reverse (fill_hole ?xs i) i) (z # y # rest)"
    using PriorityQueue_Rob_computes [OF h i] by blast
  have pos: "i < length ?xs" using first_pos_Some [OF i] by simp
  then have "last ?xs = ?xs ! (length ?xs - 1)" by (intro last_conv_nth) auto
  with late have "0 < i \<Longrightarrow> i < length ?xs - 1 \<Longrightarrow>
      item_reverse (?xs ! parent i) \<le> item_reverse (?xs ! (length ?xs - 1))" by simp
  from fill_hole_except_down [of item_reverse, OF ord [unfolded due_ordered_def] pos this]
  have ex: "heap_except_down item_reverse (fill_hole ?xs i) i" .
  have "heap_list item_reverse (sift_down item_reverse (fill_hole ?xs i) i)"
    by (rule sift_down_heap [OF ex])
  then show ?thesis
    using q2(1) holds_items [OF q2(2)] rob by (simp add: due_ordered_def)
qed

lemma sift_down_stays:
  assumes "\<And>j. 0 < j \<Longrightarrow> j < length xs \<Longrightarrow> parent j = i \<Longrightarrow> key (xs ! i) \<le> key (xs ! j)"
  shows "sift_down key xs i = xs"
proof (cases "min_child key xs i")
  case None
  then show ?thesis by (subst sift_down.simps) simp
next
  case (Some m)
  note m = min_child_Some(1-3) [OF Some]
  have "key (xs ! i) \<le> key (xs ! m)" by (rule assms) (use m in auto)
  with Some show ?thesis by (subst sift_down.simps) (simp add: leD)
qed

text \<open>
  When the last item is due before the gap's parent, it is due before everything below the gap as
  well, and stays where it was put.
\<close>

lemma Rob_breaks_order:
  assumes wf: "queue_wf q" and ord: "due_ordered q"
    and i: "first_pos rid (queue_items q) 0 = Some i" "0 < i"
    and early: "item_reverse (last (queue_items q)) < item_reverse (queue_items q ! parent i)"
    and rob: "PriorityQueue_Rob q rid = Some (x, q')"
  shows "i < length (queue_items q') \<and> queue_items q' ! parent i = queue_items q ! parent i \<and>
    queue_items q' ! i = last (queue_items q) \<and> \<not> due_ordered q'"
proof -
  let ?xs = "queue_items q" and ?ys = "fill_hole (queue_items q) i"
  let ?n = "length ?xs - 1"
  have pos: "i < length ?xs" using first_pos_Some [OF i(1)] by simp
  have last: "last ?xs = ?xs ! ?n" using pos by (intro last_conv_nth) auto
  have le: "item_reverse (?xs ! parent j) \<le> item_reverse (?xs ! j)" if "0 < j" "j < length ?xs" for j
    using ord that by (simp add: due_ordered_def heap_list_def)
  have n: "i < ?n" using le [OF i(2) pos] early pos last by (cases "i = ?n") auto
  have ys: "?ys ! k = (if k = i then ?xs ! ?n else ?xs ! k)" if "k < ?n" for k
    by (rule nth_fill_hole [OF that])
  have "item_reverse (?ys ! i) \<le> item_reverse (?ys ! j)" if j: "0 < j" "j < length ?ys" "parent j = i" for j
  proof -
    have "item_reverse (?xs ! i) \<le> item_reverse (?xs ! j)" using le [of j] j by simp
    then have "item_reverse (?xs ! ?n) \<le> item_reverse (?xs ! j)" using le [OF i(2) pos] early last by simp
    moreover have "j \<noteq> i" using parent_less [OF j(1)] j(3) by simp
    ultimately show ?thesis using ys [OF n] ys [of j] j by simp
  qed
  then have down: "sift_down item_reverse ?ys i = ?ys" by (rule sift_down_stays)
  obtain y rest where h: "holds q ?xs (y # rest)" by (rule queue_wf_rest [OF wf])
  obtain q2 z where "PriorityQueue_Rob q rid = Some (Some (?xs ! i), q2)"
    "holds q2 (sift_down item_reverse ?ys i) (z # y # rest)"
    using PriorityQueue_Rob_computes [OF h i(1)] by blast
  then have items: "queue_items q' = ?ys" using rob holds_items [of q2 ?ys] down by simp
  have pi: "parent i < ?n" "parent i \<noteq> i" using n parent_less [OF i(2)] by linarith+
  have "\<not> item_reverse (?ys ! parent i) \<le> item_reverse (?ys ! i)"
    using ys [OF n] ys [OF pi(1)] pi(2) early last by simp
  then have "\<not> due_ordered q'" using items i(2) n by (auto simp: due_ordered_def heap_list_def)
  then show ?thesis using items ys [OF n] ys [OF pi(1)] pi(2) n last by simp
qed

lemma NewQueue_wf: "queue_wf NewQueue" "queue_items NewQueue = []"
  by (simp_all add: queue_wf_def queue_items_def NewQueue_def)

subsection \<open>The priority queue orders its items\<close>

text \<open>
  C9. Whatever is pushed into a new priority queue, in whatever order and however often the
  slice has to grow, popping as often as was pushed returns the same items sorted by the time
  they are due, without a panic, and leaves the queue empty.
\<close>

theorem priority_queue_sorts:
  "\<exists>q ys q'. push_all PriorityQueue_Push xs NewPriorityQueue = Some q \<and>
     drain PriorityQueue_Pop (length xs) q = Some (ys, q') \<and>
     mset ys = mset xs \<and> sorted (map item_reverse ys) \<and> queue_items q' = []"
proof -
  obtain q where q: "push_all PriorityQueue_Push xs NewPriorityQueue = Some q" "queue_wf q"
    "mset (queue_items q) = mset xs"
    using prio.push_all_law [OF NewPriorityQueue_wf(1), of xs] NewPriorityQueue_wf(2) by auto
  have ord: "due_ordered q"
    by (rule prio.push_all_ordered [OF NewPriorityQueue_wf(1,3) q(1)])
  have n: "length (queue_items q) = length xs" using q(3) by (metis size_mset)
  then obtain ys q' where d: "drain PriorityQueue_Pop (length xs) q = Some (ys, q')"
    "length ys = length xs" "mset (queue_items q) = mset ys + mset (queue_items q')"
    using prio.drain_law [OF q(2), of "length xs"] by auto
  have "length (queue_items q') = 0"
    using d(2,3) n by (metis add_cancel_left_right size_mset size_union)
  then have empty: "queue_items q' = []" by simp
  show ?thesis
    using q d empty prio.drain_sorted [OF q(2) ord d(1)] by auto
qed

text \<open>
  \<open>Pop\<close> on a non-empty queue in order returns an item that no other is due before, removes
  exactly that item, and leaves a well-formed queue in order; \<open>Peek\<close> shows the same item.
\<close>

theorem pop_returns_earliest:
  assumes "queue_wf q" "due_ordered q" "queue_items q \<noteq> []"
  shows "\<exists>x q'. PriorityQueue_Pop q = Some (Some x, q') \<and> PriorityQueue_Peek q = Some (Some x) \<and>
     queue_wf q' \<and> due_ordered q' \<and> mset (queue_items q) = add_mset x (mset (queue_items q')) \<and>
     (\<forall>y \<in> set (queue_items q). item_reverse x \<le> item_reverse y)"
proof -
  obtain q' where q': "PriorityQueue_Pop q = Some (Some (queue_items q ! 0), q')" "queue_wf q'"
    "mset (queue_items q) = add_mset (queue_items q ! 0) (mset (queue_items q'))"
    using Pop_facts [OF assms(1,3)] by metis
  with prio.pop_first [OF assms(1,2) q'(1)] Peek_facts [OF assms(1)] assms(3) show ?thesis
    by auto
qed

theorem pop_returns_earliest_witness:
  "\<exists>x q'. PriorityQueue_Pop (idle sim_pool) = Some (Some x, q') \<and>
     PriorityQueue_Peek (idle sim_pool) = Some (Some x) \<and>
     queue_wf q' \<and> due_ordered q' \<and> mset (queue_items (idle sim_pool)) = add_mset x (mset (queue_items q')) \<and>
     (\<forall>y \<in> set (queue_items (idle sim_pool)). item_reverse x \<le> item_reverse y)"
proof (rule pop_returns_earliest)
  show "queue_wf (idle sim_pool)" using sim_pool_wf by (simp add: pool_wf_def)
  show "due_ordered (idle sim_pool)"
    by (auto simp: due_ordered_def heap_list_def sim_pool_def queue_items_def less_2_cases_iff parent_def)
  show "queue_items (idle sim_pool) \<noteq> []" by (simp add: sim_pool_def queue_items_def)
qed

subsection \<open>Taking an item from the middle\<close>

text \<open>
  \<open>Rob\<close> takes an item with the id asked for, and nothing else, if there is one, and leaves
  the queue untouched and returns nil if there is none; it never panics. \<open>Find\<close> finds an item
  in exactly the same cases.
\<close>

theorem rob_takes_exactly:
  assumes "queue_wf q"
  shows "if \<exists>y \<in> set (queue_items q). GetResourceId (item_res y) = rid
     then (\<exists>x q'. PriorityQueue_Rob q rid = Some (Some x, q') \<and> queue_wf q' \<and>
             GetResourceId (item_res x) = rid \<and>
             mset (queue_items q) = add_mset x (mset (queue_items q')) \<and>
             (\<exists>f. PriorityQueue_Find q rid = Some (Some f) \<and> GetResourceId (item_res f) = rid))
     else PriorityQueue_Rob q rid = Some (None, q) \<and> PriorityQueue_Find q rid = Some None"
proof -
  obtain r where r: "PriorityQueue_Find q rid = Some r"
    "r = None \<longleftrightarrow> rid \<notin> (\<lambda>x. GetResourceId (item_res x)) ` set (queue_items q)"
    "\<And>f. r = Some f \<Longrightarrow> GetResourceId (item_res f) = rid"
    using Find_facts [OF assms, of rid] by blast
  show ?thesis
  proof (cases "\<exists>y \<in> set (queue_items q). GetResourceId (item_res y) = rid")
    case True
    then show ?thesis using prio.rob_law [OF assms] r by (cases r) auto
  next
    case False
    then show ?thesis using prio.rob_missing [OF assms, of rid] r by (cases r) auto
  qed
qed

theorem rob_takes_exactly_witness:
  "if \<exists>y \<in> set (queue_items (idle sim_pool)). GetResourceId (item_res y) = sim_id 2
     then (\<exists>x q'. PriorityQueue_Rob (idle sim_pool) (sim_id 2) = Some (Some x, q') \<and> queue_wf q' \<and>
             GetResourceId (item_res x) = sim_id 2 \<and>
             mset (queue_items (idle sim_pool)) = add_mset x (mset (queue_items q')) \<and>
             (\<exists>f. PriorityQueue_Find (idle sim_pool) (sim_id 2) = Some (Some f) \<and>
               GetResourceId (item_res f) = sim_id 2))
     else PriorityQueue_Rob (idle sim_pool) (sim_id 2) = Some (None, idle sim_pool) \<and>
       PriorityQueue_Find (idle sim_pool) (sim_id 2) = Some None"
  by (rule rob_takes_exactly) (use sim_pool_wf in \<open>simp add: pool_wf_def\<close>)

text \<open>
  C35. \<open>Rob\<close> only moves the item it puts into the gap downwards. It leaves the queue in order
  when the last item, which it puts there, is not due before the gap's parent.
\<close>

theorem rob_keeps_order:
  assumes "queue_wf q" "due_ordered q" "first_pos rid (queue_items q) 0 = Some i"
    and "i = 0 \<or> item_reverse (queue_items q ! parent i) \<le> item_reverse (last (queue_items q))"
  shows "\<exists>x q'. PriorityQueue_Rob q rid = Some (Some x, q') \<and> queue_wf q' \<and> due_ordered q'"
proof -
  have "rid \<in> (\<lambda>x. GetResourceId (item_res x)) ` set (queue_items q)"
    using first_pos_None [of rid "queue_items q"] assms(3) by auto
  then obtain x q' where q': "PriorityQueue_Rob q rid = Some (Some x, q')" "queue_wf q'"
    by (rule Rob_facts [OF assms(1)])
  with Rob_keeps_order [OF assms q'(1)] show ?thesis by blast
qed

theorem rob_keeps_order_witness:
  "\<exists>x q'. PriorityQueue_Rob (idle sim_pool) (sim_id 1) = Some (Some x, q') \<and> queue_wf q' \<and> due_ordered q'"
proof (rule rob_keeps_order [of _ _ 0])
  show "queue_wf (idle sim_pool)" using sim_pool_wf by (simp add: pool_wf_def)
  show "due_ordered (idle sim_pool)"
    by (auto simp: due_ordered_def heap_list_def sim_pool_def queue_items_def less_2_cases_iff parent_def)
  show "first_pos (sim_id 1) (queue_items (idle sim_pool)) 0 = Some 0"
    by (simp add: first_pos_def sim_pool_def queue_items_def upt_rec)
qed simp

text \<open>
  C36. Otherwise it breaks the order: when the last item is due before the gap's parent, \<open>Rob\<close>
  puts it below that parent and stops there, so that the parent stays in front of an item that is
  due earlier. The seven items of the witness show what that means: the third \<open>Pop\<close> after
  robbing \<open>d\<close> returns \<open>b\<close>, due at 10, while \<open>g\<close>, due at 2, is still queued.
\<close>

theorem rob_breaks_order:
  assumes "queue_wf q" "due_ordered q" "first_pos rid (queue_items q) 0 = Some i" "0 < i"
    and "item_reverse (last (queue_items q)) < item_reverse (queue_items q ! parent i)"
  shows "\<exists>x q'. PriorityQueue_Rob q rid = Some (Some x, q') \<and> queue_wf q' \<and> i < length (queue_items q') \<and>
     queue_items q' ! parent i = queue_items q ! parent i \<and> queue_items q' ! i = last (queue_items q) \<and>
     \<not> due_ordered q'"
proof -
  have "rid \<in> (\<lambda>x. GetResourceId (item_res x)) ` set (queue_items q)"
    using first_pos_None [of rid "queue_items q"] assms(3) by auto
  then obtain x q' where q': "PriorityQueue_Rob q rid = Some (Some x, q')" "queue_wf q'"
    by (rule Rob_facts [OF assms(1)])
  with Rob_breaks_order [OF assms q'(1)] show ?thesis by blast
qed

definition robbed_items :: "poolItem list" where
  "robbed_items =
     [sample_item ''a'' 0, sample_item ''b'' 10, sample_item ''c'' 1, sample_item ''d'' 11,
      sample_item ''e'' 12, sample_item ''f'' 13, sample_item ''g'' 2]"

theorem rob_breaks_order_witness:
  "\<exists>q x q' q''. push_all PriorityQueue_Push robbed_items NewPriorityQueue = Some q \<and>
     PriorityQueue_Rob q ''d'' = Some (Some x, q') \<and> \<not> due_ordered q' \<and>
     drain PriorityQueue_Pop 3 q' =
       Some ([sample_item ''a'' 0, sample_item ''c'' 1, sample_item ''b'' 10], q'') \<and>
     sample_item ''g'' 2 \<in> set (queue_items q'')"
proof -
  have "Option.bind (push_all PriorityQueue_Push robbed_items NewPriorityQueue)
      (\<lambda>q. Option.bind (PriorityQueue_Rob q ''d'') (\<lambda>(x, q'). Option.bind (drain PriorityQueue_Pop 3 q')
      (\<lambda>(xs, q''). Some (queue_items q, xs, queue_items q'')))) =
    Some (robbed_items, [sample_item ''a'' 0, sample_item ''c'' 1, sample_item ''b'' 10],
      [sample_item ''g'' 2, sample_item ''e'' 12, sample_item ''f'' 13])"
    by code_simp
  then obtain q x q' q'' where run: "push_all PriorityQueue_Push robbed_items NewPriorityQueue = Some q"
    "PriorityQueue_Rob q ''d'' = Some (x, q')" "queue_items q = robbed_items"
    "drain PriorityQueue_Pop 3 q' = Some ([sample_item ''a'' 0, sample_item ''c'' 1, sample_item ''b'' 10], q'')"
    "sample_item ''g'' 2 \<in> set (queue_items q'')"
    by (fastforce split: Option.bind_splits prod.splits)
  have wf: "queue_wf q" using prio.push_all_law [OF NewPriorityQueue_wf(1), of robbed_items] run(1) by auto
  have ord: "due_ordered q" by (rule prio.push_all_ordered [OF NewPriorityQueue_wf(1,3) run(1)])
  have pos: "first_pos ''d'' (queue_items q) 0 = Some 3"
    unfolding run(3) first_pos_def by code_simp
  have late: "item_reverse (last (queue_items q)) < item_reverse (queue_items q ! parent 3)"
    unfolding run(3) by code_simp
  have "\<exists>y p. PriorityQueue_Rob q ''d'' = Some (Some y, p) \<and> \<not> due_ordered p"
    using rob_breaks_order [OF wf ord pos _ late] by auto
  then show ?thesis using run by auto
qed

subsection \<open>The plain queue\<close>

text \<open>
  The plain queue loses and invents nothing, but it is no FIFO queue: popping after three
  pushes returns the first and then the last of them.
\<close>

theorem plain_queue_is_a_bag:
  "(\<exists>q ys q'. push_all Queue_Push xs NewQueue = Some q \<and>
      drain Queue_Pop (length xs) q = Some (ys, q') \<and> mset ys = mset xs \<and> queue_items q' = []) \<and>
   (\<exists>q q'. push_all Queue_Push [sample_item ''a'' 0, sample_item ''b'' 1, sample_item ''c'' 2] NewQueue = Some q \<and>
      drain Queue_Pop 2 q = Some ([sample_item ''a'' 0, sample_item ''c'' 2], q'))"
proof
  obtain q where q: "push_all Queue_Push xs NewQueue = Some q" "queue_wf q"
    "mset (queue_items q) = mset xs"
    using plain.push_all_law [OF NewQueue_wf(1), of xs] NewQueue_wf(2) by auto
  have n: "length (queue_items q) = length xs" using q(3) by (metis size_mset)
  then obtain ys q' where d: "drain Queue_Pop (length xs) q = Some (ys, q')"
    "length ys = length xs" "mset (queue_items q) = mset ys + mset (queue_items q')"
    using plain.drain_law [OF q(2), of "length xs"] by auto
  have "length (queue_items q') = 0"
    using d(2,3) n by (metis add_cancel_left_right size_mset size_union)
  then show "\<exists>q ys q'. push_all Queue_Push xs NewQueue = Some q \<and>
      drain Queue_Pop (length xs) q = Some (ys, q') \<and> mset ys = mset xs \<and> queue_items q' = []"
    using q d by auto
  show "\<exists>q q'. push_all Queue_Push [sample_item ''a'' 0, sample_item ''b'' 1, sample_item ''c'' 2] NewQueue = Some q \<and>
      drain Queue_Pop 2 q = Some ([sample_item ''a'' 0, sample_item ''c'' 2], q')"
    by (simp add: NewQueue_def Queue_Push_def slot_set_def slot_at_def grow_def Queue_Pop_def
        eval_nat_numeral)
qed

end
