(* ===== verification/Pool_Properties.thy ===== *)
theory Pool_Properties
  imports Samples
begin

section \<open>Properties of the object pool\<close>

text \<open>
  The pool over its real factory, the \<open>PortFactory\<close>. \<open>pool_ok\<close> is the invariant the library
  proves for it: the facts of the interpretation \<open>ports\<close> instantiated.
\<close>

lemma pool_okD:
  assumes "pool_ok issued s"
  shows "pool_wf s" "\<forall>x. count (held s) x \<le> 1" "int (tokens s) + pool_size s \<le> capacity s"
    "queue_wf (idle s)" "factory s = port_factory" "factory_ok issued (env s)"
  using guardedD(1,4) [OF assms [unfolded pool_ok_def]]
  by (auto simp: pool_safe_def exclusive_def pool_wf_def)

lemma sim_pool_ok: "pool_ok sim_issued sim_pool"
  unfolding pool_ok_def by (rule sim_pool_guarded)

lemma sim_pool_simps:
  "\<not> locked sim_pool" "tokens sim_pool = 1" "capacity sim_pool = 4" "pool_size sim_pool = 3"
  "idle_size sim_pool = 2" "clock sim_pool = sconst 10" "maxIdle sim_pool = 1"
  "queue_items (idle sim_pool) = [sample_item (sim_id 1) 5, sample_item (sim_id 2) 7]"
  "gmap_get (inuse sim_pool) (sim_id 0) = Some (PortResource (sample_port (sim_id 0) ''10.0.0.2''))"
  by (simp_all add: sim_pool_def pool_size_def idle_size_def PriorityQueue_Size_def queue_items_def
      gmap_get_def)

lemma sim_pool_balanced: "balanced sim_pool"
  by (simp add: balanced_def sim_pool_simps) (simp add: sim_pool_def)

subsection \<open>Any calls in any order\<close>

text \<open>
  C5. Whatever calls are made of a pool, in any order and with any outcome, including calls
  that block or panic midway: no resource is ever held twice (in use and idle at once, or idle
  twice), the data structures stay in order, resources and tokens together never exceed the
  capacity; and as long as every call returned, the tokens are exactly the capacity less the
  resources, as the comment on \<open>tokenCh\<close> says.
\<close>

theorem pool_stays_safe:
  assumes "pool_ok issued s" "run_calls cs s = (all_returned, t)"
  shows "pool_ok issued t \<and> pool_wf t \<and> (\<forall>x. count (held t) x \<le> 1) \<and> capacity t = capacity s \<and>
     int (tokens t) + pool_size t \<le> capacity s \<and>
     (balanced s \<and> all_returned \<longrightarrow> int (tokens t) + pool_size t = capacity s)"
proof -
  have r: "pool_ok issued t" "capacity t = capacity s" "all_returned \<longrightarrow> slack t = slack s"
    using ports.run_calls_settles [of issued s cs all_returned t] assms by (simp_all add: pool_ok_def)
  then show ?thesis
    using pool_okD [OF r(1)] by (auto simp: balanced_slack) (simp add: slack_def)
qed

theorem pool_stays_safe_witness:
  "\<exists>b t. run_calls [CallRelease (sim_id 0) 0, CallAcquire sim_ctx (sim_id 2), CallTick 5] sim_pool = (b, t) \<and>
     pool_ok sim_issued t \<and> int (tokens t) + pool_size t \<le> 4"
proof -
  obtain b t where r: "run_calls [CallRelease (sim_id 0) 0, CallAcquire sim_ctx (sim_id 2), CallTick 5]
      sim_pool = (b, t)" by (metis prod.exhaust)
  have "pool_ok sim_issued t \<and> int (tokens t) + pool_size t \<le> 4"
    using pool_stays_safe [OF sim_pool_ok r] sim_pool_simps(3) by simp
  with r show ?thesis by blast
qed

subsection \<open>Acquire\<close>

text \<open>
  C37. With idle resources, \<open>Acquire\<close> returns one of them at once: the one asked for, if it is
  idle, and otherwise the head of the queue. The resource moves from the idle queue to the map
  of those in use; nothing else of the pool changes and the factory is not called.
\<close>

theorem acquire_prefers_idle:
  assumes "pool_ok issued s" "\<not> locked s" "idle_ids s \<noteq> {#}"
  shows "\<exists>item q. Acquire ctx resId s = (Returns (Inr (item_res item)),
       s\<lparr>idle := q, inuse := gmap_put (inuse s) (item_id item) (item_res item)\<rparr>) \<and>
     mset (queue_items (idle s)) = add_mset item (mset (queue_items q)) \<and>
     (resId \<noteq> '''' \<and> resId \<in># idle_ids s \<longrightarrow> item_id item = resId) \<and>
     (resId = '''' \<or> resId \<notin># idle_ids s \<longrightarrow> PriorityQueue_Peek (idle s) = Some (Some item)) \<and>
     item_id item \<notin># inuse_ids s"
proof -
  note ok = pool_okD [OF assms(1)]
  obtain item q where r: "Acquire ctx resId s = (Returns (Inr (item_res item)),
       s\<lparr>idle := q, inuse := gmap_put (inuse s) (item_id item) (item_res item)\<rparr>)"
    "item \<in> set (queue_items (idle s))"
    "mset (queue_items (idle s)) = add_mset item (mset (queue_items q))"
    "resId \<noteq> '''' \<and> resId \<in># idle_ids s \<longrightarrow> item_id item = resId"
    "resId = '''' \<or> resId \<notin># idle_ids s \<longrightarrow> item = queue_items (idle s) ! 0"
    by (rule Acquire_idle_run [OF assms(2) ok(1) assms(3)])
  have "item_id item \<in># idle_ids s" using r(2) by (simp add: set_idle_ids)
  then have "0 < count (idle_ids s) (item_id item)" by (rule count_greater_zero_iff [THEN iffD2])
  moreover have "count (idle_ids s) (item_id item) + count (inuse_ids s) (item_id item) \<le> 1"
    using spec [OF ok(2), of "item_id item"] by (simp add: held_def)
  ultimately have "item_id item \<notin># inuse_ids s" unfolding not_in_iff by linarith
  moreover have "PriorityQueue_Peek (idle s) = Some (Some item)"
    if "resId = '''' \<or> resId \<notin># idle_ids s"
    using r(2) mp [OF r(5) that] Peek_facts [OF ok(4)] by (cases "queue_items (idle s)") simp_all
  ultimately show ?thesis using r(1,3,4) by blast
qed

theorem acquire_prefers_idle_witness:
  "\<exists>item q. Acquire sim_ctx (sim_id 2) sim_pool =
      (Returns (Inr (item_res item)),
       sim_pool\<lparr>idle := q, inuse := gmap_put (inuse sim_pool) (item_id item) (item_res item)\<rparr>) \<and>
     item_id item = sim_id 2"
proof -
  have "\<not> locked sim_pool" "idle_ids sim_pool \<noteq> {#}" "sim_id 2 \<noteq> '''' \<and> sim_id 2 \<in># idle_ids sim_pool"
    by (simp_all add: sim_pool_simps) (simp add: sim_id_def)
  with acquire_prefers_idle [OF sim_pool_ok, of _ "sim_id 2"] show ?thesis by blast
qed

text \<open>
  C23. With nothing idle, what \<open>Acquire\<close> does depends on the room in the pool, the tokens and the
  context: a full pool is an error; with a token and the context alive a new resource is
  created, put in use and the token is consumed, while a failing creation gives the token back
  and reports the factory's error; a finished context is an error; with neither a token nor a
  finished context the call waits. Only the creation changes the pool.
\<close>

theorem acquire_without_idle:
  assumes "pool_ok issued s" "\<not> locked s" "idle_ids s = {#}"
  shows "Acquire ctx resId s =
    (if capacity s \<le> pool_size s then (Returns (Inl ErrNoAvailableResource), s)
     else if 0 < tokens s \<and> (ctx_done ctx \<longrightarrow> ctx_prefers_token ctx) then
       (case PortFactory_Create '''' (env s) of
          (Returns (Inr res), e) \<Rightarrow> (Returns (Inr res), s\<lparr>tokens := tokens s - 1, env := e,
             inuse := gmap_put (inuse s) (GetResourceId res) res\<rparr>)
        | (Returns (Inl err), e) \<Rightarrow>
            (Returns (Inl (Errorf ''error create from factory: '' (Some err))), s\<lparr>env := e\<rparr>)
        | (Halts h, e) \<Rightarrow> (Halts h, s\<lparr>tokens := tokens s - 1, env := e\<rparr>))
     else if ctx_done ctx then (Returns (Inl ErrContextDone), s)
     else (Halts Blocked, s))"
proof -
  note ok = pool_okD [OF assms(1)] and qwf = pool_okD(4) [OF assms(1)]
  show ?thesis
  proof (cases "capacity s \<le> pool_size s")
    case True
    then show ?thesis using Acquire_full_run [OF assms(2) qwf assms(3)] by simp
  next
    case False
    then have room: "pool_size s < capacity s" by simp
    note pre = assms(2) qwf assms(3) room
    show ?thesis
    proof (cases "0 < tokens s \<and> (ctx_done ctx \<longrightarrow> ctx_prefers_token ctx)")
      case True
      then have tok: "0 < tokens s" "ctx_done ctx \<longrightarrow> ctx_prefers_token ctx" by auto
      have le: "tokens s \<le> tokenCap s"
        using guardedD(5) assms(1) by (auto simp: pool_ok_def)
      obtain out e where c: "PortFactory_Create '''' (env s) = (out, e)" by fastforce
      then have fc: "factory_Create (factory s) '''' (env s) = (out, e)"
        by (simp add: ok(5) port_factory_def)
      show ?thesis
      proof (cases out)
        case (Halts h)
        have "pool_Create '''' (s\<lparr>tokens := tokens s - 1\<rparr>) = (Halts h, s\<lparr>tokens := tokens s - 1, env := e\<rparr>)"
          using fc Halts by (simp add: pool_Create_def)
        then show ?thesis using tok False c Halts
          by (subst Acquire_select_run [OF pre]) (simp add: token_select_def)
      next
        case (Returns r)
        then show ?thesis
          using tok False c fc
            Acquire_create_error_run [OF pre tok(1) le tok(2)] Acquire_create_run [OF pre tok]
          by (cases r) auto
      qed
    next
      case nosel: False
      then show ?thesis
        using False Acquire_context_done_run [OF pre] Acquire_waits_run [OF pre]
        by (cases "ctx_done ctx") auto
    qed
  qed
qed

lemma sim_busy_ok: "pool_ok sim_issued sim_busy"
  unfolding pool_ok_def by (rule sim_busy_guarded)

theorem acquire_without_idle_witness:
  "\<exists>r t. Acquire sim_ctx '''' sim_busy = (Returns (Inr r), t) \<and> GetResourceId r = sim_id 3 \<and>
     tokens t = 0 \<and> gmap_get (inuse t) (sim_id 3) = Some r"
proof -
  have "networkCliV2 (pf_client (env sim_busy)) = sim_api" "\<not> pf_locked (env sim_busy)"
    by (simp_all add: sim_busy_def sim_pool_def sim_factory_def sim_client_def)
  from sim_create [OF this, of "''''"] obtain r e where
    r: "PortFactory_Create '''' (env sim_busy) = (Returns (Inr r), e)" "GetResourceId r = sim_id 3"
    by (auto simp: sim_busy_def sim_pool_def sim_factory_def)
  have pre: "\<not> locked sim_busy" "idle_ids sim_busy = {#}"
    using NewPriorityQueue_wf(2) by (simp_all add: sim_busy_def sim_pool_def idle_ids_def)
  have "tokens sim_busy = 1" "pool_size sim_busy = 1" "capacity sim_busy = 4"
    by (simp_all add: sim_busy_def sim_pool_def pool_size_def idle_size_def PriorityQueue_Size_def
        NewPriorityQueue_def)
  then show ?thesis
    using acquire_without_idle [OF sim_busy_ok pre, of sim_ctx "''''"] r
    by (simp add: sim_ctx_def)
qed

subsection \<open>Release\<close>

text \<open>
  C24. On a good, unlocked pool, releasing a resource in use moves it into the idle queue, due
  again now or, with a positive reverse time, that much later; the tokens, the factory and all
  other resources stay as they are. Releasing anything else is an error and changes nothing.
\<close>

theorem release_makes_idle:
  assumes "pool_ok issued s" "\<not> locked s"
  shows "case gmap_get (inuse s) rid of
      None \<Rightarrow> ReleaseWithReverse rid d s = (Returns (Some ErrInvalidState), s)
    | Some r \<Rightarrow> (\<exists>q. ReleaseWithReverse rid d s =
          (Returns None, s\<lparr>inuse := gmap_delete (inuse s) rid, idle := q,
             tickerWaiting := False, clock := stl (clock s)\<rparr>) \<and>
        mset (queue_items q) = add_mset
          \<lparr>item_res = r, item_reverse = (if 0 < d then shd (clock s) + d else shd (clock s))\<rparr>
          (mset (queue_items (idle s))) \<and>
        (due_ordered (idle s) \<longrightarrow> due_ordered q))"
proof (cases "gmap_get (inuse s) rid")
  case None
  then have "rid \<notin># inuse_ids s" by (simp add: set_inuse_ids gmap_get_None_iff)
  then show ?thesis using None Release_missing_run [OF assms(2)] by simp
next
  case (Some r)
  obtain q where "ReleaseWithReverse rid d s = (Returns None, s\<lparr>inuse := gmap_delete (inuse s) rid,
      idle := q, tickerWaiting := False, clock := stl (clock s)\<rparr>)"
    "mset (queue_items q) = add_mset
       \<lparr>item_res = r, item_reverse = released_at (shd (clock s)) d\<rparr> (mset (queue_items (idle s)))"
    "due_ordered (idle s) \<longrightarrow> due_ordered q"
    by (rule Release_run [OF assms(2) pool_okD(1) [OF assms(1)] Some])
  then show ?thesis using Some by (auto simp: released_at_def)
qed

theorem release_makes_idle_witness:
  "(\<exists>q. ReleaseWithReverse (sim_id 0) 3 sim_pool =
      (Returns None, sim_pool\<lparr>inuse := gmap_delete (inuse sim_pool) (sim_id 0), idle := q,
         tickerWaiting := False, clock := stl (clock sim_pool)\<rparr>) \<and>
      mset (queue_items q) = add_mset
        \<lparr>item_res = PortResource (sample_port (sim_id 0) ''10.0.0.2''), item_reverse = 13\<rparr>
        (mset (queue_items (idle sim_pool)))) \<and>
   ReleaseWithReverse ''x'' 3 sim_pool = (Returns (Some ErrInvalidState), sim_pool)"
proof -
  have missing: "gmap_get (inuse sim_pool) ''x'' = None"
    by (simp add: sim_pool_def gmap_get_def sim_id_def)
  show ?thesis
    using release_makes_idle [OF sim_pool_ok sim_pool_simps(1), of "sim_id 0" 3]
      release_makes_idle [OF sim_pool_ok sim_pool_simps(1), of "''x''" 3] missing
    by (auto simp: sim_pool_simps)
qed

text \<open>
  C38. A round trip: the pod that releases its address and comes back asking for it, before
  anyone else calls, gets the same resource again, whatever the time it was to be kept; the
  pool then holds exactly what it held.
\<close>

theorem release_then_acquire:
  assumes "pool_ok issued s" "\<not> locked s" "gmap_get (inuse s) rid = Some r" "rid \<noteq> ''''"
  shows "\<exists>u t. ReleaseWithReverse rid d s = (Returns None, u) \<and> rid \<notin># inuse_ids u \<and>
     Acquire ctx rid u = (Returns (Inr r), t) \<and> gmap_get (inuse t) rid = Some r \<and>
     held t = held s \<and> tokens t = tokens s \<and> env t = env s \<and> \<not> locked t"
proof -
  note ok = pool_okD [OF assms(1)]
  obtain q where q: "ReleaseWithReverse rid d s = (Returns None, s\<lparr>inuse := gmap_delete (inuse s) rid,
      idle := q, tickerWaiting := False, clock := stl (clock s)\<rparr>)" "queue_wf q"
    "mset (queue_items q) = add_mset
       \<lparr>item_res = r, item_reverse = released_at (shd (clock s)) d\<rparr> (mset (queue_items (idle s)))"
    by (rule Release_run [OF assms(2) ok(1) assms(3)])
  let ?u = "s\<lparr>inuse := gmap_delete (inuse s) rid, idle := q, tickerWaiting := False, clock := stl (clock s)\<rparr>"
  have "settles port_factory (factory_ok issued) (\<lambda>f. issued (pf_world f)) 0 s
      (ReleaseWithReverse rid d s)"
    using ports.Release_settles [of issued s] assms(1) by (simp add: pool_ok_def)
  then have u: "pool_ok issued ?u" unfolding q(1) pool_ok_def by (rule settles_guarded)
  note uok = pool_okD [OF u]
  have rid: "GetResourceId r = rid" using pool_wfD(3) [OF ok(1) assms(3)] .
  have free: "\<not> locked ?u" using assms(2) by simp
  have "idle_ids ?u = add_mset rid (idle_ids s)"
    using q(3) rid by (simp add: idle_ids_def item_id_def)
  then have mem: "rid \<in># idle_ids ?u" "idle_ids ?u \<noteq> {#}" by simp_all
  obtain item q2 where a: "Acquire ctx rid ?u = (Returns (Inr (item_res item)),
       ?u\<lparr>idle := q2, inuse := gmap_put (inuse ?u) (item_id item) (item_res item)\<rparr>)" "queue_wf q2"
    "item \<in> set (queue_items (idle ?u))"
    "mset (queue_items (idle ?u)) = add_mset item (mset (queue_items q2))"
    "rid \<noteq> '''' \<and> rid \<in># idle_ids ?u \<longrightarrow> item_id item = rid"
    by (rule Acquire_idle_run [OF free uok(1) mem(2)])
  have iid: "item_id item = rid" using a(5) assms(4) mem(1) by blast
  have only: "item_res item = r"
  proof -
    let ?i = "\<lparr>item_res = r, item_reverse = released_at (shd (clock s)) d\<rparr>"
    have "?i \<in># mset (queue_items q)" by (simp add: q(3))
    then have "?i \<in> set (queue_items (idle ?u))" by simp
    with unique_idle [OF uok(2) a(3)] have "item = ?i" using iid rid by (simp add: item_id_def)
    then show ?thesis by simp
  qed
  note ex = pool_okD(2) [OF u, folded exclusive_def]
  note m = move_to_inuse [OF uok(1) ex a(2,4)] move_to_idle(1) [OF ok(1) assms(3) q(2,3)]
  have "rid \<notin># inuse_ids ?u"
    by (simp add: inuse_ids_def gmap_delete_def image_iff AList.delete_eq)
  then show ?thesis using q(1) a(1) iid only m free by (auto simp: held_def idle_ids_def inuse_ids_def)
qed

theorem release_then_acquire_witness:
  "\<exists>u t. ReleaseWithReverse (sim_id 0) 300 sim_pool = (Returns None, u) \<and>
     Acquire sim_ctx (sim_id 0) u = (Returns (Inr (PortResource (sample_port (sim_id 0) ''10.0.0.2''))), t)"
proof -
  have "sim_id 0 \<noteq> ''''" by (simp add: sim_id_def)
  from release_then_acquire [OF sim_pool_ok sim_pool_simps(1,9) this] show ?thesis by blast
qed

text \<open>\<open>Stat\<close> tells exactly whether the pool holds a resource, in use or idle, and changes nothing.\<close>

theorem stat_tells_what_is_held:
  assumes "pool_ok issued s" "\<not> locked s"
  shows "Stat rid s = (Returns (if rid \<in># inuse_ids s \<or> rid \<in># idle_ids s then None else Some ErrNotFound), s)"
  using Stat_run [OF assms(2) pool_okD(1) [OF assms(1)], of rid] by (simp add: held_def disj_commute)

theorem stat_tells_what_is_held_witness:
  "Stat (sim_id 1) sim_pool = (Returns None, sim_pool) \<and>
   Stat (sim_id 9) sim_pool = (Returns (Some ErrNotFound), sim_pool)"
  using stat_tells_what_is_held [OF sim_pool_ok sim_pool_simps(1)] by simp

subsection \<open>Trimming and refilling\<close>

text \<open>A port service that grants every deletion, or every read and creation.\<close>

definition deletes_succeed :: "'w ServiceClient \<Rightarrow> bool" where
  "deletes_succeed api \<longleftrightarrow> (\<forall>rid w. fst (ports_Delete api rid w) = Returns None)"

definition can_delete :: "'w PortFactory \<Rightarrow> bool" where
  "can_delete f \<longleftrightarrow> \<not> pf_locked f \<and> deletes_succeed (networkCliV2 (pf_client f))"

lemma can_delete_disposes:
  "can_delete f \<Longrightarrow> \<exists>f'. PortFactory_Dispose r f = (Returns None, f') \<and> can_delete f'"
proof -
  assume c: "can_delete f"
  then have "fst (ports_Delete (networkCliV2 (pf_client f)) (GetResourceId r) (pf_world f)) = Returns None"
    by (simp add: can_delete_def deletes_succeed_def)
  then obtain w where "ports_Delete (networkCliV2 (pf_client f)) (GetResourceId r) (pf_world f) = (Returns None, w)"
    by (metis prod.collapse)
  with c show ?thesis by (simp add: PortFactory_Dispose_run DeletePort_def can_delete_def)
qed

text \<open>
  C25. If deletions succeed, \<open>checkIdle\<close> needs no more rounds than there are idle resources and
  one, never blocks or panics, leaves the resources in use alone and disposes until there are
  no longer too many idle resources; but when it meets an item that is not due yet it returns
  with the mutex still locked.
\<close>

theorem check_idle_trims:
  assumes "pool_ok issued s" "\<not> locked s" "idle_size s < int fuel"
    and "\<not> pf_locked (env s)" "deletes_succeed (networkCliV2 (pf_client (env s)))"
  shows "\<exists>t. checkIdle fuel s = (Returns (), t) \<and> pool_ok issued t \<and> inuse t = inuse s \<and>
     (locked t \<longleftrightarrow> tooManyIdle t)"
proof -
  obtain t where t: "checkIdle fuel s = (Returns (), t)" "locked t \<longleftrightarrow> tooManyIdle t" "inuse t = inuse s"
    using ports.checkIdle_ends [of issued "can_delete" s fuel] assms can_delete_disposes
    by (auto simp: pool_ok_def port_factory_def can_delete_def)
  have "settles port_factory (factory_ok issued) (\<lambda>f. issued (pf_world f)) 0 s (checkIdle fuel s)"
    using ports.checkIdle_settles [of issued s fuel] assms(1) by (simp add: pool_ok_def)
  then show ?thesis using t by (auto simp: settles_def pool_ok_def)
qed

lemma sim_pool_env:
  "networkCliV2 (pf_client (env sim_pool)) = sim_api" "\<not> pf_locked (env sim_pool)"
  by (simp_all add: sim_pool_def sim_factory_def sim_client_def)

theorem check_idle_trims_witness:
  "\<exists>t. checkIdle 3 sim_pool = (Returns (), t) \<and> pool_ok sim_issued t \<and> (locked t \<longleftrightarrow> tooManyIdle t)"
proof -
  have "deletes_succeed sim_api" by (simp add: deletes_succeed_def sim_api_def)
  then show ?thesis
    using check_idle_trims [OF sim_pool_ok sim_pool_simps(1), of 3] sim_pool_env
    by (auto simp: sim_pool_simps)
qed

text \<open>
  C18. The early return of \<open>checkIdle\<close>: with too many idle resources and the first of them kept
  for a pod that may come back, the call returns as if all were well, and from then on every
  \<open>Acquire\<close>, \<open>Release\<close>, \<open>Stat\<close>, \<open>AddIdle\<close> and \<open>AddInuse\<close> of anybody, and the next round of the
  goroutine, blocks forever.
\<close>

theorem check_idle_leaves_mutex_locked:
  assumes "pool_ok issued s" "\<not> locked s" "tooManyIdle s"
    and "PriorityQueue_Peek (idle s) = Some (Some item)" "shd (clock s) < item_reverse item"
  shows "\<exists>t. checkIdle (Suc fuel) s = (Returns (), t) \<and>
     (\<forall>ctx rid. Acquire ctx rid t = (Halts Blocked, t)) \<and>
     (\<forall>rid d. ReleaseWithReverse rid d t = (Halts Blocked, t)) \<and>
     (\<forall>rid. Stat rid t = (Halts Blocked, t)) \<and>
     (\<forall>r. AddIdle r t = (Halts Blocked, t) \<and> AddInuse r t = (Halts Blocked, t)) \<and>
     (\<forall>n. checkIdle (Suc n) t = (Halts Blocked, t))"
proof -
  note qwf = pool_okD(4) [OF assms(1)]
  have head: "queue_items (idle s) \<noteq> []" "item = queue_items (idle s) ! 0"
    using Peek_facts [OF qwf] assms(4) by (simp_all split: if_splits)
  let ?t = "s\<lparr>locked := True, clock := stl (clock s)\<rparr>"
  have "checkIdle (Suc fuel) s = (Returns (), ?t)"
    by (rule checkIdle_early [OF assms(3,2) qwf head(1)]) (use assms(5) head(2) in simp)
  moreover have "tooManyIdle ?t" using assms(3) by (simp add: tooManyIdle_def)
  then have "checkIdle (Suc n) ?t = (Halts Blocked, ?t)" for n
    by (simp add: checkIdle_locked del: checkIdle.simps)
  moreover have "locked ?t" by simp
  ultimately show ?thesis using blocked_when_locked [of ?t] by blast
qed

theorem check_idle_leaves_mutex_locked_witness:
  "\<exists>t. checkIdle 1 (sim_pool\<lparr>clock := sconst 4\<rparr>) = (Returns (), t) \<and>
     Acquire sim_ctx (sim_id 1) t = (Halts Blocked, t)"
proof -
  let ?s = "sim_pool\<lparr>clock := sconst 4\<rparr>"
  have ok: "pool_ok sim_issued ?s" using sim_pool_ok by (simp add: pool_ok_def)
  have "PriorityQueue_Peek (idle ?s) = Some (Some (sample_item (sim_id 1) 5))"
    using Peek_facts [OF pool_okD(4) [OF ok]] by (simp add: sim_pool_simps)
  then show ?thesis
    using check_idle_leaves_mutex_locked [OF ok, of _ 0]
    by (auto simp: sim_pool_simps tooManyIdle_def)
qed

definition can_create :: "'w PortFactory \<Rightarrow> bool" where
  "can_create f \<longleftrightarrow> \<not> pf_locked f \<and> (\<forall>opts w. \<exists>p w'. CreatePort (pf_client f) opts w = (Returns (Inr p), w')) \<and>
     (\<forall>ty rid tag w. fst (AddTag (pf_client f) ty rid tag w) = Returns None)"

lemma can_create_creates:
  assumes "can_create f"
  shows "\<exists>r f'. PortFactory_Create ip f = (Returns (Inr r), f') \<and> can_create f'"
proof -
  obtain p w where "CreatePort (pf_client f) (create_opts f ip) (pf_world f) = (Returns (Inr p), w)"
    using assms unfolding can_create_def by blast
  moreover have "fst (AddTag (pf_client f) ''ports'' (port_ID p) (vm_tag (pf_vmUUID f)) w) = Returns None"
    using assms by (simp add: can_create_def)
  then obtain w2 where "AddTag (pf_client f) ''ports'' (port_ID p) (vm_tag (pf_vmUUID f)) w = (Returns None, w2)"
    by (metis prod.collapse)
  ultimately show ?thesis
    using assms by (simp add: PortFactory_Create_run Let_def can_create_def)
qed

text \<open>
  C26. A round of \<open>checkInsufficient\<close> on a pool that is unlocked and whose tokens are exactly the
  free capacity, when every creation of a port and every tagging succeeds, fills the idle queue up
  to \<open>minIdle\<close> or as far as the capacity allows, and takes nothing from those in use. (A creation
  that fails leaves its place empty and its token in the channel.)
\<close>

theorem check_insufficient_refills:
  assumes "pool_ok issued s" "balanced s" "\<not> locked s" "can_create (env s)"
  shows "\<exists>t. checkInsufficient s = (Returns (), t) \<and> pool_ok issued t \<and> balanced t \<and> inuse t = inuse s \<and>
     idle_size t = max (idle_size s) (min (minIdle s) (idle_size s + (capacity s - pool_size s)))"
proof -
  have "\<exists>r e'. factory_Create port_factory '''' e = (Returns (Inr r), e') \<and> can_create e'"
    if "can_create e" for e :: "'a PortFactory"
    using can_create_creates [OF that] by (simp add: port_factory_def)
  with ports.checkInsufficient_refills [of issued can_create s] assms obtain t where
    t: "checkInsufficient s = (Returns (), t)" "inuse t = inuse s"
      "idle_size t = max (idle_size s) (min (minIdle s) (idle_size s + (capacity s - pool_size s)))"
    by (auto simp: pool_ok_def)
  have "settles port_factory (factory_ok issued) (\<lambda>f. issued (pf_world f)) 0 s (checkInsufficient s)"
    using ports.checkInsufficient_settles [of issued s] assms(1) by (simp add: pool_ok_def)
  then show ?thesis using t assms(2) by (auto simp: settles_def pool_ok_def balanced_slack guarded_def)
qed

theorem check_insufficient_refills_witness:
  "\<exists>t. checkInsufficient sim_short = (Returns (), t) \<and> idle_size t = 2 \<and> tokens t = 1"
proof -
  have ok: "pool_ok sim_issued sim_short" using sim_short_guarded(1) by (simp add: pool_ok_def)
  have "can_create (env sim_short)"
    by (simp add: can_create_def sim_short_def sim_busy_def sim_pool_def sim_factory_def sim_client_def
        sim_CreatePort) (simp add: AddTag_def sim_api_def)
  moreover have "\<not> locked sim_short" by (simp add: sim_short_def sim_busy_def sim_pool_def)
  ultimately obtain t where t: "checkInsufficient sim_short = (Returns (), t)" "balanced t"
    "inuse t = inuse sim_short" "idle_size t = max (idle_size sim_short) (min (minIdle sim_short)
      (idle_size sim_short + (capacity sim_short - pool_size sim_short)))" "pool_ok sim_issued t"
    using check_insufficient_refills [OF ok sim_short_guarded(2)] by blast
  have c: "capacity t = 4"
    using ports.checkInsufficient_settles [of sim_issued sim_short] ok t(1)
    by (simp add: pool_ok_def settles_def sim_short_def sim_busy_def sim_pool_def)
  have "idle_size sim_short = 0" "pool_size sim_short = 1" "minIdle sim_short = 2" "capacity sim_short = 4"
    by (simp_all add: sim_short_def sim_busy_def sim_pool_def pool_size_def idle_size_def
        PriorityQueue_Size_def NewPriorityQueue_def)
  moreover have "length (inuse t) = 1" using t(3) by (simp add: sim_short_def sim_busy_def sim_pool_def)
  ultimately have "idle_size t = 2" "pool_size t = 3" using t(4) by (simp_all add: pool_size_def)
  with t(1,2) c show ?thesis by (simp add: balanced_def)
qed

subsection \<open>The constructor\<close>

text \<open>
  The initializer of a configuration, if there is one, has run without an error on the new pool
  and left a safe pool with the mutex free, no token sent and the limits untouched. With no
  initializer that is the new pool itself.
\<close>

definition initialized ::
    "('w \<Rightarrow> string set) \<Rightarrow> 'w PortFactory PoolConfig \<Rightarrow> int stream \<Rightarrow> 'w PortFactory \<Rightarrow>
     'w PortFactory SimpleObjectPool \<Rightarrow> bool" where
  "initialized issued cfg clk e s \<longleftrightarrow>
     (case cfg_Initializer cfg of None \<Rightarrow> go_return None | Some f \<Rightarrow> f) (new_pool cfg clk e) = (Returns None, s) \<and>
     pool_safe port_factory (factory_ok issued) (\<lambda>f. issued (pf_world f)) s \<and> \<not> locked s \<and> tokens s = 0 \<and>
     tokenCap s = tokenCap (new_pool cfg clk e) \<and> capacity s = capacity (new_pool cfg clk e) \<and>
     minIdle s = cfg_MinIdle cfg"

lemma initialized_None:
  assumes "cfg_Factory cfg = port_factory" "cfg_Initializer cfg = None" "factory_ok issued e"
  shows "initialized issued cfg clk e (new_pool cfg clk e)"
  using ports.new_pool_safe [OF assms(1,3), of clk] by (simp add: initialized_def assms(2)) (simp add: new_pool_def)

lemma preload_of_full:
  assumes "capacity s < pool_size s" "preload s = (Returns None, p)"
  shows "p = s"
  using assms by (simp add: preload_def send_tokens.simps)

text \<open>
  C22. What \<open>NewSimpleObjectPool\<close> returns, with or without an initializer: a pool that is safe
  and unlocked, with the resources in use that the initializer has put there, with at least the
  wanted number of idle resources or full, every idle resource put there by the initializer or
  newly created. The tokens are exactly the free capacity if what the initializer has added is
  within the capacity. If it is more, the pool is what the initializer has left, without a token,
  and the account is off by the excess.
\<close>

theorem constructor_establishes:
  assumes "initialized issued cfg clk e s" "NewSimpleObjectPool cfg clk e = Returns (Inr p)"
  shows "pool_wf p \<and> (\<forall>x. count (held p) x \<le> 1) \<and> \<not> locked p \<and> inuse p = inuse s \<and>
     (\<forall>x. x \<in># idle_ids p \<longrightarrow> x \<in># idle_ids s \<or> x \<notin> issued (pf_world (env s))) \<and>
     (cfg_MinIdle cfg \<le> idle_size p \<or> capacity p \<le> pool_size p) \<and>
     capacity p = (if cfg_Capacity cfg = 0 then 50 else cfg_Capacity cfg) \<and>
     cfg_MinIdle cfg \<le> cfg_MaxIdle cfg \<and> cfg_MaxIdle cfg \<le> cfg_Capacity cfg \<and>
     (if pool_size s \<le> capacity p then pool_ok issued p \<and> balanced p
      else p = s \<and> tokens p = 0 \<and> \<not> balanced p)"
proof -
  let ?n = "new_pool cfg clk e"
  have args: "cfg_MinIdle cfg \<le> cfg_MaxIdle cfg" "cfg_MaxIdle cfg \<le> cfg_Capacity cfg" "0 \<le> cfg_Capacity cfg"
    using assms(2) by (auto simp: NewSimpleObjectPool_def split: if_splits)
  have init: "(case cfg_Initializer cfg of None \<Rightarrow> go_return None | Some f \<Rightarrow> f) ?n = (Returns None, s)"
    and s: "pool_safe port_factory (factory_ok issued) (\<lambda>f. issued (pf_world f)) s" "\<not> locked s" "tokens s = 0"
      "capacity s = capacity ?n" "minIdle s = cfg_MinIdle cfg" "tokenCap s = tokenCap ?n"
    using assms(1) by (simp_all add: initialized_def)
  have cap: "tokenCap s = nat (capacity s)" "capacity ?n = (if cfg_Capacity cfg = 0 then 50 else cfg_Capacity cfg)"
    using s(4,6) by (simp_all add: new_pool_def DefaultCapacity_def)
  note c = ports.constructor_ends [OF init s(1-3) cap(1) s(4,5) assms(2)]
  have fine: "pool_ok issued p \<and> balanced p" if "pool_size s \<le> capacity p"
    using c(1,3,5) that by (simp add: pool_ok_def guarded_def balanced_slack)
  have full: "p = s \<and> tokens p = 0 \<and> \<not> balanced p" if "\<not> pool_size s \<le> capacity p"
  proof -
    have "preload s = (Returns None, p)"
      using assms(2) init by (auto simp: NewSimpleObjectPool_def split: if_splits prod.splits
          outcome.splits option.splits)
    then have "p = s" by (rule preload_of_full [rotated]) (use that c(3) in simp)
    then show ?thesis using s(3) that by (simp add: balanced_def)
  qed
  have account: "if pool_size s \<le> capacity p then pool_ok issued p \<and> balanced p
      else p = s \<and> tokens p = 0 \<and> \<not> balanced p" using fine full by (auto split: if_split)
  have "capacity p = (if cfg_Capacity cfg = 0 then 50 else cfg_Capacity cfg)" using c(3) s(4) cap(2) by simp
  moreover have "\<forall>x. count (held p) x \<le> 1" using pool_safeD(2) [OF c(1)] by (simp add: exclusive_def)
  ultimately show ?thesis
    by (intro conjI account pool_safeD(1) [OF c(1)] c(2,4,6) args(1,2)) (use c(7) in blast)+
qed

text \<open>Two ports in use and a capacity of five; the same two and a capacity of one.\<close>

definition sim_config :: "int \<Rightarrow> sim PortFactory PoolConfig" where
  "sim_config n =
     \<lparr>cfg_Factory = port_factory,
      cfg_Initializer = Some (go_seq (AddInuse (PortResource (sample_port (sim_id 0) ''10.0.0.2'')))
        (go_seq (AddInuse (PortResource (sample_port (sim_id 1) ''10.0.0.3''))) (go_return None))),
      cfg_MinIdle = 0, cfg_MaxIdle = n, cfg_MaxPoolSize = 0, cfg_MinPoolSize = 0, cfg_Capacity = n\<rparr>"

lemma sim_initialized:
  obtains s where "initialized sim_issued (sim_config n) clk (env sim_pool) s" "pool_size s = 2"
    "idle s = NewPriorityQueue"
proof -
  let ?r0 = "PortResource (sample_port (sim_id 0) ''10.0.0.2'')"
    and ?r1 = "PortResource (sample_port (sim_id 1) ''10.0.0.3'')"
  let ?s0 = "new_pool (sim_config n) clk (env sim_pool)"
  let ?s1 = "?s0\<lparr>inuse := gmap_put (inuse ?s0) (sim_id 0) ?r0\<rparr>"
  let ?s2 = "?s1\<lparr>inuse := gmap_put (inuse ?s1) (sim_id 1) ?r1\<rparr>"
  have free: "\<not> locked ?s0" "\<not> locked ?s1" by (simp_all add: new_pool_def)
  have add: "AddInuse ?r0 ?s0 = (Returns (), ?s1)" "AddInuse ?r1 ?s1 = (Returns (), ?s2)"
    using AddInuse_run [OF free(1), of ?r0] AddInuse_run [OF free(2), of ?r1] by simp_all
  have fac: "factory_ok sim_issued (env sim_pool)" using pool_safeD(4) [OF guardedD(1) [OF sim_pool_guarded]] .
  have safe0: "pool_safe port_factory (factory_ok sim_issued) (\<lambda>f. sim_issued (pf_world f)) ?s0"
    by (rule ports.new_pool_safe [OF _ fac]) (simp add: sim_config_def)
  have known: "sim_id 0 \<in> sim_issued (pf_world (env sim_pool))" "sim_id 1 \<in> sim_issued (pf_world (env sim_pool))"
    by (simp_all add: sim_issued_def sim_pool_def sim_factory_def)
  have held: "held ?s0 = {#}" "held ?s1 = {#sim_id 0#}"
    using NewPriorityQueue_wf(2) by (simp_all add: held_def idle_ids_def inuse_ids_def new_pool_def gmap_put_def)
  have safe1: "pool_safe port_factory (factory_ok sim_issued) (\<lambda>f. sim_issued (pf_world f)) ?s1"
    by (rule ports.AddInuse_keeps(1) [OF safe0 _ _ add(1)]) (use held(1) known in \<open>simp_all add: new_pool_def\<close>)
  have "sim_id 1 \<noteq> sim_id 0" by (simp add: sim_id_def)
  then have safe2: "pool_safe port_factory (factory_ok sim_issued) (\<lambda>f. sim_issued (pf_world f)) ?s2"
    by (intro ports.AddInuse_keeps(1) [OF safe1 _ _ add(2)]) (use held(2) known in \<open>simp_all add: new_pool_def\<close>)
  have run: "(case cfg_Initializer (sim_config n) of None \<Rightarrow> go_return None | Some f \<Rightarrow> f) ?s0 = (Returns None, ?s2)"
    using add by (simp add: sim_config_def)
  have "initialized sim_issued (sim_config n) clk (env sim_pool) ?s2"
    unfolding initialized_def using run safe2 by (simp add: new_pool_def)
  moreover have "pool_size ?s2 = 2" "idle ?s2 = NewPriorityQueue"
    using \<open>sim_id 1 \<noteq> sim_id 0\<close> by (simp_all add: pool_size_def idle_size_def new_pool_def gmap_put_def
        PriorityQueue_Size_def NewPriorityQueue_def)
  ultimately show ?thesis by (rule that)
qed

theorem constructor_establishes_witness:
  "\<exists>p q. NewSimpleObjectPool (sim_config 5) (sconst 0) (env sim_pool) = Returns (Inr p) \<and> tokens p = 3 \<and>
     NewSimpleObjectPool (sim_config 1) (sconst 0) (env sim_pool) = Returns (Inr q) \<and> tokens q = 0 \<and> pool_size q = 2"
proof -
  have "\<exists>p. NewSimpleObjectPool (sim_config n) (sconst 0) (env sim_pool) = Returns (Inr p) \<and>
      tokens p = nat (n - 2) \<and> pool_size p = 2" if "n = 5 \<or> n = 1" for n
  proof -
    obtain s where s: "initialized sim_issued (sim_config n) (sconst 0) (env sim_pool) s" "pool_size s = 2"
      "idle s = NewPriorityQueue" by (rule sim_initialized)
    have lim: "minIdle s = 0" "cfg_MinIdle (sim_config n) = 0" "cfg_MaxIdle (sim_config n) = n"
      "cfg_Capacity (sim_config n) = n" "capacity s = n" "tokens s = 0" "tokenCap s = nat n"
      using s(1) that by (auto simp: initialized_def sim_config_def new_pool_def)
    have "preload_loop 1 s = (Returns None, s)"
      using lim(1) s(3) by (simp add: idle_size_def PriorityQueue_Size_def NewPriorityQueue_def)
    then have "preload s = (Returns None, s\<lparr>tokens := nat (n - 2)\<rparr>)"
      using lim(1,5-7) s(2) ports.send_tokens_run [of s "nat (n - 2)"] that by (auto simp: preload_def)
    then have "NewSimpleObjectPool (sim_config n) (sconst 0) (env sim_pool) = Returns (Inr (s\<lparr>tokens := nat (n - 2)\<rparr>))"
      using s(1,3) lim(2-4) that
      by (auto simp: NewSimpleObjectPool_def initialized_def queueKeys_def NewPriorityQueue_def)
    moreover from constructor_establishes [OF s(1) this] have "pool_size (s\<lparr>tokens := nat (n - 2)\<rparr>) = 2"
      using s(2) by (simp add: pool_size_def idle_size_def)
    ultimately show ?thesis by auto
  qed
  from this [of 5] this [of 1] show ?thesis by auto
qed

text \<open>
  The limits are checked before the defaults are put in: with no \<open>MaxIdle\<close> given, a pool of
  capacity five is accepted and gets a \<open>maxIdle\<close> of twenty, which it can never exceed, so that
  no idle resource is ever too many while the pool is within its capacity.
\<close>

theorem default_max_idle_unchecked:
  "\<exists>p. NewSimpleObjectPool \<lparr>cfg_Factory = port_factory, cfg_Initializer = None, cfg_MinIdle = 0,
       cfg_MaxIdle = 0, cfg_MaxPoolSize = 0, cfg_MinPoolSize = 0, cfg_Capacity = 5\<rparr> (sconst 0)
       (sim_factory sim_world) = Returns (Inr p) \<and> capacity p < maxIdle p"
  by (simp add: NewSimpleObjectPool_def preload_def new_pool_def idle_size_def pool_size_def
      PriorityQueue_Size_def NewPriorityQueue_def queueKeys_def send_tokens.simps token_send_def eval_nat_numeral
      DefaultMaxIdle_def)

end
