(* ===== verification/Concurrency_Properties.thy ===== *)
theory Concurrency_Properties
  imports Pool_Concurrency Pool_Properties
begin

section \<open>Properties of the pool under concurrent calls\<close>

text \<open>
  The pool with its background goroutine and any number of clients, in any interleaving of their
  steps (\<open>pool_step\<close>). The goroutine starts at \<open>CheckIdle True\<close>, the first check that
  \<open>startCheckIdleTicker\<close> makes.
\<close>

lemma pool_ok_sound:
  assumes "pool_ok issued s" "balanced s"
  shows "sound port_factory (factory_ok issued) (\<lambda>f. issued (pf_world f)) 0 {#} s"
  using guardedD(1) [OF assms(1) [unfolded pool_ok_def]] assms(2)
  by (auto simp: sound_def kept_def balanced_slack pool_safe_def exclusive_def)

lemma start_owes_nothing [simp]: "owed [CheckIdle b] = 0" "in_hands [CheckIdle b] = {#}"
  by (simp_all add: owed_def in_hands_def)

lemma concurrent_sound:
  assumes "pool_ok issued s" "balanced s" "pool_step\<^sup>*\<^sup>* (s, [CheckIdle b]) (t, gs)"
  shows "sound port_factory (factory_ok issued) (\<lambda>f. issued (pf_world f)) (owed gs) (in_hands gs) t \<and>
    capacity t = capacity s"
  using ports.pool_steps_sound [OF assms(3), of issued] pool_ok_sound [OF assms(1,2)] by simp

subsection \<open>Safety\<close>

text \<open>
  C4. Start the background goroutine on a good pool and let any clients call \<open>Acquire\<close>, \<open>Release\<close>
  and \<open>Stat\<close> at any time, contexts end at any time, and all goroutines take their steps in any
  interleaving. At every moment each resource is in use, idle or in the hands of a goroutine at
  most once; the tokens, the resources and what the goroutines under way still owe add up to the
  capacity; the data structures are in order; and a goroutine that gives a token back never waits.
\<close>

theorem concurrent_pool_safe:
  assumes "pool_ok issued s" "balanced s" "pool_step\<^sup>*\<^sup>* (s, [CheckIdle True]) (t, gs)"
  shows "pool_wf t \<and> (\<forall>x. count (inuse_ids t + idle_ids t + in_hands gs) x \<le> 1) \<and>
     int (tokens t) + pool_size t + int (owed gs) = capacity s \<and>
     (\<forall>i<length gs. gs ! i \<in> range AcquireReturnToken \<union> range CheckIdleSend \<union>
        range (\<lambda>(n, l). CreateReturnToken n l) \<longrightarrow> gstep (gs ! i) t \<noteq> None)"
proof -
  note r = concurrent_sound [OF assms]
  then have so: "sound port_factory (factory_ok issued) (\<lambda>f. issued (pf_world f)) (owed gs) (in_hands gs) t" ..
  have "int (tokens t) + pool_size t + int (owed gs) = capacity s"
    using soundD(4) [OF so] r by (simp add: slack_def)
  then show ?thesis
    using soundD(1,2) [OF so] ports.senders_move [OF so] by (simp add: pool_safe_def held_def add.commute)
qed


lemma sim_pool_too_many: "tooManyIdle sim_pool"
  by (simp add: tooManyIdle_def sim_pool_simps)

text \<open>The goroutine has taken the resource to dispose of from the queue, while a client calls.\<close>

theorem concurrent_pool_safe_witness:
  "\<exists>t item. pool_step\<^sup>*\<^sup>* (sim_pool, [CheckIdle True])
       (t, [CheckIdleDispose True (item_res item), AcquireEnter sim_ctx (sim_id 1)]) \<and>
     int (tokens t) + pool_size t + 1 = 4 \<and> item_id item \<notin># inuse_ids t + idle_ids t"
proof -
  have first: "gstep (CheckIdle True) sim_pool = Some (CheckIdleLock True, sim_pool)"
    by (simp add: sim_pool_too_many)
  have "\<not> locked sim_pool" "queue_items (idle sim_pool) \<noteq> []"
    "item_reverse (queue_items (idle sim_pool) ! 0) \<le> shd (clock sim_pool)" by (simp_all add: sim_pool_simps)
  note due = check_idle_section_due [OF this(1) pool_okD(4) [OF sim_pool_ok] this(2,3)]
  obtain item q where sec: "check_idle_section sim_pool =
      (Returns (Some (item_res item)), sim_pool\<lparr>clock := stl (clock sim_pool), idle := q\<rparr>)"
      "queue_wf q" "mset (queue_items (idle sim_pool)) = add_mset item (mset (queue_items q))"
    by (rule due)
  let ?t = "sim_pool\<lparr>clock := stl (clock sim_pool), idle := q\<rparr>"
    and ?gs = "[CheckIdleDispose True (item_res item), AcquireEnter sim_ctx (sim_id 1)]"
  have second: "gstep (CheckIdleLock True) sim_pool = Some (CheckIdleDispose True (item_res item), ?t)"
    by (simp add: attempt_def sec)
  have "acts [Run 0, Call (AcquireEnter sim_ctx (sim_id 1)), Run 0] (sim_pool, [CheckIdle True]) = Some (?t, ?gs)"
    by (simp add: first second del: gstep.simps)
  then have steps: "pool_step\<^sup>*\<^sup>* (sim_pool, [CheckIdle True]) (?t, ?gs)" by (rule acts_steps)
  note safe = concurrent_pool_safe [OF sim_pool_ok sim_pool_balanced steps]
  have hands: "in_hands ?gs = {#item_id item#}" "owed ?gs = 1" by (simp_all add: in_hands_def owed_def item_id_def)
  have "count (inuse_ids ?t + idle_ids ?t + {#item_id item#}) (item_id item) \<le> 1"
    using safe unfolding hands by blast
  then have "item_id item \<notin># inuse_ids ?t + idle_ids ?t"
    by (simp del: sim_pool_ids add: not_in_iff)
  moreover have "int (tokens ?t) + pool_size ?t + 1 = 4"
    using safe unfolding hands by (simp add: sim_pool_simps(3))
  ultimately show ?thesis using steps by blast
qed

subsection \<open>A race in checkIdle\<close>

text \<open>Clients that call \<open>Acquire\<close> one after the other take all idle resources.\<close>

lemma drain_idle:
  assumes "sound port_factory (factory_ok issued) (\<lambda>f. issued (pf_world f)) n C s" "\<not> locked s"
  shows "\<exists>t hs. pool_step\<^sup>*\<^sup>* (s, gs) (t, gs @ hs) \<and> (\<forall>h\<in>set hs. \<exists>r. h = AcquireDone (Inr r)) \<and>
    idle_ids t = {#} \<and> inuse_ids t = held s \<and> \<not> locked t \<and> queue_wf (idle t)"
  using assms
proof (induction "size (idle_ids s)" arbitrary: s gs)
  case 0
  then have "idle_ids s = {#}" by simp
  then have "pool_step\<^sup>*\<^sup>* (s, gs) (s, gs @ [])" "inuse_ids s = held s" by (simp_all add: held_def)
  then show ?case using 0 pool_safeD(6) [OF soundD(1) [OF 0(2)]] by (metis emptyE list.set(1) size_eq_0_iff_empty)
next
  case (Suc m)
  note safe = soundD(1) [OF Suc.prems(1)]
  have ne: "idle_ids s \<noteq> {#}" using Suc.hyps(2) by auto
  obtain item q where q: "acquire_section '''' s = (Returns (Found (item_res item)),
       s\<lparr>idle := q, inuse := gmap_put (inuse s) (item_id item) (item_res item)\<rparr>)" "queue_wf q"
      "mset (queue_items (idle s)) = add_mset item (mset (queue_items q))"
    by (rule acquire_section_found [OF Suc.prems(2) pool_safeD(1) [OF safe] ne])
  let ?t = "s\<lparr>idle := q, inuse := gmap_put (inuse s) (item_id item) (item_res item)\<rparr>"
  note m = move_to_inuse [OF pool_safeD(1,2) [OF safe] q(2,3)]
  have t: "sound port_factory (factory_ok issued) (\<lambda>f. issued (pf_world f)) n C ?t"
    using ports.acquire_section_sound [OF Suc.prems(1) q(1)] .
  have fewer: "m = size (idle_ids ?t)" using idle_remove(1) [OF q(2,3)] Suc.hyps(2) q(3)
    by (simp add: idle_ids_def flip: mset_map)
  have "pool_step (s, gs) (s, gs @ [AcquireEnter sim_ctx ''''])" by (rule pool_step.call) simp
  moreover have "gstep ((gs @ [AcquireEnter sim_ctx '''']) ! length gs) s =
      Some (AcquireDone (Inr (item_res item)), ?t)" using q(1) by (simp add: attempt_def)
  from pool_step.run [OF _ this] have "pool_step (s, gs @ [AcquireEnter sim_ctx ''''])
      (?t, gs @ [AcquireDone (Inr (item_res item))])" by simp
  moreover obtain u hs where u: "pool_step\<^sup>*\<^sup>* (?t, gs @ [AcquireDone (Inr (item_res item))])
      (u, (gs @ [AcquireDone (Inr (item_res item))]) @ hs)"
      "\<forall>h\<in>set hs. \<exists>r. h = AcquireDone (Inr r)" "idle_ids u = {#}" "inuse_ids u = held ?t" "\<not> locked u" "queue_wf (idle u)"
    using Suc.hyps(1) [OF fewer t, of "gs @ [AcquireDone (Inr (item_res item))]"] Suc.prems(2) by auto
  ultimately have "pool_step\<^sup>*\<^sup>* (s, gs) (u, gs @ AcquireDone (Inr (item_res item)) # hs)"
    by (simp add: converse_rtranclp_into_rtranclp)
  then show ?case using u m(1) by (intro exI [of _ u] exI [of _ "AcquireDone (Inr (item_res item)) # hs"]) auto
qed

text \<open>
  C16. \<open>checkIdle\<close> reads \<open>tooManyIdle\<close> without the mutex, and locks afterwards. On any good
  pool with too many idle resources there is an interleaving in which clients acquire them all in
  between: the peeked item is then nil, a case the source believes impossible, and the \<open>break\<close>
  leaves the mutex locked. From then on it stays locked whatever happens, and every further call of
  \<open>Acquire\<close>, \<open>Release\<close> and \<open>Stat\<close> waits forever.
\<close>

theorem check_idle_race_deadlocks:
  assumes "pool_ok issued s" "balanced s" "\<not> locked s" "tooManyIdle s"
  shows "\<exists>t gs. pool_step\<^sup>*\<^sup>* (s, [CheckIdle True]) (t, gs) \<and> idle_ids t = {#} \<and> inuse_ids t = held s \<and>
     (\<forall>u hs. pool_step\<^sup>*\<^sup>* (t, gs) (u, hs) \<longrightarrow>
        locked u \<and> (\<forall>g\<in>set hs. is_call g \<longrightarrow> gstep g u = None))"
proof -
  have first: "pool_step (s, [CheckIdle True]) (s, [CheckIdleLock True])"
    using pool_step.run [of 0 "[CheckIdle True]" s "CheckIdleLock True" s] assms(4) by simp
  obtain t hs where t: "pool_step\<^sup>*\<^sup>* (s, [CheckIdleLock True]) (t, [CheckIdleLock True] @ hs)"
      "idle_ids t = {#}" "inuse_ids t = held s" "\<not> locked t" "queue_wf (idle t)"
    using drain_idle [OF pool_ok_sound [OF assms(1,2)] assms(3)] by blast
  let ?t = "t\<lparr>locked := True\<rparr>" and ?gs = "ToSelect # hs"
  have "queue_items (idle t) = []" using t(2) by (simp add: idle_ids_def)
  then have "gstep (CheckIdleLock True) t = Some (ToSelect, ?t)"
    using check_idle_section_empty [OF t(4,5)] by (simp add: attempt_def after_checkIdle_def)
  then have "pool_step (t, CheckIdleLock True # hs) (?t, ?gs)"
    using pool_step.run [of 0 "CheckIdleLock True # hs" t ToSelect ?t] by simp
  with first t(1) have "pool_step\<^sup>*\<^sup>* (s, [CheckIdle True]) (?t, ?gs)"
    by (simp add: converse_rtranclp_into_rtranclp rtranclp.rtrancl_into_rtrancl)
  moreover have "locked u \<and> (\<forall>g\<in>set ks. is_call g \<longrightarrow> gstep g u = None)"
    if "pool_step\<^sup>*\<^sup>* (?t, ?gs) (u, ks)" for u ks
    using locked_forever [OF that] calls_blocked(1-3) by (auto elim!: is_call.elims)
  moreover have "idle_ids ?t = {#}" "inuse_ids ?t = held s" using t(2,3) by (simp_all add: idle_ids_def inuse_ids_def)
  ultimately show ?thesis by blast
qed

theorem check_idle_race_deadlocks_witness:
  "\<exists>t gs. pool_step\<^sup>*\<^sup>* (sim_pool, [CheckIdle True]) (t, gs) \<and>
     inuse_ids t = {#sim_id 0, sim_id 1, sim_id 2#} \<and> locked t \<and>
     (\<forall>u hs. pool_step (t, gs @ [AcquireEnter sim_ctx (sim_id 1)]) (u, hs) \<longrightarrow> locked u)"
proof -
  obtain t gs where t: "pool_step\<^sup>*\<^sup>* (sim_pool, [CheckIdle True]) (t, gs)" "inuse_ids t = held sim_pool"
    and u: "\<And>u hs. pool_step\<^sup>*\<^sup>* (t, gs) (u, hs) \<Longrightarrow> locked u"
    using check_idle_race_deadlocks [OF sim_pool_ok sim_pool_balanced sim_pool_simps(1) sim_pool_too_many] by blast
  have "pool_step (t, gs) (t, gs @ [AcquireEnter sim_ctx (sim_id 1)])" by (rule pool_step.call) simp
  then have "locked u" if "pool_step (t, gs @ [AcquireEnter sim_ctx (sim_id 1)]) (u, hs)" for u hs
    using u [of u hs] that by (meson converse_rtranclp_into_rtranclp r_into_rtranclp)
  moreover have "held sim_pool = {#sim_id 0, sim_id 1, sim_id 2#}" by (simp add: held_def)
  ultimately show ?thesis using t u [of t gs] by (metis rtranclp.rtrancl_refl)
qed

subsection \<open>A wake-up that is missing\<close>




subsection \<open>A goroutine that runs alone\<close>

fun solo :: "nat \<Rightarrow> goroutine \<Rightarrow> 'e SimpleObjectPool \<Rightarrow> goroutine \<times> 'e SimpleObjectPool" where
  "solo 0 g s = (g, s)"
| "solo (Suc n) g s = (case gstep g s of None \<Rightarrow> (g, s) | Some (h, t) \<Rightarrow> solo n h t)"

lemma solo_create:
  "solo 2 AcquireCreate s = (AcquireDone r, t) \<longleftrightarrow>
   go_bind (pool_Create '''') (\<lambda>r. case r of
       Inl err \<Rightarrow> go_seq token_send
         (go_return (Inl (Errorf ''error create from factory: '' (Some err))))
     | Inr res \<Rightarrow> go_seq (AddInuse res) (go_return (Inr res))) s = (Returns r, t)"
proof -
  obtain o1 u where c: "pool_Create '''' s = (o1, u)" by fastforce
  show ?thesis
  proof (cases o1)
    case (Halts h)
    then show ?thesis using c by (simp add: numeral_2_eq_2 call_out_def)
  next
    case (Returns x)
    show ?thesis
    proof (cases x)
      case (Inl e)
      then show ?thesis using c Returns
        by (simp add: numeral_2_eq_2 call_out_def attempt_def split: prod.split outcome.split halt.split)
    next
      case (Inr res)
      then show ?thesis using c Returns
        by (simp add: numeral_2_eq_2 call_out_def attempt_def split: prod.split outcome.split halt.split)
    qed
  qed
qed

lemma solo_select:
  "solo 3 (AcquireSelect ctx) s = (AcquireDone r, t) \<longleftrightarrow>
   go_bind (token_select ctx) (\<lambda>got.
     if got then
       go_bind (pool_Create '''') (\<lambda>r.
       case r of
         Inl err \<Rightarrow> go_seq token_send
           (go_return (Inl (Errorf ''error create from factory: '' (Some err))))
       | Inr res \<Rightarrow> go_seq (AddInuse res) (go_return (Inr res)))
     else go_return (Inl ErrContextDone)) s = (Returns r, t)"
proof -
  have three: "solo 3 g s = (case gstep g s of None \<Rightarrow> (g, s) | Some (h, u) \<Rightarrow> solo 2 h u)" for g
    using solo.simps(2) [of 2 g s] by simp
  have fin: "solo 2 (AcquireDone e) u = (AcquireDone e, u)" for e and u :: "'a SimpleObjectPool"
    by (simp add: numeral_2_eq_2)
  have stuck: "solo 2 (Stuck n) u = (Stuck n, u)" for n and u :: "'a SimpleObjectPool"
    by (simp add: numeral_2_eq_2)
  obtain o1 u where c: "token_select ctx s = (o1, u)" by fastforce
  show ?thesis
    by (cases o1; simp add: three c attempt_def solo_create fin stuck del: go_bind_run split: halt.split)
      (simp_all add: c)
qed

text \<open>
  The two descriptions of \<open>Acquire\<close> agree: run from a point where nobody else moves, the
  goroutine's at most four steps end with the result and in the state that the method as one
  piece returns, and if the method returns nothing, they end with none.
\<close>

theorem acquire_alone:
  "Acquire ctx rid s = (Returns r, t) \<longleftrightarrow> solo 4 (AcquireEnter ctx rid) s = (AcquireDone r, t)"
proof -
  have four: "solo 4 g s = (case gstep g s of None \<Rightarrow> (g, s) | Some (h, u) \<Rightarrow> solo 3 h u)" for g
    using solo.simps(2) [of 3 g s] by simp
  have fin: "solo 3 (AcquireDone e) u = (AcquireDone e, u)" for e and u :: "'a SimpleObjectPool"
    by (simp add: numeral_3_eq_3)
  obtain o1 u where c: "acquire_section rid s = (o1, u)" by fastforce
  show ?thesis
  proof (cases o1)
    case (Halts h)
    then show ?thesis by (cases h) (simp_all add: Acquire_sections four c attempt_def numeral_3_eq_3)
  next
    case (Returns a)
    then show ?thesis
      by (cases a) (simp_all add: Acquire_sections four c attempt_def solo_select fin del: go_bind_run add: go_bind_def)
  qed
qed

end
