(* ===== verification/K8s.thy ===== *)
theory K8s
  imports Utils
begin

section \<open>Pods (pkg/k8s/k8s.go)\<close>

text \<open>
  The Kubernetes client library and the API server are the parameter \<open>KubeClient\<close>; of a pod
  object, the fields the program reads. Durations are in nanoseconds.
\<close>

record PodInfo =
  pi_Name :: string
  pi_Namespace :: string
  pi_PodIP :: string
  pi_IpStickTime :: int

record KubePod =
  pod_Name :: string
  pod_Namespace :: string
  pod_Annotations :: "(string, string) gmap"
  pod_OwnerKinds :: "string list"
  pod_StatusIP :: string

record Filter =
  fl_Annotations :: "(string, string) gmap"
  fl_Labels :: "(string, string) gmap"

text \<open>\<open>pods_List\<close> is given the label selector and the node name of the field selector.\<close>

record 'w KubeClient =
  pods_Get :: "string \<Rightarrow> string \<Rightarrow> ('w, error + KubePod) go"
  pods_List :: "(string, string) gmap \<Rightarrow> string \<Rightarrow> ('w, error + KubePod list) go"

record 'w K8s =
  k8s_client :: "'w KubeClient"
  k8s_nodeName :: string

definition defaultStickTimeForSts :: int where
  "defaultStickTimeForSts = 5 * 60 * 1000000000"

definition workloadSet :: "string list" where
  "workloadSet = [''statefulset'']"

definition PodInfoKey :: "PodInfo \<Rightarrow> string" where
  "PodInfoKey p = pi_Namespace p @ ''/'' @ pi_Name p"

text \<open>The value of an annotation, the empty string when there is none, as indexing a Go map gives.\<close>

definition annotation :: "KubePod \<Rightarrow> string \<Rightarrow> string" where
  "annotation pod key = (case gmap_get (pod_Annotations pod) key of None \<Rightarrow> '''' | Some v \<Rightarrow> v)"

text \<open>\<open>strconv.ParseBool\<close> accepts six spellings of truth; everything else, errors included, is false.\<close>

definition parseBool :: "string \<Rightarrow> bool" where
  "parseBool s \<longleftrightarrow> s \<in> set [''1'', ''t'', ''T'', ''true'', ''TRUE'', ''True'']"

definition lower_char :: "char \<Rightarrow> char" where
  "lower_char c = (let n = of_char c :: nat in if 65 \<le> n \<and> n \<le> 90 then char_of (n + 32) else c)"

definition ToLower :: "string \<Rightarrow> string" where
  "ToLower s = map lower_char s"

text \<open>The loop over the owner references stops at the first that is a stateful set.\<close>

fun sticks_for_owner :: "string list \<Rightarrow> int" where
  "sticks_for_owner [] = 0"
| "sticks_for_owner (kind # kinds) =
     (if ToLower kind \<in> set workloadSet then defaultStickTimeForSts else sticks_for_owner kinds)"

definition convertPod :: "KubePod \<Rightarrow> PodInfo" where
  "convertPod pod =
     \<lparr>pi_Name = pod_Name pod, pi_Namespace = pod_Namespace pod, pi_PodIP = pod_StatusIP pod,
      pi_IpStickTime =
        (if parseBool (annotation pod PodStaticIP) then defaultStickTimeForSts
         else if 0 < length (pod_OwnerKinds pod) then sticks_for_owner (pod_OwnerKinds pod)
         else 0)\<rparr>"

definition GetPod :: "'w K8s \<Rightarrow> string \<Rightarrow> string \<Rightarrow> ('w, error + PodInfo \<times> KubePod) go" where
  "GetPod k namespace name =
     go_bind (pods_Get (k8s_client k) namespace name) (\<lambda>r.
     case r of Inl err \<Rightarrow> go_return (Inl err)
     | Inr pod \<Rightarrow> go_return (Inr (convertPod pod, pod)))"

text \<open>The annotations of the filter are not used.\<close>

definition ListLocalPods :: "'w K8s \<Rightarrow> Filter \<Rightarrow> ('w, error + PodInfo list) go" where
  "ListLocalPods k lfilter =
     go_bind (pods_List (k8s_client k) (fl_Labels lfilter) (k8s_nodeName k)) (\<lambda>r.
     case r of
       Inl err \<Rightarrow> go_return (Inl (Errorf ''failed listting pods on node'' (Some err)))
     | Inr items \<Rightarrow> go_return (Inr (map convertPod items)))"

text \<open>How long an address is kept for a pod: five minutes or not at all.\<close>

lemma sticks_for_owner_eq:
  "sticks_for_owner kinds =
     (if \<exists>k \<in> set kinds. ToLower k = ''statefulset'' then defaultStickTimeForSts else 0)"
  by (induction kinds) (auto simp: workloadSet_def)

lemma stick_time_cases:
  "pi_IpStickTime (convertPod pod) \<in> {0, defaultStickTimeForSts}"
  by (simp add: convertPod_def sticks_for_owner_eq)

end
