(* ===== verification/Rpc.thy ===== *)
theory Rpc
  imports Prelude
begin

section \<open>Messages between plugin and daemon (pkg/rpc)\<close>

text \<open>
  The messages of the \<open>RubbleBackend\<close> service, with the fields of the generated structs; a
  field that is a message is a pointer, \<open>None\<close> for nil. The generated marshalling code and the
  gRPC transport are not modelled.
\<close>

datatype IPType = TypeVPCIP | TypeVPCENI | TypeENIMultiIP

datatype RpcError = ErrNoErr | ErrCRDNotFound

record IPSet =
  ips_IPv4 :: string
  ips_IPv6 :: string

record BasicInfo =
  bi_PodIP :: "IPSet option"
  bi_PodCIDR :: "IPSet option"
  bi_GatewayIP :: "IPSet option"
  bi_ServiceCIDR :: "IPSet option"

record ENIInfo =
  eni_MAC :: string
  eni_Trunk :: bool
  eni_Vid :: nat
  eni_GatewayIP :: "IPSet option"

record RpcPod =
  rp_Ingress :: nat
  rp_Egress :: nat
  rp_NetworkPriority :: string

record RpcRoute =
  rpr_Dst :: string

record RpcNetConf =
  rnc_BasicInfo :: "BasicInfo option"
  rnc_ENIInfo :: "ENIInfo option"
  rnc_Pod :: "RpcPod option"
  rnc_IfName :: string
  rnc_ExtraRoutes :: "RpcRoute option list"
  rnc_DefaultRoute :: bool

record AllocateIPRequest =
  ar_K8SPodName :: string
  ar_K8SPodNamespace :: string
  ar_K8SPodInfraContainerId :: string
  ar_Netns :: string
  ar_IfName :: string

record AllocateIPReply =
  ap_Success :: bool
  ap_IPType :: IPType
  ap_IPv4 :: bool
  ap_IPv6 :: bool
  ap_NetConfs :: "RpcNetConf list"
  ap_EnableTrunking :: bool

record ReleaseIPRequest =
  rr_K8SPodName :: string
  rr_K8SPodNamespace :: string
  rr_K8SPodInfraContainerId :: string
  rr_IPType :: IPType
  rr_IPv4Addr :: "IPSet option"
  rr_MacAddr :: string
  rr_Reason :: string

record ReleaseIPReply =
  rl_Success :: bool
  rl_IPv4Addr :: "IPSet option"
  rl_DeviceNumber :: int
  rl_IPv4 :: bool
  rl_IPv6 :: bool

record GetInfoRequest =
  gr_K8SPodName :: string
  gr_K8SPodNamespace :: string
  gr_K8SPodInfraContainerId :: string

record GetInfoReply =
  gp_IPType :: IPType
  gp_Success :: bool
  gp_IPv4 :: bool
  gp_IPv6 :: bool
  gp_NetConfs :: "RpcNetConf option list"
  gp_EnableTrunking :: bool
  gp_Error :: RpcError

end
