(* ===== verification/Port_Manager.thy ===== *)
theory Port_Manager
  imports Port_Factory K8s Rpc
begin

section \<open>The port resource manager (pkg/ipam)\<close>

text \<open>
  \<open>PortResourceManager\<close> joins the factory and the pool. The pool holds the factory as its
  environment, so the manager's state is the pool. \<open>net.ParseIP\<close> is a parameter (the only use
  is whether it succeeds), and so is the configuration the daemon read.
\<close>

definition IpAddressAnnotation :: string where
  "IpAddressAnnotation = ''rubble.kubernetes.io/ip_address''"
definition IpPoolAnnotation :: string where
  "IpPoolAnnotation = ''rubble.kubernetes.io/ip_pool''"

type_synonym 'w pool = "'w PortFactory SimpleObjectPool"

record ResourceItem =
  ri_Type :: string
  ri_ID :: string

record PodResources =
  pr_Resources :: "ResourceItem list"
  pr_PodInfo :: "PodInfo option"

record ResourceContext =
  rc_Context :: Context
  rc_PodInfo :: "PodInfo option"
  rc_Pod :: KubePod

definition GetResourceItemByType :: "PodResources \<Rightarrow> string \<Rightarrow> ResourceItem list" where
  "GetResourceItemByType p resType =
     map (\<lambda>r. \<lparr>ri_Type = resType, ri_ID = ri_ID r\<rparr>) [r \<leftarrow> pr_Resources p. resType = ri_Type r]"

subsection \<open>The network configuration of a port\<close>

definition ipv4 :: "string \<Rightarrow> IPSet" where
  "ipv4 a = \<lparr>ips_IPv4 = a, ips_IPv6 = ''''\<rparr>"

definition NetConfFromPort :: "NetworkResource \<Rightarrow> error + RpcNetConf list" where
  "NetConfFromPort p =
     (let port = resource_port p in
      if port_CIDR port = '''' \<or> port_Gateway port = ''''
      then Inl (Errorf ''empty cidr or gateway'' None)
      else Inr [\<lparr>rnc_BasicInfo = Some \<lparr>bi_PodIP = Some (ipv4 (port_IP port)),
                   bi_PodCIDR = Some (ipv4 (port_CIDR port)),
                   bi_GatewayIP = Some (ipv4 (port_Gateway port)), bi_ServiceCIDR = None\<rparr>,
                 rnc_ENIInfo = Some \<lparr>eni_MAC = port_MAC port, eni_Trunk = False, eni_Vid = 0,
                   eni_GatewayIP = Some (ipv4 (port_Gateway port))\<rparr>,
                 rnc_Pod = None, rnc_IfName = '''', rnc_ExtraRoutes = [], rnc_DefaultRoute = False\<rparr>])"

subsection \<open>Setting the manager up\<close>

text \<open>A call of the client from the pool, through its factory.\<close>

definition pool_call :: "('w Client \<Rightarrow> ('w, 'a) go) \<Rightarrow> ('w pool, 'a) go" where
  "pool_call m = (\<lambda>s. go_zoom env (\<lambda>e s. s\<lparr>env := e\<rparr>) (pf_call m) s)"

text \<open>The loop of the initializer over the node's ports.\<close>

fun init_ports :: "(string, string list) gmap \<Rightarrow> Subnet \<Rightarrow> NPort list \<Rightarrow> ('w pool, unit) go" where
  "init_ports portsMapping subnet [] = go_return ()"
| "init_ports portsMapping subnet (np # nps) =
     (case ConvertPort subnet np of
        Halts h \<Rightarrow> go_halt h
      | Returns port \<Rightarrow>
          go_seq (go_modify (\<lambda>s. s\<lparr>env := (env s)\<lparr>pf_ports := pf_ports (env s) @ [PortResource port]\<rparr>\<rparr>)) (
          go_seq (case gmap_get portsMapping (np_ID np) of
                    Some pod \<Rightarrow> AddInuse (PortResource port)
                  | None \<Rightarrow> AddIdle (PortResource port))
          (init_ports portsMapping subnet nps)))"

definition initializer ::
    "string \<Rightarrow> NodeInfo \<Rightarrow> (string, string list) gmap \<Rightarrow> Subnet \<Rightarrow> ('w pool, error option) go" where
  "initializer netId node portsMapping subnet =
     go_bind (pool_call (\<lambda>c. ListPortWithFilter c
       \<lparr>lf_NetworkID = netId, lf_DeviceOwner = DeviceOwner, lf_DeviceID = '''',
        lf_Tags = vm_tag (node_UUID node)\<rparr>)) (\<lambda>(ports, err).
     case err of
       Some e \<Rightarrow> go_return (Some (Errorf ''failed to list ports allocated by this node'' (Some e)))
     | None \<Rightarrow> go_seq (init_ports portsMapping subnet ports) (go_return None))"

text \<open>
  \<open>NewPortResourceManager\<close>: three lookups, then the pool. The node information is dereferenced,
  a nil pointer there panics; the clock and the random numbers are those at the time of the
  call. The result is the pool with the factory in it.
\<close>

definition new_factory ::
    "'w Client \<Rightarrow> string \<Rightarrow> string \<Rightarrow> NodeInfo \<Rightarrow> 'w \<Rightarrow> nat stream \<Rightarrow> 'w PortFactory" where
  "new_factory client netId subnetId node w rnd =
     \<lparr>pf_client = client, pf_netID = netId, pf_subnetID = subnetId, pf_nodeName = node_Name node,
      pf_vmUUID = node_UUID node, pf_projectID = node_ProjectID node, pf_ports = [],
      pf_locked = False, pf_world = w, pf_rand = rnd\<rparr>"

definition pool_config :: "DaemonConfigure \<Rightarrow> string \<Rightarrow> NodeInfo \<Rightarrow> (string, string list) gmap \<Rightarrow>
    Subnet \<Rightarrow> 'w PortFactory PoolConfig" where
  "pool_config config netId node portsMapping subnet =
     \<lparr>cfg_Factory = port_factory,
      cfg_Initializer = Some (initializer netId node portsMapping subnet),
      cfg_MinIdle = dc_MinIdleSize config, cfg_MaxIdle = dc_MaxIdleSize config,
      cfg_MaxPoolSize = dc_MaxPoolSize config, cfg_MinPoolSize = dc_MinPoolSize config,
      cfg_Capacity = dc_MaxPoolSize config\<rparr>"

definition NewPortResourceManager ::
    "DaemonConfigure \<Rightarrow> 'w Client \<Rightarrow> (string, string list) gmap \<Rightarrow> int stream \<Rightarrow> nat stream \<Rightarrow>
     'w \<Rightarrow> (error + 'w pool) outcome" where
  "NewPortResourceManager config client portsMapping clk rnd w =
     (case GetNetworkID client (dc_NetID config) w of
        (Halts h, _) \<Rightarrow> Halts h
      | (Returns (Inl err), _) \<Rightarrow> Returns (Inl (Errorf ''failed to get network id'' (Some err)))
      | (Returns (Inr netId), w1) \<Rightarrow>
     (case GetSubnetworkID client (dc_SubnetID config) w1 of
        (Halts h, _) \<Rightarrow> Halts h
      | (Returns (Inl err), _) \<Rightarrow> Returns (Inl (Errorf ''failed to get subnet'' (Some err)))
      | (Returns (Inr subnetId), w2) \<Rightarrow>
     (case GetSubnet client subnetId w2 of
        (Halts h, _) \<Rightarrow> Halts h
      | (Returns (Inl err), _) \<Rightarrow> Returns (Inl (Errorf ''failed to get subnet with error'' (Some err)))
      | (Returns (Inr subnet), w3) \<Rightarrow>
     (case dc_Node config of
        None \<Rightarrow> Halts Panicked
      | Some node \<Rightarrow>
          NewSimpleObjectPool (pool_config config netId node portsMapping subnet) clk
            (new_factory client netId subnetId node w3 rnd)))))"

subsection \<open>Allocation\<close>

definition requireStaticIP :: "ResourceContext \<Rightarrow> bool" where
  "requireStaticIP ctx \<longleftrightarrow>
     0 < length (annotation (rc_Pod ctx) IpAddressAnnotation) \<or>
     0 < length (annotation (rc_Pod ctx) IpPoolAnnotation)"

text \<open>The search for a port with the address; converting a port without addresses panics.\<close>

fun occupied_by :: "Subnet \<Rightarrow> string \<Rightarrow> NPort list \<Rightarrow> bool outcome" where
  "occupied_by subnet ip [] = Returns False"
| "occupied_by subnet ip (p # ps) =
     (case ConvertPort subnet p of
        Halts h \<Rightarrow> Halts h
      | Returns port \<Rightarrow> if port_IP port = ip then Returns True else occupied_by subnet ip ps)"

text \<open>The search of the idle queue for the address: the first item that is not nil and has it.\<close>

fun idle_with_ip :: "string \<Rightarrow> poolItem option list \<Rightarrow> NetworkResource option" where
  "idle_with_ip ip [] = None"
| "idle_with_ip ip (None # items) = idle_with_ip ip items"
| "idle_with_ip ip (Some item # items) =
     (if GetIPAddress (GetResource item) = ip then Some (GetResource item) else idle_with_ip ip items)"

text \<open>What happens once it is known whether some port has the address.\<close>

definition acquire_occupied ::
    "Context \<Rightarrow> string \<Rightarrow> ('w pool, error + NetworkResource) go" where
  "acquire_occupied ctx ipAddress =
     go_bind (\<lambda>s. go_deref (GetIdle s) s) (\<lambda>items.
     case idle_with_ip ipAddress items of
       Some res \<Rightarrow> Acquire ctx (GetResourceId res)
     | None \<Rightarrow> go_return (Inl (Errorf
         ''IP address is occupied by port but not in pool idle queue'' None)))"

definition acquire_unoccupied ::
    "Context \<Rightarrow> string \<Rightarrow> ('w pool, error + NetworkResource) go" where
  "acquire_unoccupied ctx ipAddress =
     go_bind (pool_Create ipAddress) (\<lambda>created.
     case created of
       Inl e \<Rightarrow> go_return (Inl (Errorf ''IP address is not valid'' None))
     | Inr res \<Rightarrow> go_seq (AddIdle res) (Acquire ctx (GetResourceId res)))"

definition acquireStaticAddress ::
    "(string \<Rightarrow> bool) \<Rightarrow> ResourceContext \<Rightarrow> ('w pool, error + NetworkResource) go" where
  "acquireStaticAddress ParseIP_ok ctx =
     (let ipAddress = annotation (rc_Pod ctx) IpAddressAnnotation in
      if 0 < length ipAddress then
        (if \<not> ParseIP_ok ipAddress
         then go_return (Inl (Errorf ''failed to parse ip with annotation'' None))
         else
           go_bind (\<lambda>s. pool_call (\<lambda>c. ListPortWithFilter c
             \<lparr>lf_NetworkID = pf_netID (env s), lf_DeviceOwner = DeviceOwner,
              lf_DeviceID = '''', lf_Tags = ''''\<rparr>) s) (\<lambda>(ports, err).
           case err of
             Some e \<Rightarrow> go_return (Inl (Errorf ''failed to list ports allocated by rubble'' (Some e)))
           | None \<Rightarrow>
               go_bind (\<lambda>s. pool_call (\<lambda>c. GetSubnet c (pf_subnetID (env s))) s) (\<lambda>got.
               case got of
                 Inl e \<Rightarrow> go_return (Inl (Errorf ''failed to get subnet'' (Some e)))
               | Inr subnet \<Rightarrow>
                   (case occupied_by subnet ipAddress ports of
                      Halts h \<Rightarrow> go_halt h
                    | Returns True \<Rightarrow> acquire_occupied (rc_Context ctx) ipAddress
                    | Returns False \<Rightarrow> acquire_unoccupied (rc_Context ctx) ipAddress))))
      else go_return (Inl (Errorf ''IP address is not valid'' None)))"

text \<open>Logging the key of missing pod information panics.\<close>

definition Manager_Allocate ::
    "(string \<Rightarrow> bool) \<Rightarrow> ResourceContext \<Rightarrow> string \<Rightarrow> ('w pool, error + NetworkResource) go" where
  "Manager_Allocate ParseIP_ok ctx resId =
     (if requireStaticIP ctx
      then (case rc_PodInfo ctx of
              None \<Rightarrow> go_halt Panicked
            | Some _ \<Rightarrow> acquireStaticAddress ParseIP_ok ctx)
      else Acquire (rc_Context ctx) resId)"

text \<open>The context may be nil, and so may its pod information.\<close>

definition Manager_Release :: "ResourceContext option \<Rightarrow> string \<Rightarrow> ('w pool, error option) go" where
  "Manager_Release ctx resId =
     (case Option.bind ctx rc_PodInfo of
        Some pod \<Rightarrow> ReleaseWithReverse resId (pi_IpStickTime pod)
      | None \<Rightarrow> Release resId)"

text \<open>The expired resources are a map that is ranged over; its values are not used.\<close>

fun GarbageCollection :: "(string, 'x) gmap \<Rightarrow> ('w pool, error option) go" where
  "GarbageCollection [] = go_return None"
| "GarbageCollection ((expireRes, _) # rest) =
     go_bind (Stat expireRes) (\<lambda>st.
     case st of
       Some _ \<Rightarrow> GarbageCollection rest
     | None \<Rightarrow>
         go_bind (Manager_Release None expireRes) (\<lambda>err.
         case err of Some e \<Rightarrow> go_return (Some e) | None \<Rightarrow> GarbageCollection rest))"

end
