(* ===== verification/Manager_Laws.thy ===== *)
theory Manager_Laws
  imports Port_Manager
begin

section \<open>What the port resource manager guarantees\<close>

text \<open>Safety without the account of tokens, which a full node or a static address can upset.\<close>

definition manager_safe :: "('w \<Rightarrow> string set) \<Rightarrow> 'w pool \<Rightarrow> bool" where
  "manager_safe issued = pool_safe port_factory (factory_ok issued) (\<lambda>f. issued (pf_world f))"

lemma pool_ok_safe: "pool_ok issued s \<Longrightarrow> manager_safe issued s"
  by (simp add: pool_ok_def manager_safe_def guarded_def)

lemma manager_safeD:
  assumes "manager_safe issued s"
  shows "pool_wf s" "\<forall>x. count (held s) x \<le> 1" "queue_wf (idle s)" "factory s = port_factory"
    "neutron_ok issued (networkCliV2 (pf_client (env s)))" "set_mset (held s) \<subseteq> issued (pf_world (env s))"
  using pool_safeD [OF assms [unfolded manager_safe_def]]
  by (auto simp: exclusive_def factory_ok_def)

lemma pool_call_run:
  "pool_call m s = (case m (pf_client (env s)) (pf_world (env s)) of
     (r, w) \<Rightarrow> (r, s\<lparr>env := (env s)\<lparr>pf_world := w\<rparr>\<rparr>))"
  by (simp add: pool_call_def pf_call_run split: prod.splits)

lemma world_safe:
  assumes "manager_safe issued s" "issued (pf_world (env s)) \<subseteq> issued w"
  shows "manager_safe issued (s\<lparr>env := (env s)\<lparr>pf_world := w\<rparr>\<rparr>)"
proof -
  have "factory_ok issued ((env s)\<lparr>pf_world := w\<rparr>)"
    using pool_safeD(4) [OF assms(1) [unfolded manager_safe_def]] by (simp add: factory_ok_def)
  then show ?thesis
    using safe_env [OF assms(1) [unfolded manager_safe_def]] assms(2)
    by (simp add: manager_safe_def)
qed

text \<open>A read through the client keeps the manager safe and changes the outside world only.\<close>

lemma pool_call_safe:
  assumes "manager_safe issued s" "grows issued (m (pf_client (env s)))"
    and "pool_call m s = (out, t)"
  shows "manager_safe issued t" "\<exists>w. t = s\<lparr>env := (env s)\<lparr>pf_world := w\<rparr>\<rparr>"
    "issued (pf_world (env s)) \<subseteq> issued (pf_world (env t))"
proof -
  obtain w where w: "m (pf_client (env s)) (pf_world (env s)) = (out, w)"
    and t: "t = s\<lparr>env := (env s)\<lparr>pf_world := w\<rparr>\<rparr>"
    using assms(3) by (auto simp: pool_call_run split: prod.splits)
  have g: "issued (pf_world (env s)) \<subseteq> issued w" by (rule growsD [OF assms(2) w])
  show "manager_safe issued t" unfolding t by (rule world_safe [OF assms(1) g])
  show "\<exists>w. t = s\<lparr>env := (env s)\<lparr>pf_world := w\<rparr>\<rparr>" using t by blast
  show "issued (pf_world (env s)) \<subseteq> issued (pf_world (env t))" using g t by simp
qed

subsection \<open>The initializer\<close>

text \<open>Every port of the node ends up in use or idle, as the mapping from the database says.\<close>

lemma ConvertPort_id: "ConvertPort subnet np = Returns p \<Longrightarrow> port_ID p = np_ID np"
  by (auto simp: ConvertPort_def split: list.splits)

lemma ConvertPort_address:
  "ConvertPort subnet np = Returns p \<Longrightarrow> np_FixedIPs np \<noteq> [] \<and> port_IP p = fip_IPAddress (hd (np_FixedIPs np))"
  by (auto simp: ConvertPort_def split: list.splits)

lemma init_ports_safe:
  "manager_safe issued s \<Longrightarrow> \<not> locked s \<Longrightarrow> distinct (map np_ID nps) \<Longrightarrow>
   np_ID ` set nps \<subseteq> issued (pf_world (env s)) \<Longrightarrow> np_ID ` set nps \<inter> set_mset (held s) = {} \<Longrightarrow>
   init_ports m subnet nps s = (Returns (), t) \<Longrightarrow>
   manager_safe issued t \<and> \<not> locked t \<and> tokens t = tokens s \<and> tokenCap t = tokenCap s \<and>
   capacity t = capacity s \<and> minIdle t = minIdle s \<and>
   pf_world (env t) = pf_world (env s) \<and>
   inuse_ids t = inuse_ids s + mset [rid \<leftarrow> map np_ID nps. rid \<in> gmap_keys m] \<and>
   idle_ids t = idle_ids s + mset [rid \<leftarrow> map np_ID nps. rid \<notin> gmap_keys m]"
proof (induction nps arbitrary: s)
  case Nil
  then show ?case by simp
next
  case (Cons np nps)
  obtain port where port: "ConvertPort subnet np = Returns port"
    using Cons.prems(6) by (cases "ConvertPort subnet np") simp_all
  note pid = ConvertPort_id [OF port]
  let ?e = "(env s)\<lparr>pf_ports := pf_ports (env s) @ [PortResource port]\<rparr>"
  let ?s = "s\<lparr>env := ?e\<rparr>"
  have "factory_ok issued ?e"
    using pool_safeD(4) [OF Cons.prems(1) [unfolded manager_safe_def]] by (simp add: factory_ok_def)
  then have safe: "pool_safe port_factory (factory_ok issued) (\<lambda>f. issued (pf_world f)) ?s"
    using safe_env [OF Cons.prems(1) [unfolded manager_safe_def]] by simp
  have fresh: "GetResourceId (PortResource port) \<notin># held ?s"
    "GetResourceId (PortResource port) \<in> issued (pf_world (env ?s))"
    using Cons.prems(4,5) pid by auto
  have free: "\<not> locked ?s" using Cons.prems(2) by simp
  define step :: "('a pool, unit) go" where "step = (case gmap_get m (np_ID np) of
      Some pod \<Rightarrow> AddInuse (PortResource port) | None \<Rightarrow> AddIdle (PortResource port))"
  obtain o1 u where st: "step ?s = (o1, u)" by fastforce
  have rest: "o1 = Returns () \<Longrightarrow> init_ports m subnet nps u = (Returns (), t)" "o1 = Returns ()"
    using Cons.prems(6) st port by (simp_all add: step_def [symmetric] split: outcome.splits)
  have u: "manager_safe issued u \<and> \<not> locked u \<and> tokens u = tokens s \<and> tokenCap u = tokenCap s \<and>
      capacity u = capacity s \<and> minIdle u = minIdle s \<and> pf_world (env u) = pf_world (env s) \<and>
      inuse_ids u = inuse_ids s + mset [rid \<leftarrow> [np_ID np]. rid \<in> gmap_keys m] \<and>
      idle_ids u = idle_ids s + mset [rid \<leftarrow> [np_ID np]. rid \<notin> gmap_keys m]"
  proof (cases "gmap_get m (np_ID np)")
    case None
    then have st': "AddIdle (PortResource port) ?s = (o1, u)" using st by (simp add: step_def)
    obtain q where q: "AddIdle (PortResource port) ?s = (Returns (), ?s\<lparr>idle := q, clock := stl (clock ?s)\<rparr>)"
      by (rule AddIdle_run [OF free pool_safeD(6) [OF safe]])
    have k: "np_ID np \<notin> gmap_keys m" using None by (simp add: gmap_get_None_iff)
    note a = ports.AddIdle_keeps [OF safe fresh st']
    have uq: "u = ?s\<lparr>idle := q, clock := stl (clock ?s)\<rparr>" using q st' by simp
    have "idle_ids u = add_mset (np_ID np) (idle_ids ?s)" using a(6) rest(2) pid by auto
    moreover have "inuse_ids u = inuse_ids s" "pf_world (env u) = pf_world (env s)" "minIdle u = minIdle s"
      by (simp_all add: uq inuse_ids_def)
    ultimately show ?thesis using a(1-5) free k by (simp add: manager_safe_def)
  next
    case (Some pod)
    then have st': "AddInuse (PortResource port) ?s = (o1, u)" using st by (simp add: step_def)
    have k: "np_ID np \<in> gmap_keys m" using Some by (rule gmap_get_Some_key)
    note a = ports.AddInuse_keeps [OF safe fresh st']
    have uq: "u = ?s\<lparr>inuse := gmap_put (inuse ?s) (np_ID np) (PortResource port)\<rparr>"
      using AddInuse_run [OF free, of "PortResource port"] st' pid by simp
    have "np_ID np \<notin> gmap_keys (inuse ?s)"
      using fresh(1) pid by (simp add: held_def set_inuse_ids [symmetric])
    then have "inuse_ids u = add_mset (np_ID np) (inuse_ids s)"
      using inuse_ids_put [OF pool_safeD(7) [OF safe]] by (simp add: uq inuse_ids_def)
    moreover have "idle_ids u = idle_ids s" "pf_world (env u) = pf_world (env s)" "minIdle u = minIdle s"
      by (simp_all add: uq)
    ultimately show ?thesis using a(1-5) free k by (simp add: manager_safe_def)
  qed
  have held_u: "set_mset (held u) = insert (np_ID np) (set_mset (held s))"
    using u by (auto simp: held_def)
  have "distinct (map np_ID nps)" "np_ID ` set nps \<subseteq> issued (pf_world (env u))"
    "np_ID ` set nps \<inter> set_mset (held u) = {}"
    using Cons.prems(3-5) u held_u by auto
  with Cons.IH [of u] u rest show ?case by auto
qed

lemma initializer_run:
  assumes "initializer netId node m subnet s = (Returns None, t)"
  obtains ports w where
    "ListPortWithFilter (pf_client (env s))
       \<lparr>lf_NetworkID = netId, lf_DeviceOwner = DeviceOwner, lf_DeviceID = '''',
        lf_Tags = vm_tag (node_UUID node)\<rparr> (pf_world (env s)) = (Returns (ports, None), w)"
    "init_ports m subnet ports (s\<lparr>env := (env s)\<lparr>pf_world := w\<rparr>\<rparr>) = (Returns (), t)"
  using assms
  by (auto simp: initializer_def pool_call_run split: prod.splits outcome.splits option.splits)

lemma manager_starts:
  assumes ok: "neutron_ok issued (networkCliV2 client)"
    and net: "GetNetworkID client (dc_NetID config) w = (Returns (Inr netId), w1)"
    and sub: "GetSubnetworkID client (dc_SubnetID config) w1 = (Returns (Inr subnetId), w2)"
    and get: "GetSubnet client subnetId w2 = (Returns (Inr subnet), w3)"
    and node: "dc_Node config = Some node"
    and lst: "ListPortWithFilter client
       \<lparr>lf_NetworkID = netId, lf_DeviceOwner = DeviceOwner, lf_DeviceID = '''',
        lf_Tags = vm_tag (node_UUID node)\<rparr> w3 = (Returns (ports, None), w4)"
    and new: "NewPortResourceManager config client m clk rnd w = Returns (Inr p)"
  shows "manager_safe issued p" "\<not> locked p"
    "inuse_ids p = mset [rid \<leftarrow> map np_ID ports. rid \<in> gmap_keys m]"
    "rid \<in># idle_ids p \<Longrightarrow> rid \<in> np_ID ` set ports - gmap_keys m \<or> rid \<notin> issued w4"
    "dc_MinIdleSize config \<le> idle_size p \<or> capacity p \<le> pool_size p"
    "int (length ports) \<le> capacity p \<Longrightarrow> pool_ok issued p \<and> balanced p"
proof -
  have r: "NewSimpleObjectPool (pool_config config netId node m subnet) clk
       (new_factory client netId subnetId node w3 rnd) = Returns (Inr p)"
    using new net sub get node by (simp add: NewPortResourceManager_def)
  let ?cfg = "pool_config config netId node m subnet"
  let ?e = "new_factory client netId subnetId node w3 rnd"
  let ?n = "new_pool ?cfg clk ?e"
  have e: "pf_client ?e = client" "pf_world ?e = w3" "factory_ok issued ?e"
    using ok by (simp_all add: new_factory_def factory_ok_def)
  have n: "env ?n = ?e" "\<not> locked ?n" "tokens ?n = 0" "tokenCap ?n = nat (capacity ?n)"
    "minIdle ?n = dc_MinIdleSize config" "idle_ids ?n = {#}" "inuse_ids ?n = {#}"
    using NewPriorityQueue_wf(2)
    by (simp_all add: new_pool_def idle_ids_def inuse_ids_def pool_config_def)
  obtain s1 where init: "initializer netId node m subnet ?n = (Returns None, s1)"
    using r by (auto simp: NewSimpleObjectPool_def pool_config_def split: if_splits prod.splits
        outcome.splits option.splits)
  have loop: "init_ports m subnet ports (?n\<lparr>env := ?e\<lparr>pf_world := w4\<rparr>\<rparr>) = (Returns (), s1)"
    using initializer_run [OF init] lst unfolding n(1) e(1,2) by (metis Pair_inject outcome.inject(1))
  note l = ListPortWithFilter_facts [OF ok lst]
  let ?m = "?n\<lparr>env := ?e\<lparr>pf_world := w4\<rparr>\<rparr>"
  have "pool_safe port_factory (factory_ok issued) (\<lambda>f. issued (pf_world f)) ?n"
    by (rule ports.new_pool_safe [OF _ e(3)]) (simp add: pool_config_def)
  then have safe: "manager_safe issued ?m"
    using world_safe [of issued ?n w4] l(1) n(1) e(2) by (simp add: manager_safe_def)
  have held: "held ?m = {#}" using n(6,7) by (simp add: held_def)
  have s1: "manager_safe issued s1 \<and> \<not> locked s1 \<and> tokens s1 = tokens ?m \<and> tokenCap s1 = tokenCap ?m \<and>
      capacity s1 = capacity ?m \<and> minIdle s1 = minIdle ?m \<and> pf_world (env s1) = pf_world (env ?m) \<and>
      inuse_ids s1 = inuse_ids ?m + mset [rid \<leftarrow> map np_ID ports. rid \<in> gmap_keys m] \<and>
      idle_ids s1 = idle_ids ?m + mset [rid \<leftarrow> map np_ID ports. rid \<notin> gmap_keys m]"
    by (rule init_ports_safe [OF safe _ l(3) _ _ loop]) (use n l(2) held in simp_all)
  have init': "(case cfg_Initializer ?cfg of None \<Rightarrow> go_return None | Some f \<Rightarrow> f) ?n = (Returns None, s1)"
    using init by (simp add: pool_config_def)
  have cap: "tokenCap s1 = nat (capacity s1)" "capacity s1 = capacity ?n" "minIdle s1 = cfg_MinIdle ?cfg"
    "tokens s1 = 0" "\<not> locked s1"
    using s1 n by (simp_all add: pool_config_def)
  note c = ports.constructor_ends [OF init' s1 [THEN conjunct1, unfolded manager_safe_def]
      cap(5,4,1,2,3) r]
  have inuse: "inuse_ids p = mset [rid \<leftarrow> map np_ID ports. rid \<in> gmap_keys m]"
    using c(6) s1 n(7) by (simp add: inuse_ids_def)
  have idle: "rid \<in> np_ID ` set ports - gmap_keys m \<or> rid \<notin> issued w4" if "rid \<in># idle_ids p" for rid
    using c(7) [OF that] s1 n(6) by auto
  have "size (held s1) = length ports"
    using s1 n(6,7) sum_length_filter_compl [of "\<lambda>rid. rid \<in> gmap_keys m" "map np_ID ports"]
    by (simp add: held_def)
  then have sz: "pool_size s1 = int (length ports)"
    using pool_size_eq s1 manager_safeD(3) by metis
  have full: "pool_ok issued p \<and> balanced p" if "int (length ports) \<le> capacity p"
  proof -
    have b: "balanced p" using c(3,5) sz that by simp
    then show ?thesis using c(1) by (simp add: pool_ok_def guarded_def balanced_slack)
  qed
  show "manager_safe issued p" using c(1) by (simp add: manager_safe_def)
  show "\<not> locked p" by (rule c(2))
  show "inuse_ids p = mset [rid \<leftarrow> map np_ID ports. rid \<in> gmap_keys m]" by (rule inuse)
  show "rid \<in> np_ID ` set ports - gmap_keys m \<or> rid \<notin> issued w4" if "rid \<in># idle_ids p"
    by (rule idle [OF that])
  show "dc_MinIdleSize config \<le> idle_size p \<or> capacity p \<le> pool_size p"
    using c(4) by (simp add: pool_config_def)
  show "int (length ports) \<le> capacity p \<Longrightarrow> pool_ok issued p \<and> balanced p" by (rule full)
qed

subsection \<open>Garbage collection\<close>

lemma Release_of_use:
  assumes ok: "pool_ok issued s" and free: "\<not> locked s" and k: "k \<in># inuse_ids s"
  obtains t where "ReleaseWithReverse k d s = (Returns None, t)" "pool_ok issued t" "\<not> locked t"
    "inuse_ids s = add_mset k (inuse_ids t)" "idle_ids t = add_mset k (idle_ids s)"
proof -
  note sd = manager_safeD [OF pool_ok_safe [OF ok]]
  obtain r where r: "gmap_get (inuse s) k = Some r"
    using k gmap_get_None_iff [of "inuse s" k] by (auto simp: set_inuse_ids)
  obtain q where q: "ReleaseWithReverse k d s = (Returns None, s\<lparr>inuse := gmap_delete (inuse s) k,
      idle := q, tickerWaiting := False, clock := stl (clock s)\<rparr>)"
    "mset (queue_items q) = add_mset
       \<lparr>item_res = r, item_reverse = released_at (shd (clock s)) d\<rparr> (mset (queue_items (idle s)))"
    by (rule Release_run [OF free sd(1) r])
  let ?t = "s\<lparr>inuse := gmap_delete (inuse s) k, idle := q, tickerWaiting := False, clock := stl (clock s)\<rparr>"
  have "pool_ok issued ?t"
    using ports.Release_settles [of issued s k d] ok unfolding q(1) by (simp add: pool_ok_def settles_def)
  moreover have "inuse_ids s = add_mset k (inuse_ids ?t)"
    using inuse_ids_delete [OF pool_wfD(2) [OF sd(1)]] k by (simp add: inuse_ids_def set_inuse_ids [symmetric])
  moreover have "idle_ids ?t = add_mset k (idle_ids s)"
    using q(2) pool_wfD(3) [OF sd(1) r] by (simp add: idle_ids_def item_id_def)
  ultimately show ?thesis using that q(1) free by simp
qed

lemma GarbageCollection_releases:
  "pool_ok issued s \<Longrightarrow> \<not> locked s \<Longrightarrow> distinct (map fst ex) \<Longrightarrow>
   \<forall>k \<in> fst ` set ex. k \<notin># idle_ids s \<Longrightarrow>
   \<exists>t. GarbageCollection ex s = (Returns None, t) \<and> pool_ok issued t \<and> held t = held s \<and>
     inuse_ids t = filter_mset (\<lambda>k. k \<notin> fst ` set ex) (inuse_ids s)"
proof (induction ex arbitrary: s)
  case Nil
  then show ?case by simp
next
  case (Cons kv ex)
  obtain k v where kv: "kv = (k, v)" by fastforce
  note sd = manager_safeD [OF pool_ok_safe [OF Cons.prems(1)]]
  note st = Stat_run [OF Cons.prems(2) sd(1), of k]
  have one: "count (inuse_ids s) x \<le> 1" for x
    using spec [OF sd(2), of x] by (simp add: held_def)
  show ?case
  proof (cases "k \<in># inuse_ids s")
    case True
    obtain t where t: "ReleaseWithReverse k 0 s = (Returns None, t)" "pool_ok issued t" "\<not> locked t"
      "inuse_ids s = add_mset k (inuse_ids t)" "idle_ids t = add_mset k (idle_ids s)"
      by (rule Release_of_use [OF Cons.prems(1,2) True])
    have "\<forall>j \<in> fst ` set ex. j \<notin># idle_ids t"
      using Cons.prems(3,4) t(5) kv by auto
    with Cons.IH [OF t(2,3)] Cons.prems(3) obtain u where u: "GarbageCollection ex t = (Returns None, u)"
      "pool_ok issued u" "held u = held t"
      "inuse_ids u = filter_mset (\<lambda>k. k \<notin> fst ` set ex) (inuse_ids t)" by auto
    have "k \<notin># inuse_ids t" using one [of k] t(4) by (simp add: not_in_iff)
    then have "filter_mset (\<lambda>j. j \<notin> fst ` set ex) (inuse_ids t) =
        filter_mset (\<lambda>j. j \<notin> fst ` set (kv # ex)) (inuse_ids s)"
      unfolding t(4) kv by (auto intro!: filter_mset_cong)
    moreover have "held t = held s" using t(4,5) by (simp add: held_def)
    ultimately show ?thesis
      using u t(1) True st kv by (simp add: Manager_Release_def Release_def held_def)
  next
    case False
    then have "k \<notin># held s" using Cons.prems(4) kv by (simp add: held_def)
    moreover have "\<forall>j \<in> fst ` set ex. j \<notin># idle_ids s" "distinct (map fst ex)"
      using Cons.prems(3,4) by simp_all
    with Cons.IH [OF Cons.prems(1,2)] obtain u where u: "GarbageCollection ex s = (Returns None, u)"
      "pool_ok issued u" "held u = held s"
      "inuse_ids u = filter_mset (\<lambda>k. k \<notin> fst ` set ex) (inuse_ids s)" by blast
    moreover have "filter_mset (\<lambda>j. j \<notin> fst ` set ex) (inuse_ids s) =
        filter_mset (\<lambda>j. j \<notin> fst ` set (kv # ex)) (inuse_ids s)"
      using False kv by (intro filter_mset_cong) auto
    ultimately show ?thesis using st kv by simp
  qed
qed

end
