(* ===== verification/Static_Laws.thy ===== *)
theory Static_Laws
  imports Manager_Laws
begin

section \<open>Allocating a static address\<close>

text \<open>
  The documented behaviour of the port service that static allocation relies on: a port created
  with one fixed address asked for gets that address.
\<close>

definition honours_address :: "'w ServiceClient \<Rightarrow> bool" where
  "honours_address api \<longleftrightarrow>
     (\<forall>opts w p w' f. ports_Create api opts w = (Returns (Inr p), w') \<longrightarrow> pc_FixedIPs opts = [f] \<longrightarrow>
        fip_IPAddress f \<noteq> '''' \<longrightarrow> np_FixedIPs p \<noteq> [] \<longrightarrow>
        fip_IPAddress (hd (np_FixedIPs p)) = fip_IPAddress f)"

lemma PortFactory_Create_address:
  assumes h: "honours_address (networkCliV2 (pf_client f))" and ip: "ip \<noteq> ''''"
    and run: "PortFactory_Create ip f = (Returns (Inr r), f')"
  shows "GetIPAddress r = ip"
proof -
  obtain q w where q: "CreatePort (pf_client f) (create_opts f ip) (pf_world f) = (Returns (Inr q), w)"
    "r = PortResource q"
    using run by (auto simp: PortFactory_Create_run Let_def
        split: prod.splits outcome.splits sum.splits option.splits if_splits)
  obtain w2 p where p: "ports_Create (networkCliV2 (pf_client f)) (port_request (create_opts f ip)) w2 =
      (Returns (Inr p), w)" "np_FixedIPs p \<noteq> []" "port_IP q = fip_IPAddress (hd (np_FixedIPs p))"
    using CreatePort_success [OF q(1)] by metis
  let ?f = "\<lparr>fip_SubnetID = pf_subnetID f, fip_IPAddress = ip\<rparr>"
  have "pc_FixedIPs (port_request (create_opts f ip)) = [?f]" "fip_IPAddress ?f \<noteq> ''''"
    using ip by (simp_all add: port_request_def create_opts_def)
  then have "fip_IPAddress (hd (np_FixedIPs p)) = fip_IPAddress ?f"
    using h p(1,2) unfolding honours_address_def by blast
  then show ?thesis using q(2) p(3) by simp
qed

text \<open>Taking a certain idle resource into use.\<close>

lemma Acquire_certain:
  assumes s: "manager_safe issued s" and free: "\<not> locked s" and i: "i \<in> set (queue_items (idle s))"
  obtains t where "Acquire ctx (item_id i) s = (Returns (Inr (item_res i)), t)" "manager_safe issued t"
    "item_id i \<in># inuse_ids t" "pool_size t = pool_size s" "tokens t = tokens s" "capacity t = capacity s"
    "\<not> locked t"
proof -
  note d = manager_safeD [OF s]
  have mem: "item_id i \<in># idle_ids s" using i by (simp add: set_idle_ids)
  then have ne: "idle_ids s \<noteq> {#}" by auto
  have "item_id i \<in># held s" using mem by (simp add: held_def)
  then have "item_id i \<in> issued (pf_world (env s))" using d(6) by blast
  then have nonempty: "item_id i \<noteq> ''''" using neutron_okD(3) [OF d(5)] by metis
  obtain j q where a: "Acquire ctx (item_id i) s = (Returns (Inr (item_res j)),
       s\<lparr>idle := q, inuse := gmap_put (inuse s) (item_id j) (item_res j)\<rparr>)" "queue_wf q"
    "j \<in> set (queue_items (idle s))"
    "mset (queue_items (idle s)) = add_mset j (mset (queue_items q))"
    "item_id i \<noteq> '''' \<and> item_id i \<in># idle_ids s \<longrightarrow> item_id j = item_id i"
    by (rule Acquire_idle_run [OF free d(1) ne])
  have same: "j = i"
    by (rule unique_idle [OF d(2) a(3) i]) (use a(5) mem nonempty in blast)
  have ex: "exclusive s" using d(2) by (simp add: exclusive_def)
  note m = move_to_inuse [OF d(1) ex a(2,4)]
  let ?t = "s\<lparr>idle := q, inuse := gmap_put (inuse s) (item_id i) (item_res i)\<rparr>"
  have "manager_safe issued ?t"
    using s m exclusive_held [OF m(1)] unfolding same by (simp add: manager_safe_def pool_safe_def)
  moreover have "item_id i \<in># inuse_ids ?t" by (simp add: set_inuse_ids)
  ultimately show ?thesis using that [of ?t] a(1) m(2) free same by simp
qed

lemma idle_with_ip_Some:
  "idle_with_ip ip (map Some items) = Some res \<Longrightarrow>
   \<exists>i \<in> set items. item_res i = res \<and> GetIPAddress res = ip"
  by (induction items) (auto simp: GetResource_def split: if_splits)

lemma acquire_occupied_facts:
  assumes s: "manager_safe issued s" and run: "acquire_occupied ctx ip s = (Returns (Inr r), t)"
  shows "manager_safe issued t" "GetIPAddress r = ip" "GetResourceId r \<in># inuse_ids t"
    "tokens t = tokens s" "capacity t = capacity s" "pool_size t = pool_size s" "GetResourceId r \<in># held s"
proof -
  have items: "GetIdle s = Some (map Some (queue_items (idle s)))"
    using List_facts [OF manager_safeD(3) [OF s]] by (simp add: GetIdle_def)
  obtain res where res: "idle_with_ip ip (map Some (queue_items (idle s))) = Some res"
    "Acquire ctx (GetResourceId res) s = (Returns (Inr r), t)"
    using run items by (auto simp: acquire_occupied_def split: option.splits)
  obtain i where i: "i \<in> set (queue_items (idle s))" "item_res i = res" "GetIPAddress res = ip"
    using idle_with_ip_Some [OF res(1)] by blast
  have free: "\<not> locked s" using res(2) blocked_when_locked(3) [of s] by force
  have rid: "GetResourceId res = item_id i" using i(2) by (simp add: item_id_def)
  obtain t' where t': "Acquire ctx (item_id i) s = (Returns (Inr (item_res i)), t')" "manager_safe issued t'"
    "item_id i \<in># inuse_ids t'" "pool_size t' = pool_size s" "tokens t' = tokens s" "capacity t' = capacity s"
    by (rule Acquire_certain [OF s free i(1)])
  have eq: "r = res" "t = t'" using t'(1) res(2) rid i(2) by auto
  have "item_id i \<in># held s" using i(1) by (simp add: held_def set_idle_ids)
  then show "manager_safe issued t" "GetIPAddress r = ip" "GetResourceId r \<in># inuse_ids t"
    "tokens t = tokens s" "capacity t = capacity s" "pool_size t = pool_size s" "GetResourceId r \<in># held s"
    using t' eq i rid by simp_all
qed

lemma acquire_unoccupied_facts:
  assumes s: "manager_safe issued s" and ip: "ip \<noteq> ''''"
    and h: "honours_address (networkCliV2 (pf_client (env s)))"
    and run: "acquire_unoccupied ctx ip s = (Returns (Inr r), t)"
  shows "manager_safe issued t" "GetIPAddress r = ip" "GetResourceId r \<in># inuse_ids t"
    "tokens t = tokens s" "capacity t = capacity s" "pool_size t = pool_size s + 1" "GetResourceId r \<notin># held s"
proof -
  note safe = s [unfolded manager_safe_def]
  obtain o1 u where cr: "pool_Create ip s = (o1, u)" by fastforce
  obtain res where res: "o1 = Returns (Inr res)"
    using run cr by (auto simp: acquire_unoccupied_def split: outcome.splits sum.splits)
  note c = ports.create_keeps [OF safe cr]
  have fresh: "GetResourceId res \<notin># held u" "GetResourceId res \<in> issued (pf_world (env u))"
    using c(8) res by auto
  obtain o2 v where add: "AddIdle res u = (o2, v)" by fastforce
  note a = ports.AddIdle_keeps [OF c(1) fresh add]
  have acq: "o2 = Returns ()" "Acquire ctx (GetResourceId res) v = (Returns (Inr r), t)"
    using run cr res add by (simp_all add: acquire_unoccupied_def split: outcome.splits)
  have v: "manager_safe issued v" "\<not> locked v" "pool_size v = pool_size u + 1"
    "idle_ids v = add_mset (GetResourceId res) (idle_ids u)"
    using a(1,5,6) acq(1) by (auto simp: manager_safe_def pool_size_def)
  have "\<not> locked u" using a(6) acq(1) by auto
  then obtain q where q: "AddIdle res u = (Returns (), u\<lparr>idle := q, clock := stl (clock u)\<rparr>)"
    "mset (queue_items q) = add_mset \<lparr>item_res = res, item_reverse = shd (clock u)\<rparr> (mset (queue_items (idle u)))"
    by (rule AddIdle_run [OF _ pool_safeD(6) [OF c(1)]])
  let ?i = "\<lparr>item_res = res, item_reverse = shd (clock u)\<rparr>"
  have "idle v = q" using q(1) add by auto
  then have "?i \<in># mset (queue_items (idle v))" using q(2) by simp
  then have i: "?i \<in> set (queue_items (idle v))" by simp
  have rid: "item_id ?i = GetResourceId res" by (simp add: item_id_def)
  obtain t' where t': "Acquire ctx (item_id ?i) v = (Returns (Inr (item_res ?i)), t')" "manager_safe issued t'"
    "item_id ?i \<in># inuse_ids t'" "pool_size t' = pool_size v" "tokens t' = tokens v" "capacity t' = capacity v"
    by (rule Acquire_certain [OF v(1,2) i])
  have eq: "r = res" "t = t'" using t'(1) acq(2) rid by auto
  have pc: "PortFactory_Create ip (env s) = (Returns (Inr res), env u)"
    using cr res manager_safeD(4) [OF s]
    by (auto simp: pool_Create_def port_factory_def split: prod.splits)
  show "GetIPAddress r = ip" using PortFactory_Create_address [OF h ip pc] eq by simp
  show "manager_safe issued t" "GetResourceId r \<in># inuse_ids t"
    "tokens t = tokens s" "capacity t = capacity s" "pool_size t = pool_size s + 1" "GetResourceId r \<notin># held s"
    using t' eq rid a(2,4) v(3) c(2-5) fresh(1) by simp_all
qed

lemma acquireStaticAddress_facts:
  assumes s: "manager_safe issued s" and h: "honours_address (networkCliV2 (pf_client (env s)))"
    and run: "acquireStaticAddress P ctx s = (Returns (Inr r), t)"
  shows "manager_safe issued t" "GetIPAddress r = annotation (rc_Pod ctx) IpAddressAnnotation"
    "GetResourceId r \<in># inuse_ids t" "tokens t = tokens s" "capacity t = capacity s"
    "pool_size t = pool_size s + (if GetResourceId r \<in># held s then 0 else 1)"
proof -
  let ?ip = "annotation (rc_Pod ctx) IpAddressAnnotation"
  let ?f = "\<lparr>lf_NetworkID = pf_netID (env s), lf_DeviceOwner = DeviceOwner, lf_DeviceID = '''', lf_Tags = ''''\<rparr>"
  have ip: "?ip \<noteq> ''''" "P ?ip"
    using run by (auto simp: acquireStaticAddress_def Let_def split: if_splits)
  obtain o1 u where l: "pool_call (\<lambda>c. ListPortWithFilter c ?f) s = (o1, u)" by fastforce
  obtain ports where o1: "o1 = Returns (ports, None)"
    using run l ip by (auto simp: acquireStaticAddress_def Let_def split: outcome.splits option.splits prod.splits)
  note ok = manager_safeD(5) [OF s]
  note lu = pool_call_safe [OF s ListPort_grows [OF ok] l]
  obtain o2 v where g: "pool_call (\<lambda>c. GetSubnet c (pf_subnetID (env u))) u = (o2, v)" by fastforce
  obtain subnet where o2: "o2 = Returns (Inr subnet)"
    using run l ip o1 g by (auto simp: acquireStaticAddress_def Let_def split: outcome.splits sum.splits)
  note lv = pool_call_safe [OF lu(1) neutron_grows(3) [OF manager_safeD(5) [OF lu(1)]] g]
  obtain w where v: "v = s\<lparr>env := (env s)\<lparr>pf_world := w\<rparr>\<rparr>" using lu(2) lv(2) by auto
  have same: "held v = held s" "tokens v = tokens s" "capacity v = capacity s" "pool_size v = pool_size s"
    by (simp_all add: v)
  have hv: "honours_address (networkCliV2 (pf_client (env v)))" using h by (simp add: v)
  consider "acquire_occupied (rc_Context ctx) ?ip v = (Returns (Inr r), t)"
    | "acquire_unoccupied (rc_Context ctx) ?ip v = (Returns (Inr r), t)"
    using run l ip o1 g o2
    by (auto simp: acquireStaticAddress_def Let_def split: outcome.splits bool.splits)
  then have "manager_safe issued t \<and> GetIPAddress r = ?ip \<and> GetResourceId r \<in># inuse_ids t \<and>
      tokens t = tokens s \<and> capacity t = capacity s \<and>
      pool_size t = pool_size s + (if GetResourceId r \<in># held s then 0 else 1)"
  proof cases
    case 1
    show ?thesis using acquire_occupied_facts [OF lv(1) 1] same by simp
  next
    case 2
    show ?thesis using acquire_unoccupied_facts [OF lv(1) ip(1) hv 2] same by simp
  qed
  then show "manager_safe issued t" "GetIPAddress r = ?ip"
    "GetResourceId r \<in># inuse_ids t" "tokens t = tokens s" "capacity t = capacity s"
    "pool_size t = pool_size s + (if GetResourceId r \<in># held s then 0 else 1)" by blast+
qed

end
