(* ===== verification/Ipam_Properties.thy ===== *)
theory Ipam_Properties
  imports Static_Laws Samples
begin

section \<open>Properties of the Neutron client, the factory and the manager\<close>

subsection \<open>The Neutron client\<close>

text \<open>
  C31. \<open>CreatePort\<close> leaves no port behind when it reports an error after the creation: if the
  subnet or the network could not be read, the port just created is deleted again and the
  read's error is returned.
\<close>

theorem create_port_cleans_up:
  assumes "GetSubnet c (co_SubnetID opts) w = (Returns sb, w1)"
    and "getNetwork c (co_NetworkID opts) w1 = (Returns nt, w2)"
    and "ports_Create (networkCliV2 c) (port_request opts) w2 = (Returns (Inr p), w3)"
    and "ports_Delete (networkCliV2 c) (np_ID p) w3 = (Returns d, w4)"
    and "sb = Inl e \<or> (\<exists>s. sb = Inr s) \<and> nt = Inl e"
  shows "CreatePort c opts w = (Returns (Inl e), w4)"
  using CreatePort_run(1,2) [OF assms(1-3)] assms(4,5) by (auto simp: DeletePort_def)

definition sim_opts :: CreateOpts where
  "sim_opts = \<lparr>co_Name = ''x'', co_NetworkID = ''n1'', co_SubnetID = ''sn'', co_IPAddress = '''',
     co_ProjectID = '''', co_SecurityGroup = '''', co_DeviceID = '''', co_DeviceOwner = DeviceOwner,
     co_Tags = ''''\<rparr>"

theorem create_port_cleans_up_witness:
  "\<exists>w'. CreatePort \<lparr>networkCliV2 = sim_api\<lparr>subnets_Get := (\<lambda>rid w. (Returns (Inl (Foreign ''gone'')), w))\<rparr>,
       podsDeleteLock = False, portIDs = []\<rparr> sim_opts sim_world = (Returns (Inl (Foreign ''gone'')), w') \<and>
     length (sim_created w') = 1 \<and> sim_live w' = []"
proof -
  let ?c = "\<lparr>networkCliV2 = sim_api\<lparr>subnets_Get := (\<lambda>rid w. (Returns (Inl (Foreign ''gone'')), w))\<rparr>,
       podsDeleteLock = False, portIDs = []\<rparr>"
  have "CreatePort ?c sim_opts sim_world = (Returns (Inl (Foreign ''gone'')),
      \<lparr>sim_created = [port_request sim_opts], sim_deleted = [sim_id 0]\<rparr>)"
    by (rule create_port_cleans_up [of ?c _ _ "Inl (Foreign ''gone'')" sim_world
          "Inr (\<lparr>net_ID = ''n1'', net_Name = ''net''\<rparr>, 1500)" sim_world
          "sim_port (port_request sim_opts) 0" "\<lparr>sim_created = [port_request sim_opts], sim_deleted = []\<rparr>" None])
      (simp_all add: GetSubnet_def getNetwork_def sim_api_def sim_opts_def sim_world_def sim_port_def)
  then show ?thesis by (simp add: sim_live_def)
qed

text \<open>
  A listing of ports returns the last page the service sends, not all of them: the handler
  of \<open>EachPage\<close> overwrites what the pages before held.
\<close>

theorem listing_returns_last_page:
  assumes "ports_List (networkCliV2 c)
       \<lparr>lo_NetworkID = lf_NetworkID f, lo_DeviceOwner = lf_DeviceOwner f, lo_Tags = lf_Tags f\<rparr> w =
      (Returns (map (\<lambda>ps. (ps, None)) pages, None), w')" "pages \<noteq> []"
  shows "ListPortWithFilter c f w = (Returns (last pages, None), w')"
proof -
  let ?l = "map (\<lambda>ps. (ps, None :: error option)) pages"
  have "EachPage ?l None [] = (last pages, None)"
    using EachPage_last [of ?l None "[]"] assms(2) by (auto simp: last_map)
  then show ?thesis using assms(1) by (simp add: ListPortWithFilter_def ListPort_def)
qed

theorem listing_returns_last_page_witness:
  "ListPortWithFilter \<lparr>networkCliV2 = sim_api\<lparr>ports_List := (\<lambda>opts w.
       (Returns ([([sim_port sim_req 0], None), ([sim_port sim_req 1], None)], None), w))\<rparr>,
       podsDeleteLock = False, portIDs = []\<rparr>
     \<lparr>lf_NetworkID = ''n1'', lf_DeviceOwner = '''', lf_DeviceID = '''', lf_Tags = ''''\<rparr> sim_world =
   (Returns ([sim_port sim_req 1], None), sim_world)"
proof -
  let ?c = "\<lparr>networkCliV2 = sim_api\<lparr>ports_List := (\<lambda>opts w.
       (Returns ([([sim_port sim_req 0], None), ([sim_port sim_req 1], None)], None), w))\<rparr>,
       podsDeleteLock = False, portIDs = []\<rparr>"
  let ?f = "\<lparr>lf_NetworkID = ''n1'', lf_DeviceOwner = '''', lf_DeviceID = '''', lf_Tags = ''''\<rparr>"
  show ?thesis
    using listing_returns_last_page [of ?c ?f sim_world "[[sim_port sim_req 0], [sim_port sim_req 1]]" sim_world]
    by simp
qed

text \<open>
  Resolving a network: a UUID stands for itself and costs no call; any other name is looked
  up in the list of networks, and when it is not there the result is the empty id, without an
  error.
\<close>

theorem network_lookup:
  assumes "networks_AllPages (networkCliV2 c) '''' w = (Returns (Inr pages), w')"
    and "networks_Extract (networkCliV2 c) (Some pages) = Returns (ns, e)"
  shows "GetNetworkID c name w =
    (if IsValidUUID name then (Returns (Inr name), w)
     else (Returns (Inr (case find (\<lambda>n. net_Name n = name) ns of
        Some n \<Rightarrow> net_ID n | None \<Rightarrow> '''')), w'))"
proof -
  have "find_network name ns = (case find (\<lambda>n. net_Name n = name) ns of Some n \<Rightarrow> net_ID n | None \<Rightarrow> '''')"
    by (induction ns) auto
  then show ?thesis using assms by (simp add: GetNetworkID_def ListNetworks_def)
qed

theorem network_lookup_witness:
  "GetNetworkID sim_client ''net'' sim_world = (Returns (Inr ''n1''), sim_world) \<and>
   GetNetworkID sim_client ''nte'' sim_world = (Returns (Inr ''''), sim_world)"
proof -
  have "\<not> IsValidUUID ''net''" "\<not> IsValidUUID ''nte''" by (auto dest: IsValidUUID_length)
  moreover have "networks_AllPages (networkCliV2 sim_client) '''' sim_world = (Returns (Inr ''''), sim_world)"
    "networks_Extract (networkCliV2 sim_client) (Some '''') = Returns ([\<lparr>net_ID = ''n1'', net_Name = ''net''\<rparr>], None)"
    by (simp_all add: sim_client_def sim_api_def)
  ultimately show ?thesis
    using network_lookup [of sim_client sim_world "''''" sim_world] by simp
qed

subsection \<open>The factory\<close>

text \<open>
  C30. A refused deletion stops the factory for good: \<open>Dispose\<close> returns the error without giving
  its mutex back, so that every later \<open>Dispose\<close> blocks and no later \<open>Create\<close> ever returns a
  resource, though it still creates the port.
\<close>

theorem failed_delete_blocks_factory:
  assumes "\<not> pf_locked f"
    and "DeletePort (pf_client f) (GetResourceId res) (pf_world f) = (Returns (Some err), w)"
  shows "\<exists>f'. PortFactory_Dispose res f =
      (Returns (Some (Errorf ''failed to delete port with error'' (Some err))), f') \<and>
    (\<forall>r. PortFactory_Dispose r f' = (Halts Blocked, f')) \<and>
    (\<forall>ip r f''. PortFactory_Create ip f' \<noteq> (Returns (Inr r), f''))"
proof -
  let ?f = "f\<lparr>pf_locked := True, pf_world := w\<rparr>"
  have "PortFactory_Dispose res f =
      (Returns (Some (Errorf ''failed to delete port with error'' (Some err))), ?f)"
    using assms by (simp add: PortFactory_Dispose_run)
  moreover have "PortFactory_Dispose r ?f = (Halts Blocked, ?f)" for r
    by (simp add: PortFactory_Dispose_run)
  moreover have "PortFactory_Create ip ?f \<noteq> (Returns (Inr r), f'')" for ip r f''
    by (auto simp: PortFactory_Create_run Let_def
        split: prod.splits outcome.splits sum.splits option.splits)
  ultimately show ?thesis by blast
qed

theorem failed_delete_blocks_factory_witness:
  "\<exists>f'. PortFactory_Dispose (PortResource (sample_port ''a'' ''10.0.0.2''))
       ((sim_factory sim_world)\<lparr>pf_client := sim_client\<lparr>networkCliV2 := sim_api_refusing\<rparr>\<rparr>) =
      (Returns (Some (Errorf ''failed to delete port with error'' (Some (Foreign ''conflict'')))), f') \<and>
    (\<forall>r. PortFactory_Dispose r f' = (Halts Blocked, f'))"
proof -
  let ?f = "(sim_factory sim_world)\<lparr>pf_client := sim_client\<lparr>networkCliV2 := sim_api_refusing\<rparr>\<rparr>"
  let ?r = "PortResource (sample_port ''a'' ''10.0.0.2'')"
  have "\<not> pf_locked ?f"
    "DeletePort (pf_client ?f) (GetResourceId ?r) (pf_world ?f) = (Returns (Some (Foreign ''conflict'')), sim_world)"
    by (simp_all add: sim_factory_def DeletePort_def sim_api_refusing_def)
  from failed_delete_blocks_factory [OF this] show ?thesis by blast
qed

subsection \<open>The manager\<close>

text \<open>
  C14. After a restart the manager's pool agrees with the ports of the node and the database:
  of the ports the service lists for the node, exactly those the mapping names are in use, an
  idle resource is one of the others or newly created, no resource is held twice, and if the
  node's ports fit into the configured capacity the account of tokens is exact.
\<close>

theorem manager_start_partitions_ports:
  assumes "neutron_ok issued (networkCliV2 client)"
    and "GetNetworkID client (dc_NetID config) w = (Returns (Inr netId), w1)"
    and "GetSubnetworkID client (dc_SubnetID config) w1 = (Returns (Inr subnetId), w2)"
    and "GetSubnet client subnetId w2 = (Returns (Inr subnet), w3)"
    and "dc_Node config = Some node"
    and "ListPortWithFilter client
       \<lparr>lf_NetworkID = netId, lf_DeviceOwner = DeviceOwner, lf_DeviceID = '''',
        lf_Tags = vm_tag (node_UUID node)\<rparr> w3 = (Returns (ports, None), w4)"
    and "NewPortResourceManager config client m clk rnd w = Returns (Inr p)"
  shows "manager_safe issued p \<and> \<not> locked p \<and>
     inuse_ids p = mset [rid \<leftarrow> map np_ID ports. rid \<in> gmap_keys m] \<and>
     (\<forall>rid. rid \<in># idle_ids p \<longrightarrow> rid \<in> np_ID ` set ports - gmap_keys m \<or> rid \<notin> issued w4) \<and>
     (dc_MinIdleSize config \<le> idle_size p \<or> capacity p \<le> pool_size p) \<and>
     (int (length ports) \<le> capacity p \<longrightarrow> pool_ok issued p \<and> balanced p)"
  using manager_starts [OF assms] by blast

definition sim_config :: DaemonConfigure where
  "sim_config = \<lparr>dc_ServiceCIDR = '''', dc_NetID = ''net'', dc_SubnetID = ''pods'', dc_MaxPoolSize = 3,
     dc_MinPoolSize = 0, dc_MaxIdleSize = 2, dc_MinIdleSize = 0, dc_Period = 0, dc_NodeName = ''node'',
     dc_Node = Some \<lparr>node_UUID = ''vm'', node_Hostname = '''', node_ProjectID = '''', node_Name = ''node'',
       node_AvailabilityZone = ''''\<rparr>\<rparr>"

definition sim_node :: sim where
  "sim_node = sim_world\<lparr>sim_created := [sim_req, sim_req]\<rparr>"

lemma sim_reads:
  "GetNetworkID sim_client ''net'' w = (Returns (Inr ''n1''), w)"
  "GetSubnetworkID sim_client ''pods'' w = (Returns (Inr ''sn''), w)"
  "GetSubnet sim_client ''sn'' w = (Returns (Inr sim_subnet), w)"
  "ListPortWithFilter sim_client f w = (Returns (sim_live w, None), w)"
  using IsValidUUID_length [of "''net''"] IsValidUUID_length [of "''pods''"]
  by (auto simp: GetNetworkID_def ListNetworks_def GetSubnetworkID_def ListSubnetworks_def
      GetSubnet_def ListPortWithFilter_def ListPort_def sim_client_def sim_api_def sim_subnet_def)

lemma sim_node_live: "sim_live sim_node = [sim_port sim_req 0, sim_port sim_req 1]"
  by (simp add: sim_live_def sim_node_def sim_world_def upt_rec)

lemma sim_start:
  "\<exists>p. NewPortResourceManager sim_config sim_client [(sim_id 0, pods)] (sconst 0) (sconst 0) sim_node =
     Returns (Inr p) \<and> capacity p = 3"
  by (simp add: NewPortResourceManager_def sim_config_def sim_reads NewSimpleObjectPool_def
      pool_config_def initializer_def pool_call_run new_pool_def new_factory_def sim_node_live)
    (simp add: sim_port_def sim_req_def ConvertPort_def gmap_get_def AddInuse_def AddIdle_def
      pool_Lock_def pool_Unlock_def time_Now_def idle_Push_def PriorityQueue_Push_def NewPriorityQueue_def
      slot_set_def grow_def PriorityQueue_bubbleUp.simps preload_def idle_size_def pool_size_def
      queueKeys_def PriorityQueue_Size_def gmap_put_def token_send_def sim_id_def eval_nat_numeral)

theorem manager_start_partitions_ports_witness:
  "\<exists>p. NewPortResourceManager sim_config sim_client [(sim_id 0, [''ns/pod''])] (sconst 0) (sconst 0) sim_node =
     Returns (Inr p) \<and> inuse_ids p = {#sim_id 0#} \<and> pool_ok sim_issued p \<and> balanced p"
proof -
  obtain p where p: "NewPortResourceManager sim_config sim_client [(sim_id 0, [''ns/pod''])] (sconst 0)
      (sconst 0) sim_node = Returns (Inr p)" "capacity p = 3" using sim_start by blast
  have ok: "neutron_ok sim_issued (networkCliV2 sim_client)"
    using sim_neutron_ok by (simp add: sim_client_def)
  have conf: "dc_NetID sim_config = ''net''" "dc_SubnetID sim_config = ''pods''"
    by (simp_all add: sim_config_def)
  have node: "dc_Node sim_config = Some \<lparr>node_UUID = ''vm'', node_Hostname = '''', node_ProjectID = '''',
      node_Name = ''node'', node_AvailabilityZone = ''''\<rparr>" by (simp add: sim_config_def)
  note r = manager_start_partitions_ports [OF ok sim_reads(1) [folded conf] sim_reads(2) [folded conf]
      sim_reads(3) node sim_reads(4) p(1)]
  have "[rid \<leftarrow> map np_ID (sim_live sim_node). rid \<in> gmap_keys [(sim_id 0, [''ns/pod''])]] = [sim_id 0]"
    by (simp add: sim_node_live sim_port_def gmap_keys_def)
  moreover have "length (sim_live sim_node) = 2" by (simp add: sim_node_live)
  ultimately show ?thesis using p r by simp
qed

subsection \<open>Static addresses\<close>

text \<open>
  C15. A pod that asks for an address by annotation and gets a resource gets one with that
  address; the resource is in use afterwards and no resource is held twice.
\<close>

theorem static_allocation_gives_address:
  assumes "manager_safe issued s" "honours_address (networkCliV2 (pf_client (env s)))"
    and "annotation (rc_Pod ctx) IpAddressAnnotation \<noteq> ''''"
    and "Manager_Allocate P ctx resId s = (Returns (Inr r), t)"
  shows "GetIPAddress r = annotation (rc_Pod ctx) IpAddressAnnotation \<and>
     GetResourceId r \<in># inuse_ids t \<and> manager_safe issued t \<and> (\<forall>x. count (held t) x \<le> 1)"
proof -
  have "acquireStaticAddress P ctx s = (Returns (Inr r), t)"
    using assms(3,4) by (simp add: Manager_Allocate_def requireStaticIP_def split: option.splits)
  note f = acquireStaticAddress_facts [OF assms(1,2) this]
  show ?thesis using f(1-3) manager_safeD(2) [OF f(1)] by blast
qed

text \<open>
  C39. But a resource created for a static address is taken without a token and without a look
  at the capacity: from a pool whose account is exact, the tokens and the resources then add
  up to one more than the capacity, so that a full pool ends up over its capacity.
\<close>

theorem static_allocation_takes_no_token:
  assumes "pool_ok issued s" "balanced s" "honours_address (networkCliV2 (pf_client (env s)))"
    and "annotation (rc_Pod ctx) IpAddressAnnotation \<noteq> ''''"
    and "Manager_Allocate P ctx resId s = (Returns (Inr r), t)" "GetResourceId r \<notin># held s"
  shows "tokens t = tokens s \<and> pool_size t = pool_size s + 1 \<and>
     int (tokens t) + pool_size t = capacity t + 1"
proof -
  have "acquireStaticAddress P ctx s = (Returns (Inr r), t)"
    using assms(4,5) by (simp add: Manager_Allocate_def requireStaticIP_def split: option.splits)
  note f = acquireStaticAddress_facts [OF pool_ok_safe [OF assms(1)] assms(3) this]
  show ?thesis using f(4-6) assms(2,6) by (simp add: balanced_def)
qed

text \<open>A full pool, and a pod that wants an address no port has yet.\<close>

definition sim_full :: "sim pool" where
  "sim_full = sim_pool\<lparr>tokens := 0, capacity := 3, tokenCap := 3\<rparr>"

definition sim_static :: ResourceContext where
  "sim_static = \<lparr>rc_Context = sim_ctx,
     rc_PodInfo = Some \<lparr>pi_Name = ''pod'', pi_Namespace = ''ns'', pi_PodIP = '''', pi_IpStickTime = 0\<rparr>,
     rc_Pod = \<lparr>pod_Name = ''pod'', pod_Namespace = ''ns'',
       pod_Annotations = [(IpAddressAnnotation, ''10.0.0.77'')], pod_OwnerKinds = [], pod_StatusIP = ''''\<rparr>\<rparr>"

lemma sim_full_ok: "pool_ok sim_issued sim_full" "balanced sim_full"
proof -
  have m: "pool_safe fac finv known (s\<lparr>capacity := n, tokenCap := k\<rparr>) = pool_safe fac finv known s"
    "slack (s\<lparr>capacity := n, tokenCap := k\<rparr>) = n - int (tokens s) - pool_size s"
    for fac finv known n k and s :: "sim pool"
    by (simp_all add: pool_safe_def pool_wf_def exclusive_def held_def idle_ids_def inuse_ids_def
        slack_def pool_size_def idle_size_def)
  have sz: "pool_size sim_pool = 3"
    by (simp add: sim_pool_def pool_size_def idle_size_def PriorityQueue_Size_def)
  show "pool_ok sim_issued sim_full"
    using sim_pool_guarded sz by (simp add: pool_ok_def guarded_def m sim_full_def)
  show "balanced sim_full" using sz by (simp add: balanced_slack m sim_full_def)
qed

lemma sim_honours: "honours_address sim_api"
  by (auto simp: honours_address_def sim_api_def sim_port_def)

lemma sim_static_annotation [simp]: "annotation (rc_Pod sim_static) IpAddressAnnotation = ''10.0.0.77''"
  by (simp add: annotation_def sim_static_def gmap_get_def)

lemma sim_full_env: "networkCliV2 (pf_client (env sim_full)) = sim_api" "\<not> pf_locked (env sim_full)"
  "\<not> locked sim_full" "pf_client (env sim_full) = sim_client" "pf_subnetID (env sim_full) = ''sn''"
  "pf_world (env sim_full) = sim_world\<lparr>sim_created := replicate 3 sim_req\<rparr>" "factory sim_full = port_factory"
  by (simp_all add: sim_full_def sim_pool_def sim_factory_def sim_client_def)

lemma sim_full_static:
  "\<exists>r t. Manager_Allocate (\<lambda>a. True) sim_static '''' sim_full = (Returns (Inr r), t) \<and> GetResourceId r = sim_id 3"
proof -
  let ?w = "sim_world\<lparr>sim_created := replicate 3 sim_req\<rparr>"
  have "(env sim_full)\<lparr>pf_world := ?w\<rparr> = env sim_full" using sim_full_env(6) by (cases "env sim_full") simp
  then have same: "sim_full\<lparr>env := (env sim_full)\<lparr>pf_world := ?w\<rparr>\<rparr> = sim_full" by (cases sim_full) simp
  have occ: "occupied_by sim_subnet ''10.0.0.77'' (sim_live ?w) = Returns False"
    by (simp add: sim_live_def sim_world_def upt_rec ConvertPort_def sim_port_def sim_req_def eval_nat_numeral)
  obtain r e where r: "PortFactory_Create ''10.0.0.77'' (env sim_full) = (Returns (Inr r), e)"
    "GetResourceId r = sim_id 3"
    using sim_create [OF sim_full_env(1,2), of "''10.0.0.77''"] sim_full_env(6) by auto
  have cr: "pool_Create ''10.0.0.77'' sim_full = (Returns (Inr r), sim_full\<lparr>env := e\<rparr>)"
    using r(1) sim_full_env(7) by (simp add: pool_Create_def port_factory_def)
  note safe = pool_ok_safe [OF sim_full_ok(1), unfolded manager_safe_def]
  note c = ports.create_keeps [OF safe cr]
  have fresh: "GetResourceId r \<notin># held (sim_full\<lparr>env := e\<rparr>)"
    "GetResourceId r \<in> sim_issued (pf_world (env (sim_full\<lparr>env := e\<rparr>)))"
    using c(8) [of r] by auto
  obtain q where q: "AddIdle r (sim_full\<lparr>env := e\<rparr>) =
      (Returns (), sim_full\<lparr>env := e, idle := q, clock := stl (clock (sim_full\<lparr>env := e\<rparr>))\<rparr>)"
    "mset (queue_items q) = add_mset \<lparr>item_res = r, item_reverse = shd (clock (sim_full\<lparr>env := e\<rparr>))\<rparr>
       (mset (queue_items (idle (sim_full\<lparr>env := e\<rparr>))))"
    by (rule AddIdle_run [of "sim_full\<lparr>env := e\<rparr>" r]) (use sim_full_env(3) pool_safeD(6) [OF c(1)] in auto)
  let ?v = "sim_full\<lparr>env := e, idle := q, clock := stl (clock (sim_full\<lparr>env := e\<rparr>))\<rparr>"
  let ?i = "\<lparr>item_res = r, item_reverse = shd (clock (sim_full\<lparr>env := e\<rparr>))\<rparr>"
  note a = ports.AddIdle_keeps [OF c(1) fresh q(1)]
  have "?i \<in># mset (queue_items (idle ?v))" using q(2) by simp
  then have i: "?i \<in> set (queue_items (idle ?v))" by simp
  have v: "manager_safe sim_issued ?v" "\<not> locked ?v" using a(1) sim_full_env(3) by (simp_all add: manager_safe_def)
  obtain t where "Acquire sim_ctx (item_id ?i) ?v = (Returns (Inr (item_res ?i)), t)"
    by (rule Acquire_certain [OF v i])
  then have "acquire_unoccupied sim_ctx ''10.0.0.77'' sim_full = (Returns (Inr r), t)"
    using cr q(1) by (simp add: acquire_unoccupied_def item_id_def)
  then have "acquireStaticAddress (\<lambda>a. True) sim_static sim_full = (Returns (Inr r), t)"
    using occ by (simp add: acquireStaticAddress_def Let_def pool_call_run sim_full_env sim_reads same)
      (simp add: sim_static_def)
  then show ?thesis using r(2)
    by (simp add: Manager_Allocate_def requireStaticIP_def) (simp add: sim_static_def)
qed

theorem static_allocation_gives_address_witness:
  "\<exists>r t. Manager_Allocate (\<lambda>a. True) sim_static '''' sim_full = (Returns (Inr r), t) \<and>
     GetIPAddress r = ''10.0.0.77'' \<and> GetResourceId r \<in># inuse_ids t"
proof -
  obtain r t where r: "Manager_Allocate (\<lambda>a. True) sim_static '''' sim_full = (Returns (Inr r), t)"
    using sim_full_static by blast
  have "GetIPAddress r = annotation (rc_Pod sim_static) IpAddressAnnotation \<and> GetResourceId r \<in># inuse_ids t \<and>
      manager_safe sim_issued t \<and> (\<forall>x. count (held t) x \<le> 1)"
    by (rule static_allocation_gives_address [OF pool_ok_safe [OF sim_full_ok(1)] _ _ r])
      (simp_all add: sim_full_env(4) sim_client_def sim_honours)
  with r show ?thesis by auto
qed

theorem static_allocation_takes_no_token_witness:
  "\<exists>r t. Manager_Allocate (\<lambda>a. True) sim_static '''' sim_full = (Returns (Inr r), t) \<and>
     int (tokens t) + pool_size t = capacity t + 1"
proof -
  obtain r t where r: "Manager_Allocate (\<lambda>a. True) sim_static '''' sim_full = (Returns (Inr r), t)"
    "GetResourceId r = sim_id 3" using sim_full_static by blast
  have "idle_ids sim_full = {#sim_id 1, sim_id 2#}" "inuse_ids sim_full = {#sim_id 0#}"
    using sim_pool_ids by (simp_all add: sim_full_def idle_ids_def inuse_ids_def)
  then have "GetResourceId r \<notin># held sim_full" using r(2) by (simp add: held_def)
  then have "tokens t = tokens sim_full \<and> pool_size t = pool_size sim_full + 1 \<and>
      int (tokens t) + pool_size t = capacity t + 1"
    by (intro static_allocation_takes_no_token [OF sim_full_ok _ _ r(1)]) (simp_all add: sim_full_env(4) sim_client_def sim_honours)
  with r(1) show ?thesis by blast
qed

subsection \<open>Garbage collection\<close>

text \<open>
  Collecting expired resources, none of which is idle, releases exactly those of them that
  are in use, skips those the pool does not know, and reports success.
\<close>

theorem garbage_collection_releases:
  assumes "pool_ok issued s" "\<not> locked s" "distinct (map fst expired)"
    and "\<forall>k \<in> fst ` set expired. k \<notin># idle_ids s"
  shows "\<exists>t. GarbageCollection expired s = (Returns None, t) \<and> pool_ok issued t \<and> held t = held s \<and>
     inuse_ids t = filter_mset (\<lambda>k. k \<notin> fst ` set expired) (inuse_ids s)"
  by (rule GarbageCollection_releases [OF assms])

theorem garbage_collection_releases_witness:
  "\<exists>t. GarbageCollection [(sim_id 0, ()), (sim_id 9, ())] sim_pool = (Returns None, t) \<and>
     inuse_ids t = {#} \<and> held t = held sim_pool"
proof -
  have "pool_ok sim_issued sim_pool" using sim_pool_guarded by (simp add: pool_ok_def)
  moreover have "\<not> locked sim_pool" by (simp add: sim_pool_def)
  ultimately obtain t where "GarbageCollection [(sim_id 0, ()), (sim_id 9, ())] sim_pool = (Returns None, t)"
    "held t = held sim_pool" "inuse_ids t = filter_mset (\<lambda>k. k \<notin> fst ` set [(sim_id 0, ()), (sim_id 9, ())]) (inuse_ids sim_pool)"
    using garbage_collection_releases [of sim_issued sim_pool "[(sim_id 0, ()), (sim_id 9, ())]"] by auto
  then show ?thesis by simp
qed

text \<open>
  An expired resource that is idle already stops the collection: \<open>Stat\<close> knows it, so it is
  released, which is an error for an idle resource, and the remaining ones are not looked at.
\<close>

theorem garbage_collection_stops_at_idle:
  assumes "pool_ok issued s" "\<not> locked s" "k \<in># idle_ids s"
  shows "GarbageCollection ((k, v) # rest) s = (Returns (Some ErrInvalidState), s)"
proof -
  note sd = manager_safeD [OF pool_ok_safe [OF assms(1)]]
  have "0 < count (idle_ids s) k" using assms(3) by (rule count_greater_zero_iff [THEN iffD2])
  moreover have "count (idle_ids s) k + count (inuse_ids s) k \<le> 1"
    using spec [OF sd(2), of k] by (simp add: held_def)
  ultimately have "k \<notin># inuse_ids s" unfolding not_in_iff by linarith
  then show ?thesis
    using Stat_run [OF assms(2) sd(1), of k] Release_missing_run [OF assms(2), of k 0] assms(3)
    by (simp add: Manager_Release_def Release_def held_def)
qed

theorem garbage_collection_stops_at_idle_witness:
  "GarbageCollection [(sim_id 1, ()), (sim_id 0, ())] sim_pool = (Returns (Some ErrInvalidState), sim_pool)"
proof (rule garbage_collection_stops_at_idle)
  show "pool_ok sim_issued sim_pool" using sim_pool_guarded by (simp add: pool_ok_def)
qed (simp_all add: sim_pool_def idle_ids_def queue_items_def item_id_def)

end
