(* ===== verification/Storage.thy ===== *)
theory Storage
  imports Prelude
begin

section \<open>Key-value storage (pkg/storage/store.go)\<close>

text \<open>
  A map in memory, and a map in memory in front of a bolt database. The lock of the memory
  storage is a flag; every method takes it and gives it back with \<open>defer\<close>. The database is the
  parameter \<open>Bolt\<close>: one function per transaction the code runs, acting on a state \<open>'b\<close>. The
  interface \<open>Storage\<close> is a record of operations on a state.
\<close>

subsection \<open>The interface\<close>

record ('s, 'v) Storage =
  st_Put :: "string \<Rightarrow> 'v \<Rightarrow> ('s, error option) go"
  st_Get :: "string \<Rightarrow> ('s, error + 'v) go"
  st_List :: "('s, error + 'v list) go"
  st_Delete :: "string \<Rightarrow> ('s, error option) go"

subsection \<open>In memory\<close>

record 'v MemoryStorage =
  ms_lock :: bool
  ms_store :: "(string, 'v) gmap"

definition NewMemoryStorage :: "'v MemoryStorage" where
  "NewMemoryStorage = \<lparr>ms_lock = False, ms_store = []\<rparr>"

definition ms_locked :: "('v MemoryStorage, 'a) go \<Rightarrow> ('v MemoryStorage, 'a) go" where
  "ms_locked m =
     go_seq (\<lambda>s. if ms_lock s then (Halts Blocked, s) else (Returns (), s\<lparr>ms_lock := True\<rparr>)) (
     go_bind m (\<lambda>r.
     go_seq (go_modify (\<lambda>s. s\<lparr>ms_lock := False\<rparr>)) (go_return r)))"

definition Memory_Put :: "string \<Rightarrow> 'v \<Rightarrow> ('v MemoryStorage, error option) go" where
  "Memory_Put key value = ms_locked (
     go_seq (go_modify (\<lambda>s. s\<lparr>ms_store := gmap_put (ms_store s) key value\<rparr>)) (go_return None))"

definition Memory_Get :: "string \<Rightarrow> ('v MemoryStorage, error + 'v) go" where
  "Memory_Get key = ms_locked (go_get (\<lambda>s.
     case gmap_get (ms_store s) key of None \<Rightarrow> Inl StorageErrNotFound | Some v \<Rightarrow> Inr v))"

definition Memory_List :: "('v MemoryStorage, error + 'v list) go" where
  "Memory_List = ms_locked (go_get (\<lambda>s. Inr (map snd (ms_store s))))"

definition Memory_Delete :: "string \<Rightarrow> ('v MemoryStorage, error option) go" where
  "Memory_Delete key = ms_locked (
     go_seq (go_modify (\<lambda>s. s\<lparr>ms_store := gmap_delete (ms_store s) key\<rparr>)) (go_return None))"

definition memory_storage :: "('v MemoryStorage, 'v) Storage" where
  "memory_storage = \<lparr>st_Put = Memory_Put, st_Get = Memory_Get, st_List = Memory_List,
     st_Delete = Memory_Delete\<rparr>"

subsection \<open>On disk\<close>

record 'b Bolt =
  bolt_CreateBucket :: "string \<Rightarrow> ('b, error option) go"
  bolt_Put :: "string \<Rightarrow> string \<Rightarrow> string \<Rightarrow> ('b, error option) go"
  bolt_Delete :: "string \<Rightarrow> string \<Rightarrow> ('b, error option) go"
  bolt_Scan :: "string \<Rightarrow> ('b, error + (string \<times> string) list) go"

record ('b, 'v) DiskStorage =
  ds_db :: "'b Bolt"
  ds_name :: string
  ds_memory :: "'v MemoryStorage"
  ds_serializer :: "'v \<Rightarrow> error + string"
  ds_deserializer :: "string \<Rightarrow> error + 'v"
  ds_file :: 'b

definition ds_mem :: "('v MemoryStorage, 'a) go \<Rightarrow> (('b, 'v) DiskStorage, 'a) go" where
  "ds_mem m = go_zoom ds_memory (\<lambda>x d. d\<lparr>ds_memory := x\<rparr>) m"

definition ds_tx :: "('b Bolt \<Rightarrow> string \<Rightarrow> ('b, 'a) go) \<Rightarrow> (('b, 'v) DiskStorage, 'a) go" where
  "ds_tx m = (\<lambda>d. go_zoom ds_file (\<lambda>x d. d\<lparr>ds_file := x\<rparr>) (m (ds_db d) (ds_name d)) d)"

definition Disk_Put :: "string \<Rightarrow> 'v \<Rightarrow> (('b, 'v) DiskStorage, error option) go" where
  "Disk_Put key value =
     go_bind (go_get (\<lambda>d. ds_serializer d value)) (\<lambda>r.
     case r of
       Inl err \<Rightarrow> go_return (Some err)
     | Inr data \<Rightarrow>
         go_bind (ds_tx (\<lambda>db name. bolt_Put db name key data)) (\<lambda>err.
         case err of Some e \<Rightarrow> go_return (Some e) | None \<Rightarrow> ds_mem (Memory_Put key value)))"

definition Disk_Get :: "string \<Rightarrow> (('b, 'v) DiskStorage, error + 'v) go" where
  "Disk_Get key = ds_mem (Memory_Get key)"

definition Disk_List :: "(('b, 'v) DiskStorage, error + 'v list) go" where
  "Disk_List = ds_mem Memory_List"

definition Disk_Delete :: "string \<Rightarrow> (('b, 'v) DiskStorage, error option) go" where
  "Disk_Delete key =
     go_bind (ds_tx (\<lambda>db name. bolt_Delete db name key)) (\<lambda>err.
     case err of Some e \<Rightarrow> go_return (Some e) | None \<Rightarrow> ds_mem (Memory_Delete key))"

definition disk_storage :: "(('b, 'v) DiskStorage, 'v) Storage" where
  "disk_storage = \<lparr>st_Put = Disk_Put, st_Get = Disk_Get, st_List = Disk_List,
     st_Delete = Disk_Delete\<rparr>"

text \<open>The cursor loop of \<open>load\<close>; the result of the memory's \<open>Put\<close> is dropped.\<close>

fun load_entries :: "(string \<times> string) list \<Rightarrow> (('b, 'v) DiskStorage, error option) go" where
  "load_entries [] = go_return None"
| "load_entries ((k, v) # kvs) =
     go_bind (go_get (\<lambda>d. ds_deserializer d v)) (\<lambda>r.
     case r of
       Inl err \<Rightarrow> go_return (Some err)
     | Inr obj \<Rightarrow> go_seq (ds_mem (Memory_Put k obj)) (load_entries kvs))"

definition load_db :: "(('b, 'v) DiskStorage, error option) go" where
  "load_db =
     go_bind (ds_tx (\<lambda>db name. bolt_CreateBucket db name)) (\<lambda>err.
     case err of
       Some e \<Rightarrow> go_return (Some e)
     | None \<Rightarrow>
         go_bind (ds_tx (\<lambda>db name. bolt_Scan db name)) (\<lambda>r.
         case r of Inl e \<Rightarrow> go_return (Some e) | Inr kvs \<Rightarrow> load_entries kvs))"

text \<open>
  \<open>NewDiskStorage\<close>: whether the directory is there, what making it gives, and what opening the
  database gives come from outside.
\<close>

definition NewDiskStorage :: "string \<Rightarrow> bool \<Rightarrow> error option \<Rightarrow> error + 'b Bolt \<Rightarrow> 'b \<Rightarrow>
    ('v \<Rightarrow> error + string) \<Rightarrow> (string \<Rightarrow> error + 'v) \<Rightarrow>
    (error + ('b, 'v) DiskStorage) outcome" where
  "NewDiskStorage name dir_exists mkdir opened db_file serializer deserializer =
     (case if dir_exists then None else mkdir of
        Some err \<Rightarrow> Returns (Inl (Errorf ''failed to create dir for disk storage'' (Some err)))
      | None \<Rightarrow>
     (case opened of
        Inl err \<Rightarrow> Returns (Inl err)
      | Inr db \<Rightarrow>
     (case load_db \<lparr>ds_db = db, ds_name = name, ds_memory = NewMemoryStorage,
             ds_serializer = serializer, ds_deserializer = deserializer, ds_file = db_file\<rparr> of
        (Returns None, d) \<Rightarrow> Returns (Inr d)
      | (Returns (Some err), d) \<Rightarrow> Returns (Inl err)
      | (Halts h, d) \<Rightarrow> Halts h)))"

subsection \<open>The contract of a storage\<close>

datatype 'v kv_call = KvPut string 'v | KvGet string | KvList | KvDelete string

datatype 'v kv_answer = KvDone "error option" | KvGot "error + 'v" | KvAll "error + 'v list"

fun kv_failed :: "'v kv_answer \<Rightarrow> bool" where
  "kv_failed (KvDone e) \<longleftrightarrow> e \<noteq> None"
| "kv_failed a \<longleftrightarrow> False"

fun kv_run :: "('s, 'v) Storage \<Rightarrow> 'v kv_call \<Rightarrow> ('s, 'v kv_answer) go" where
  "kv_run ops (KvPut k v) = go_bind (st_Put ops k v) (\<lambda>e. go_return (KvDone e))"
| "kv_run ops (KvGet k) = go_bind (st_Get ops k) (\<lambda>r. go_return (KvGot r))"
| "kv_run ops KvList = go_bind (st_List ops) (\<lambda>r. go_return (KvAll r))"
| "kv_run ops (KvDelete k) = go_bind (st_Delete ops k) (\<lambda>e. go_return (KvDone e))"

fun kv_runs :: "('s, 'v) Storage \<Rightarrow> 'v kv_call list \<Rightarrow> ('s, 'v kv_answer list) go" where
  "kv_runs ops [] = go_return []"
| "kv_runs ops (c # cs) =
     go_bind (kv_run ops c) (\<lambda>a. go_bind (kv_runs ops cs) (\<lambda>as. go_return (a # as)))"

text \<open>The specification: a finite map.\<close>

fun kv_spec :: "'v kv_call \<Rightarrow> (string, 'v) gmap \<Rightarrow> 'v kv_answer \<times> (string, 'v) gmap" where
  "kv_spec (KvPut k v) m = (KvDone None, gmap_put m k v)"
| "kv_spec (KvGet k) m =
     (KvGot (case gmap_get m k of None \<Rightarrow> Inl StorageErrNotFound | Some v \<Rightarrow> Inr v), m)"
| "kv_spec KvList m = (KvAll (Inr (map snd m)), m)"
| "kv_spec (KvDelete k) m = (KvDone None, gmap_delete m k)"

fun kv_specs :: "'v kv_call list \<Rightarrow> (string, 'v) gmap \<Rightarrow> 'v kv_answer list \<times> (string, 'v) gmap" where
  "kv_specs [] m = ([], m)"
| "kv_specs (c # cs) m =
     (case kv_spec c m of (a, m') \<Rightarrow> (case kv_specs cs m' of (as, m'') \<Rightarrow> (a # as, m'')))"

locale kv_storage =
  fixes ops :: "('s, 'v) Storage"
    and view :: "'s \<Rightarrow> (string, 'v) gmap"
    and good :: "'s \<Rightarrow> bool"
  assumes put_law: "good s \<Longrightarrow> st_Put ops k v s = (Returns r, t) \<Longrightarrow>
      good t \<and> view t = (if r = None then gmap_put (view s) k v else view s)"
    and delete_law: "good s \<Longrightarrow> st_Delete ops k s = (Returns r, t) \<Longrightarrow>
      good t \<and> view t = (if r = None then gmap_delete (view s) k else view s)"
    and get_law: "good s \<Longrightarrow> st_Get ops k s =
      (Returns (case gmap_get (view s) k of None \<Rightarrow> Inl StorageErrNotFound | Some v \<Rightarrow> Inr v), s)"
    and list_law: "good s \<Longrightarrow> st_List ops s = (Returns (Inr (map snd (view s))), s)"
    and view_law: "good s \<Longrightarrow> gmap_ok (view s)"
begin

text \<open>
  A sequence of calls, answered by a storage or by a map: whenever no call reports an error,
  the storage answers as the map does and holds what the map holds.
\<close>

lemma kv_run_spec:
  assumes "good s" "kv_run ops c s = (Returns a, t)"
  shows "good t" "\<not> kv_failed a \<Longrightarrow> kv_spec c (view s) = (a, view t)"
proof -
  have "good t \<and> (\<not> kv_failed a \<longrightarrow> kv_spec c (view s) = (a, view t))"
  proof (cases c)
    case (KvPut k v)
    then show ?thesis using assms put_law [OF assms(1), of k v]
      by (auto split: outcome.splits prod.splits)
  next
    case (KvGet k)
    then show ?thesis using assms get_law [OF assms(1), of k] by auto
  next
    case KvList
    then show ?thesis using assms list_law [OF assms(1)] by auto
  next
    case (KvDelete k)
    then show ?thesis using assms delete_law [OF assms(1), of k]
      by (auto split: outcome.splits prod.splits)
  qed
  then show "good t" "\<not> kv_failed a \<Longrightarrow> kv_spec c (view s) = (a, view t)" by blast+
qed

lemma kv_runs_spec:
  "good s \<Longrightarrow> kv_runs ops cs s = (Returns as, t) \<Longrightarrow>
   good t \<and> ((\<forall>a \<in> set as. \<not> kv_failed a) \<longrightarrow> kv_specs cs (view s) = (as, view t))"
proof (induction cs arbitrary: s as)
  case Nil
  then show ?case by auto
next
  case (Cons c cs)
  obtain o1 u where c: "kv_run ops c s = (o1, u)" by fastforce
  obtain a bs where a: "o1 = Returns a" "kv_runs ops cs u = (Returns bs, t)" "as = a # bs"
    using Cons.prems(2) c by (auto split: outcome.splits prod.splits)
  note r = kv_run_spec [OF Cons.prems(1) c [unfolded a(1)]]
  show ?case using Cons.IH [OF r(1) a(2)] r(2) a(3) by auto
qed

lemma get_after_put:
  "good s \<Longrightarrow> st_Put ops k v s = (Returns None, t) \<Longrightarrow>
   st_Get ops j t = (if j = k then (Returns (Inr v), t)
     else (fst (st_Get ops j s), t))"
  using put_law [of s k v None t] get_law [of t j] get_law [of s j] by auto

lemma get_after_delete:
  "good s \<Longrightarrow> st_Delete ops k s = (Returns None, t) \<Longrightarrow>
   st_Get ops j t = (if j = k then (Returns (Inl StorageErrNotFound), t)
     else (fst (st_Get ops j s), t))"
  using delete_law [of s k None t] get_law [of t j] get_law [of s j] by auto

end

subsection \<open>Both storages satisfy it\<close>

lemma Memory_runs:
  assumes "\<not> ms_lock s"
  shows "Memory_Put k v s = (Returns None, s\<lparr>ms_store := gmap_put (ms_store s) k v\<rparr>)"
    and "Memory_Get k s =
      (Returns (case gmap_get (ms_store s) k of None \<Rightarrow> Inl StorageErrNotFound | Some v \<Rightarrow> Inr v), s)"
    and "Memory_List s = (Returns (Inr (map snd (ms_store s))), s)"
    and "Memory_Delete k s = (Returns None, s\<lparr>ms_store := gmap_delete (ms_store s) k\<rparr>)"
  using assms
  by (cases s; simp add: Memory_Put_def Memory_Get_def Memory_List_def Memory_Delete_def ms_locked_def)+

interpretation memory: kv_storage memory_storage ms_store "\<lambda>s. \<not> ms_lock s \<and> gmap_ok (ms_store s)"
  by unfold_locales (auto simp: memory_storage_def Memory_runs)

text \<open>
  The documented behaviour of the database: a transaction that succeeds has its effect on its
  key alone, one that fails has none, and a scan shows each entry once. \<open>contents\<close> reads the
  entries of a bucket off the database file.
\<close>

definition bolt_ok :: "('b \<Rightarrow> string \<Rightarrow> string \<Rightarrow> string option) \<Rightarrow> 'b Bolt \<Rightarrow> bool" where
  "bolt_ok contents db \<longleftrightarrow>
     (\<forall>n k d w r w'. bolt_Put db n k d w = (Returns r, w') \<longrightarrow>
        contents w' = (if r = None then (contents w)(n := (contents w n)(k \<mapsto> d)) else contents w)) \<and>
     (\<forall>n k w r w'. bolt_Delete db n k w = (Returns r, w') \<longrightarrow>
        contents w' = (if r = None then (contents w)(n := (contents w n)(k := None)) else contents w)) \<and>
     (\<forall>n w r w'. bolt_CreateBucket db n w = (Returns r, w') \<longrightarrow> contents w' = contents w) \<and>
     (\<forall>n w kvs w'. bolt_Scan db n w = (Returns (Inr kvs), w') \<longrightarrow>
        contents w' = contents w \<and> map_of kvs = contents w n \<and> distinct (map fst kvs))"

text \<open>The memory mirrors the bucket: the same keys, and each value is what its entry decodes to.\<close>

definition mirror_at :: "(string \<Rightarrow> error + 'v) \<Rightarrow> (string, 'v) gmap \<Rightarrow> string \<Rightarrow> string option \<Rightarrow> bool" where
  "mirror_at deser m k entry \<longleftrightarrow>
     (case entry of
        None \<Rightarrow> gmap_get m k = None
      | Some e \<Rightarrow> (\<exists>v. deser e = Inr v \<and> gmap_get m k = Some v))"

lemma mirror_at_simps [simp]:
  "mirror_at deser m k None \<longleftrightarrow> gmap_get m k = None"
  "mirror_at deser m k (Some e) \<longleftrightarrow> (\<exists>v. deser e = Inr v \<and> gmap_get m k = Some v)"
  "j \<noteq> k \<Longrightarrow> mirror_at deser (gmap_put m k v) j entry = mirror_at deser m j entry"
  "j \<noteq> k \<Longrightarrow> mirror_at deser (gmap_delete m k) j entry = mirror_at deser m j entry"
  by (simp_all add: mirror_at_def split: option.splits)

definition mirrors :: "('b \<Rightarrow> string \<Rightarrow> string \<Rightarrow> string option) \<Rightarrow> ('b, 'v) DiskStorage \<Rightarrow> bool" where
  "mirrors contents d \<longleftrightarrow>
     (\<forall>k. mirror_at (ds_deserializer d) (ms_store (ds_memory d)) k (contents (ds_file d) (ds_name d) k))"

definition disk_ok :: "('b \<Rightarrow> string \<Rightarrow> string \<Rightarrow> string option) \<Rightarrow> ('b, 'v) DiskStorage \<Rightarrow> bool" where
  "disk_ok contents d \<longleftrightarrow>
     bolt_ok contents (ds_db d) \<and> \<not> ms_lock (ds_memory d) \<and> gmap_ok (ms_store (ds_memory d)) \<and>
     (\<forall>v e. ds_serializer d v = Inr e \<longrightarrow> ds_deserializer d e = Inr v) \<and> mirrors contents d"

lemma bolt_okD:
  assumes "bolt_ok contents db"
  shows "bolt_Put db n k e w = (Returns r, w') \<Longrightarrow>
      contents w' = (if r = None then (contents w)(n := (contents w n)(k \<mapsto> e)) else contents w)"
    and "bolt_Delete db n k w = (Returns r, w') \<Longrightarrow>
      contents w' = (if r = None then (contents w)(n := (contents w n)(k := None)) else contents w)"
    and "bolt_CreateBucket db n w = (Returns r, w') \<Longrightarrow> contents w' = contents w"
    and "bolt_Scan db n w = (Returns (Inr kvs), w') \<Longrightarrow>
      contents w' = contents w \<and> map_of kvs = contents w n \<and> distinct (map fst kvs)"
  using assms unfolding bolt_ok_def by blast+

lemma ds_mem_run: "ds_mem m d = (case m (ds_memory d) of (r, x) \<Rightarrow> (r, d\<lparr>ds_memory := x\<rparr>))"
  by (simp add: ds_mem_def)

lemma ds_tx_run: "ds_tx m d = (case m (ds_db d) (ds_name d) (ds_file d) of (r, x) \<Rightarrow> (r, d\<lparr>ds_file := x\<rparr>))"
  by (simp add: ds_tx_def)

lemma Disk_Put_law:
  assumes ok: "disk_ok contents d" and run: "Disk_Put k v d = (Returns r, t)"
  shows "disk_ok contents t \<and>
    ms_store (ds_memory t) = (if r = None then gmap_put (ms_store (ds_memory d)) k v else ms_store (ds_memory d))"
proof (cases "ds_serializer d v")
  case (Inl e)
  then show ?thesis using run ok by (auto simp: Disk_Put_def)
next
  case (Inr data)
  have free: "\<not> ms_lock (ds_memory d)" and db: "bolt_ok contents (ds_db d)"
    and enc: "\<And>v e. ds_serializer d v = Inr e \<Longrightarrow> ds_deserializer d e = Inr v" and mir: "mirrors contents d"
    using ok by (auto simp: disk_ok_def)
  obtain o1 w where tx: "bolt_Put (ds_db d) (ds_name d) k data (ds_file d) = (o1, w)" by fastforce
  obtain r1 where o1: "o1 = Returns r1"
    using run Inr tx by (cases o1) (auto simp: Disk_Put_def ds_tx_run)
  note c = bolt_okD(1) [OF db tx [unfolded o1]]
  show ?thesis
  proof (cases r1)
    case None
    then have t: "r = None" "t = d\<lparr>ds_file := w, ds_memory := (ds_memory d)\<lparr>ms_store := gmap_put (ms_store (ds_memory d)) k v\<rparr>\<rparr>"
      using run Inr tx o1 free by (auto simp: Disk_Put_def ds_tx_run ds_mem_run Memory_runs)
    have "mirrors contents t"
      unfolding mirrors_def
    proof
      fix j
      show "mirror_at (ds_deserializer t) (ms_store (ds_memory t)) j (contents (ds_file t) (ds_name t) j)"
        using spec [OF mir [unfolded mirrors_def], of j] c None enc [OF Inr] by (cases "j = k") (simp_all add: t)
    qed
    then show ?thesis using ok t by (simp add: disk_ok_def)
  next
    case (Some e)
    then have t: "r = Some e" "t = d\<lparr>ds_file := w\<rparr>"
      using run Inr tx o1 by (auto simp: Disk_Put_def ds_tx_run)
    have "mirrors contents t" using mir c Some by (simp add: mirrors_def t)
    then show ?thesis using ok t by (simp add: disk_ok_def)
  qed
qed

lemma Disk_Delete_law:
  assumes ok: "disk_ok contents d" and run: "Disk_Delete k d = (Returns r, t)"
  shows "disk_ok contents t \<and>
    ms_store (ds_memory t) = (if r = None then gmap_delete (ms_store (ds_memory d)) k else ms_store (ds_memory d))"
proof -
  have free: "\<not> ms_lock (ds_memory d)" and db: "bolt_ok contents (ds_db d)" and mir: "mirrors contents d"
    using ok by (auto simp: disk_ok_def)
  obtain o1 w where tx: "bolt_Delete (ds_db d) (ds_name d) k (ds_file d) = (o1, w)" by fastforce
  obtain r1 where o1: "o1 = Returns r1"
    using run tx by (cases o1) (auto simp: Disk_Delete_def ds_tx_run)
  note c = bolt_okD(2) [OF db tx [unfolded o1]]
  show ?thesis
  proof (cases r1)
    case None
    then have t: "r = None" "t = d\<lparr>ds_file := w, ds_memory := (ds_memory d)\<lparr>ms_store := gmap_delete (ms_store (ds_memory d)) k\<rparr>\<rparr>"
      using run tx o1 free by (auto simp: Disk_Delete_def ds_tx_run ds_mem_run Memory_runs)
    have "mirrors contents t"
      unfolding mirrors_def
    proof
      fix j
      show "mirror_at (ds_deserializer t) (ms_store (ds_memory t)) j (contents (ds_file t) (ds_name t) j)"
        using spec [OF mir [unfolded mirrors_def], of j] c None by (cases "j = k") (simp_all add: t)
    qed
    then show ?thesis using ok t by (simp add: disk_ok_def)
  next
    case (Some e)
    then have t: "r = Some e" "t = d\<lparr>ds_file := w\<rparr>"
      using run tx o1 by (auto simp: Disk_Delete_def ds_tx_run)
    have "mirrors contents t" using mir c Some by (simp add: mirrors_def t)
    then show ?thesis using ok t by (simp add: disk_ok_def)
  qed
qed

lemma Disk_read_runs:
  assumes "disk_ok contents d"
  shows "Disk_Get k d = (Returns (case gmap_get (ms_store (ds_memory d)) k of
      None \<Rightarrow> Inl StorageErrNotFound | Some v \<Rightarrow> Inr v), d)"
    and "Disk_List d = (Returns (Inr (map snd (ms_store (ds_memory d)))), d)"
  using assms by (simp_all add: disk_ok_def Disk_Get_def Disk_List_def ds_mem_run Memory_runs)

interpretation disk: kv_storage disk_storage "\<lambda>d. ms_store (ds_memory d)" "disk_ok contents"
  for contents :: "'b \<Rightarrow> string \<Rightarrow> string \<Rightarrow> string option"
proof unfold_locales
  fix s t :: "('b, 'v) DiskStorage" and k and v :: 'v and r
  assume ok: "disk_ok contents s"
  show "disk_ok contents t \<and>
      ms_store (ds_memory t) = (if r = None then gmap_put (ms_store (ds_memory s)) k v else ms_store (ds_memory s))"
    if "st_Put disk_storage k v s = (Returns r, t)"
    using Disk_Put_law [OF ok] that by (simp add: disk_storage_def)
  show "disk_ok contents t \<and>
      ms_store (ds_memory t) = (if r = None then gmap_delete (ms_store (ds_memory s)) k else ms_store (ds_memory s))"
    if "st_Delete disk_storage k s = (Returns r, t)"
    using Disk_Delete_law [OF ok] that by (simp add: disk_storage_def)
  show "st_Get disk_storage k s = (Returns (case gmap_get (ms_store (ds_memory s)) k of
      None \<Rightarrow> Inl StorageErrNotFound | Some v \<Rightarrow> Inr v), s)"
    using Disk_read_runs(1) [OF ok] by (simp add: disk_storage_def)
  show "st_List disk_storage s = (Returns (Inr (map snd (ms_store (ds_memory s)))), s)"
    using Disk_read_runs(2) [OF ok] by (simp add: disk_storage_def)
  show "gmap_ok (ms_store (ds_memory s))" using ok by (simp add: disk_ok_def)
qed

subsection \<open>Loading\<close>

lemma load_entries_run:
  "\<not> ms_lock (ds_memory d) \<Longrightarrow> distinct (map fst kvs) \<Longrightarrow> load_entries kvs d = (Returns None, t) \<Longrightarrow>
   \<not> ms_lock (ds_memory t) \<and> (gmap_ok (ms_store (ds_memory d)) \<longrightarrow> gmap_ok (ms_store (ds_memory t))) \<and> ds_file t = ds_file d \<and> ds_db t = ds_db d \<and> ds_name t = ds_name d \<and>
   ds_serializer t = ds_serializer d \<and> ds_deserializer t = ds_deserializer d \<and>
   (\<forall>k. if k \<in> fst ` set kvs then mirror_at (ds_deserializer d) (ms_store (ds_memory t)) k (map_of kvs k)
        else gmap_get (ms_store (ds_memory t)) k = gmap_get (ms_store (ds_memory d)) k)"
proof (induction kvs arbitrary: d)
  case Nil
  then show ?case by simp
next
  case (Cons kv kvs)
  obtain k e where kv: "kv = (k, e)" by fastforce
  obtain v where v: "ds_deserializer d e = Inr v"
    using Cons.prems(3) kv by (cases "ds_deserializer d e") auto
  let ?d = "d\<lparr>ds_memory := (ds_memory d)\<lparr>ms_store := gmap_put (ms_store (ds_memory d)) k v\<rparr>\<rparr>"
  have "load_entries kvs ?d = (Returns None, t)"
    using Cons.prems(1,3) kv v by (simp add: ds_mem_run Memory_runs)
  have free: "\<not> ms_lock (ds_memory ?d)" "distinct (map fst kvs)" using Cons.prems(1,2) by simp_all
  note I = Cons.IH [OF free \<open>load_entries kvs ?d = (Returns None, t)\<close>]
  have at: "if j \<in> fst ` set kvs then mirror_at (ds_deserializer ?d) (ms_store (ds_memory t)) j (map_of kvs j)
      else gmap_get (ms_store (ds_memory t)) j = gmap_get (ms_store (ds_memory ?d)) j" for j
    using I by blast
  have k: "k \<notin> fst ` set kvs" using Cons.prems(2) kv by simp
  have "if j \<in> fst ` set (kv # kvs) then mirror_at (ds_deserializer d) (ms_store (ds_memory t)) j (map_of (kv # kvs) j)
      else gmap_get (ms_store (ds_memory t)) j = gmap_get (ms_store (ds_memory d)) j" for j
    using at [of j] v kv k by (cases "j = k") (simp_all split: if_splits)
  moreover have "\<not> ms_lock (ds_memory t) \<and>
    (gmap_ok (ms_store (ds_memory d)) \<longrightarrow> gmap_ok (ms_store (ds_memory t))) \<and> ds_file t = ds_file d \<and> ds_db t = ds_db d \<and> ds_name t = ds_name d \<and>
    ds_serializer t = ds_serializer d \<and> ds_deserializer t = ds_deserializer d"
    using I by simp
  ultimately show ?case by blast
qed

text \<open>A storage that was opened mirrors its file.\<close>

lemma NewDiskStorage_ok:
  assumes db: "bolt_ok contents db" and enc: "\<And>v e. ser v = Inr e \<Longrightarrow> deser e = Inr v"
    and new: "NewDiskStorage name dir mk (Inr db) f ser deser = Returns (Inr d)"
  shows "disk_ok contents d" "contents (ds_file d) = contents f" "ds_name d = name"
    "ds_db d = db" "ds_serializer d = ser" "ds_deserializer d = deser"
proof -
  let ?d0 = "\<lparr>ds_db = db, ds_name = name, ds_memory = NewMemoryStorage,
             ds_serializer = ser, ds_deserializer = deser, ds_file = f\<rparr>"
  have load: "load_db ?d0 = (Returns None, d)"
    using new by (auto simp: NewDiskStorage_def split: if_splits option.splits prod.splits outcome.splits)
  obtain o1 w1 where cb: "bolt_CreateBucket db name f = (o1, w1)" by fastforce
  have o1: "o1 = Returns None"
    using load cb by (auto simp: load_db_def ds_tx_run split: outcome.splits option.splits)
  obtain o2 w2 where sc: "bolt_Scan db name w1 = (o2, w2)" by fastforce
  obtain kvs where o2: "o2 = Returns (Inr kvs)"
    using load cb o1 sc by (auto simp: load_db_def ds_tx_run split: outcome.splits sum.splits)
  have le: "load_entries kvs (?d0\<lparr>ds_file := w2\<rparr>) = (Returns None, d)"
    using load cb o1 sc o2 by (simp add: load_db_def ds_tx_run)
  have s: "contents w2 = contents w1" "map_of kvs = contents w1 name" "distinct (map fst kvs)"
    using bolt_okD(4) [OF db sc [unfolded o2]] by auto
  have c: "contents w1 = contents f" using bolt_okD(3) [OF db cb [unfolded o1]] by simp
  have free: "\<not> ms_lock (ds_memory (?d0\<lparr>ds_file := w2\<rparr>))" by (simp add: NewMemoryStorage_def)
  note L = load_entries_run [OF free s(3) le]
  have l: "\<not> ms_lock (ds_memory d) \<and> gmap_ok (ms_store (ds_memory d)) \<and> ds_file d = w2 \<and> ds_db d = db \<and> ds_name d = name \<and>
      ds_serializer d = ser \<and> ds_deserializer d = deser"
    using L by (simp add: NewMemoryStorage_def)
  have all: "if k \<in> fst ` set kvs
      then mirror_at (ds_deserializer (?d0\<lparr>ds_file := w2\<rparr>)) (ms_store (ds_memory d)) k (map_of kvs k)
      else gmap_get (ms_store (ds_memory d)) k = gmap_get (ms_store (ds_memory (?d0\<lparr>ds_file := w2\<rparr>))) k" for k
    using L by blast
  have get: "if k \<in> fst ` set kvs then mirror_at deser (ms_store (ds_memory d)) k (map_of kvs k)
      else gmap_get (ms_store (ds_memory d)) k = None" for k
    using all [of k] by (simp add: NewMemoryStorage_def split: if_splits)
  have "mirror_at deser (ms_store (ds_memory d)) k (map_of kvs k)" for k
    using get [of k] by (cases "k \<in> fst ` set kvs") (simp_all add: map_of_eq_None_iff [THEN iffD2])
  then have "mirrors contents d" using s(1,2) l by (simp add: mirrors_def)
  then show "disk_ok contents d" using l db enc by (simp add: disk_ok_def)
  show "contents (ds_file d) = contents f" "ds_name d = name"
    "ds_db d = db" "ds_serializer d = ser" "ds_deserializer d = deser"
    using l s(1) c by simp_all
qed

text \<open>Two storages on the same contents agree on every key.\<close>

lemma mirrors_same:
  assumes "disk_ok contents d" "disk_ok contents d'" "ds_name d = ds_name d'"
    "ds_deserializer d = ds_deserializer d'" "contents (ds_file d) = contents (ds_file d')"
  shows "gmap_get (ms_store (ds_memory d)) k = gmap_get (ms_store (ds_memory d')) k"
proof -
  have m: "mirror_at (ds_deserializer d) (ms_store (ds_memory d)) k (contents (ds_file d) (ds_name d) k)"
    "mirror_at (ds_deserializer d') (ms_store (ds_memory d')) k (contents (ds_file d') (ds_name d') k)"
    using assms(1,2) by (simp_all add: disk_ok_def mirrors_def)
  show ?thesis
    using m unfolding assms(3-5) by (cases "contents (ds_file d') (ds_name d') k") auto
qed

end
