(* ===== verification/Storage_Properties.thy ===== *)
theory Storage_Properties
  imports Storage
begin

section \<open>Properties of the storage\<close>

text \<open>
  The storage properties of the manifest: what a successful and a failed write leave behind, the
  refinement of both storages to a finite map, and the round trip through the database file
  when the daemon is restarted.
\<close>

subsection \<open>A concrete storage\<close>

text \<open>
  A database kept in a function from bucket names to maps, and a storage of numbers up to nine,
  each encoded as a string of that many letters.
\<close>

definition sim_bolt :: "(string \<Rightarrow> (string, string) gmap) Bolt" where
  "sim_bolt =
     \<lparr>bolt_CreateBucket = (\<lambda>n w. (Returns None, w)),
      bolt_Put = (\<lambda>n k e w. (Returns None, w(n := gmap_put (w n) k e))),
      bolt_Delete = (\<lambda>n k w. (Returns None, w(n := gmap_delete (w n) k))),
      bolt_Scan = (\<lambda>n w. (Returns (Inr (AList.clearjunk (w n))), w))\<rparr>"

definition sim_contents :: "(string \<Rightarrow> (string, string) gmap) \<Rightarrow> string \<Rightarrow> string \<Rightarrow> string option" where
  "sim_contents w n k = gmap_get (w n) k"

lemma sim_bolt_ok: "bolt_ok sim_contents sim_bolt"
proof -
  have put: "sim_contents (w(n := gmap_put (w n) k e)) = (sim_contents w)(n := (sim_contents w n)(k \<mapsto> e))"
    and delete: "sim_contents (w(n := gmap_delete (w n) k)) = (sim_contents w)(n := (sim_contents w n)(k := None))"
    and scan: "map_of (AList.clearjunk (w n)) = sim_contents w n" for w n k e
    by (auto simp: sim_contents_def fun_eq_iff gmap_get_def [of "w n"] map_of_clearjunk)
  show ?thesis
    unfolding bolt_ok_def by (auto simp: sim_bolt_def put delete scan distinct_clearjunk)
qed

definition sim_encode :: "nat \<Rightarrow> error + string" where
  "sim_encode n = (if n < 10 then Inr (replicate n CHR ''x'') else Inl (Foreign ''too big''))"

definition sim_decode :: "string \<Rightarrow> error + nat" where
  "sim_decode e = Inr (length e)"

definition sim_disk :: "(string \<Rightarrow> (string, string) gmap, nat) DiskStorage" where
  "sim_disk = \<lparr>ds_db = sim_bolt, ds_name = ''bucket'',
     ds_memory = \<lparr>ms_lock = False, ms_store = [(''a'', 3)]\<rparr>, ds_serializer = sim_encode,
     ds_deserializer = sim_decode, ds_file = (\<lambda>n. [(''a'', ''xxx'')])\<rparr>"

lemma sim_disk_ok: "disk_ok sim_contents sim_disk"
  using sim_bolt_ok
  by (auto simp: disk_ok_def sim_disk_def gmap_ok_def mirrors_def mirror_at_def sim_contents_def gmap_get_def
      sim_encode_def sim_decode_def split: if_splits)

subsection \<open>The properties\<close>

text \<open>
  C27. Writing to the disk storage: after a successful \<open>Put\<close> the key has the value, in memory and
  in the file; after a failed one (the value could not be encoded, or the transaction failed)
  memory and file are as before. No other key is touched, and memory and file stay in step.
\<close>

theorem disk_put_writes_through:
  assumes "disk_ok contents d" "Disk_Put k v d = (Returns r, t)"
  shows "disk_ok contents t \<and>
    (if r = None
     then Disk_Get k t = (Returns (Inr v), t) \<and>
       (\<exists>e. ds_serializer d v = Inr e \<and> contents (ds_file t) (ds_name d) k = Some e)
     else fst (Disk_Get k t) = fst (Disk_Get k d) \<and> contents (ds_file t) = contents (ds_file d)) \<and>
    (\<forall>j. j \<noteq> k \<longrightarrow> fst (Disk_Get j t) = fst (Disk_Get j d) \<and>
       contents (ds_file t) (ds_name d) j = contents (ds_file d) (ds_name d) j)"
proof -
  note law = Disk_Put_law [OF assms]
  note get = Disk_read_runs(1) [OF assms(1)] Disk_read_runs(1) [OF law [THEN conjunct1]]
  have on_disk: "contents (ds_file t) (ds_name d) j =
      (if r = None \<and> j = k then Some (projr (ds_serializer d v)) else contents (ds_file d) (ds_name d) j) \<and>
      (r = None \<longrightarrow> ds_serializer d v = Inr (projr (ds_serializer d v))) \<and> (r \<noteq> None \<longrightarrow> contents (ds_file t) = contents (ds_file d))" for j
  proof (cases "ds_serializer d v")
    case (Inl e)
    then show ?thesis using assms(2) by (auto simp: Disk_Put_def)
  next
    case (Inr data)
    obtain o1 w where tx: "bolt_Put (ds_db d) (ds_name d) k data (ds_file d) = (o1, w)" by fastforce
    obtain r1 where o1: "o1 = Returns r1"
      using assms(2) Inr tx by (cases o1) (auto simp: Disk_Put_def ds_tx_run)
    have db: "bolt_ok contents (ds_db d)" using assms(1) by (simp add: disk_ok_def)
    have "r = r1 \<and> ds_file t = w"
      using assms Inr tx o1
      by (auto simp: Disk_Put_def ds_tx_run ds_mem_run Memory_runs disk_ok_def split: option.splits)
    then show ?thesis using bolt_okD(1) [OF db tx [unfolded o1]] Inr by auto
  qed
  show ?thesis using law get on_disk by auto
qed

lemma sim_disk_put: "\<exists>t. Disk_Put ''b'' 4 sim_disk = (Returns None, t)"
  by (simp add: Disk_Put_def sim_disk_def sim_encode_def ds_tx_run ds_mem_run sim_bolt_def Memory_runs)

theorem disk_put_writes_through_witness:
  "(\<exists>t. Disk_Put ''b'' 4 sim_disk = (Returns None, t) \<and> Disk_Get ''b'' t = (Returns (Inr 4), t) \<and>
      fst (Disk_Get ''a'' t) = fst (Disk_Get ''a'' sim_disk)) \<and>
   (\<exists>e t. Disk_Put ''a'' 40 sim_disk = (Returns (Some e), t) \<and>
      fst (Disk_Get ''a'' t) = fst (Disk_Get ''a'' sim_disk))"
proof
  obtain t where t: "Disk_Put ''b'' 4 sim_disk = (Returns None, t)" using sim_disk_put by blast
  then show "\<exists>t. Disk_Put ''b'' 4 sim_disk = (Returns None, t) \<and> Disk_Get ''b'' t = (Returns (Inr 4), t) \<and>
      fst (Disk_Get ''a'' t) = fst (Disk_Get ''a'' sim_disk)"
    using disk_put_writes_through [OF sim_disk_ok t] by auto
  have e: "Disk_Put ''a'' 40 sim_disk = (Returns (Some (Foreign ''too big'')), sim_disk)"
    by (simp add: Disk_Put_def sim_disk_def sim_encode_def)
  then show "\<exists>e t. Disk_Put ''a'' 40 sim_disk = (Returns (Some e), t) \<and>
      fst (Disk_Get ''a'' t) = fst (Disk_Get ''a'' sim_disk)"
    using disk_put_writes_through [OF sim_disk_ok e] by auto
qed

text \<open>
  C10. The disk storage refines a finite map: as long as no call reports an error, any sequence
  of \<open>Put\<close>, \<open>Get\<close>, \<open>List\<close> and \<open>Delete\<close> is answered exactly as the map would, and the storage
  ends up holding what the map holds.
\<close>

theorem disk_storage_refines_map:
  assumes "disk_ok contents d" "kv_runs disk_storage cs d = (Returns answers, t)"
    and "\<forall>a \<in> set answers. \<not> kv_failed a"
  shows "kv_specs cs (ms_store (ds_memory d)) = (answers, ms_store (ds_memory t)) \<and> disk_ok contents t"
  using disk.kv_runs_spec [OF assms(1,2)] assms(3) by blast

theorem disk_storage_refines_map_witness:
  "\<exists>as t. kv_runs disk_storage [KvPut ''b'' 4, KvDelete ''a'', KvGet ''a'', KvList] sim_disk = (Returns as, t) \<and>
     ms_store (ds_memory t) = [(''b'', 4)] \<and> as ! 2 = KvGot (Inl StorageErrNotFound)"
proof -
  let ?cs = "[KvPut ''b'' 4, KvDelete ''a'', KvGet ''a'', KvList]"
  have "\<exists>as t. kv_runs disk_storage ?cs sim_disk = (Returns as, t) \<and> (\<forall>a \<in> set as. \<not> kv_failed a)"
    by (simp add: disk_storage_def Disk_Put_def Disk_Delete_def Disk_Get_def Disk_List_def sim_disk_def
        sim_encode_def ds_tx_run ds_mem_run sim_bolt_def Memory_runs)
  then obtain as t where r: "kv_runs disk_storage ?cs sim_disk = (Returns as, t)" "\<forall>a \<in> set as. \<not> kv_failed a"
    by blast
  have "kv_specs ?cs (ms_store (ds_memory sim_disk)) = (as, ms_store (ds_memory t))"
    using disk_storage_refines_map [OF sim_disk_ok r] by blast
  then show ?thesis using r(1)
    by (auto simp: sim_disk_def gmap_put_def gmap_delete_def gmap_get_def)
qed

text \<open>
  The memory storage refines the same map, without any failures, from its constructor on.
\<close>

theorem memory_storage_refines_map:
  "\<exists>answers t. kv_runs memory_storage cs NewMemoryStorage = (Returns answers, t) \<and>
     kv_specs cs [] = (answers, ms_store t)"
proof -
  have run: "\<exists>a t. kv_run memory_storage c s = (Returns a, t) \<and> \<not> ms_lock t \<and> \<not> kv_failed a"
    if "\<not> ms_lock s" for c :: "'a kv_call" and s
    using that by (cases c) (simp_all add: memory_storage_def Memory_runs)
  have "\<exists>answers t. kv_runs memory_storage cs s = (Returns answers, t) \<and> (\<forall>a \<in> set answers. \<not> kv_failed a)"
    if "\<not> ms_lock s" for cs :: "'a kv_call list" and s
    using that
  proof (induction cs arbitrary: s)
    case Nil
    then show ?case by simp
  next
    case (Cons c cs)
    obtain a t where c: "kv_run memory_storage c s = (Returns a, t)" "\<not> ms_lock t" "\<not> kv_failed a"
      using run [OF Cons.prems] by blast
    then show ?case using Cons.IH [OF c(2)] by auto
  qed
  moreover have "\<not> ms_lock NewMemoryStorage" "gmap_ok (ms_store NewMemoryStorage)" "ms_store NewMemoryStorage = []"
    by (simp_all add: NewMemoryStorage_def)
  ultimately show ?thesis using memory.kv_runs_spec [of NewMemoryStorage cs] by metis
qed

text \<open>
  C28. A restart: the storage opened on the file that another one left behind has, for every key,
  what that one had, provided the encoding can be undone.
\<close>

theorem disk_storage_survives_restart:
  assumes "disk_ok contents d"
    and "NewDiskStorage (ds_name d) dir mk (Inr (ds_db d)) (ds_file d) (ds_serializer d) (ds_deserializer d) =
      Returns (Inr d')"
  shows "disk_ok contents d' \<and> (\<forall>k. fst (Disk_Get k d') = fst (Disk_Get k d))"
proof -
  have db: "bolt_ok contents (ds_db d)" and enc: "\<And>v e. ds_serializer d v = Inr e \<Longrightarrow> ds_deserializer d e = Inr v"
    using assms(1) by (simp_all add: disk_ok_def)
  note n = NewDiskStorage_ok [OF db enc assms(2)]
  have "gmap_get (ms_store (ds_memory d')) k = gmap_get (ms_store (ds_memory d)) k" for k
    by (rule mirrors_same [OF n(1) assms(1)]) (simp_all add: n)
  then show ?thesis using n(1) Disk_read_runs(1) [OF n(1)] Disk_read_runs(1) [OF assms(1)] by simp
qed

theorem disk_storage_survives_restart_witness:
  "\<exists>d'. NewDiskStorage ''bucket'' True None (Inr sim_bolt) (ds_file sim_disk) sim_encode sim_decode = Returns (Inr d') \<and>
     Disk_Get ''a'' d' = (Returns (Inr 3), d')"
proof -
  have sel: "ds_name sim_disk = ''bucket''" "ds_db sim_disk = sim_bolt" "ds_serializer sim_disk = sim_encode"
    "ds_deserializer sim_disk = sim_decode" by (simp_all add: sim_disk_def)
  have "\<exists>d'. NewDiskStorage ''bucket'' True None (Inr sim_bolt) (ds_file sim_disk) sim_encode sim_decode = Returns (Inr d')"
    by (simp add: NewDiskStorage_def load_db_def ds_tx_run sim_bolt_def sim_disk_def sim_decode_def ds_mem_run
        Memory_runs NewMemoryStorage_def)
  then obtain d' where d': "NewDiskStorage ''bucket'' True None (Inr sim_bolt) (ds_file sim_disk) sim_encode sim_decode = Returns (Inr d')"
    by blast
  have "disk_ok sim_contents d' \<and> (\<forall>k. fst (Disk_Get k d') = fst (Disk_Get k sim_disk))"
    by (rule disk_storage_survives_restart [OF sim_disk_ok]) (use d' sel in simp)
  moreover have "fst (Disk_Get ''a'' sim_disk) = Returns (Inr 3)"
    by (simp add: Disk_Get_def ds_mem_run sim_disk_def Memory_runs gmap_get_def)
  moreover have "snd (Disk_Get ''a'' d') = d'" using calculation(1) Disk_read_runs(1) by (metis snd_conv)
  ultimately show ?thesis using d' by (metis prod.collapse)
qed

end
