(* ===== verification/Daemon.thy ===== *)
theory Daemon
  imports Static_Laws Storage
begin

section \<open>The daemon (pkg/daemon/daemon.go)\<close>

text \<open>
  The server behind the RPC interface. Its state holds the port manager's pool and the resource
  database, with the database's operations as the \<open>Storage\<close> interface; the outside world, with
  the API server in it, is the one in the pool's factory. A handler returns a reply or an
  error. Log statements are left out except where evaluating their arguments can panic.
\<close>

record ('w, 's) daemonServer =
  srv_k8s :: "'w K8s"
  srv_storage :: "('s, PodResources) Storage"
  srv_resourceDB :: 's
  srv_portManager :: "'w pool"
  srv_ParseIP :: "string \<Rightarrow> bool"

subsection \<open>Access to the parts\<close>

definition srv_db :: "(('s, PodResources) Storage \<Rightarrow> ('s, 'a) go) \<Rightarrow> (('w, 's) daemonServer, 'a) go" where
  "srv_db m = (\<lambda>s. go_zoom srv_resourceDB (\<lambda>d s. s\<lparr>srv_resourceDB := d\<rparr>) (m (srv_storage s)) s)"

definition srv_manager :: "('w pool, 'a) go \<Rightarrow> (('w, 's) daemonServer, 'a) go" where
  "srv_manager m = go_zoom srv_portManager (\<lambda>p s. s\<lparr>srv_portManager := p\<rparr>) m"

definition srv_kube :: "('w K8s \<Rightarrow> ('w, 'a) go) \<Rightarrow> (('w, 's) daemonServer, 'a) go" where
  "srv_kube m = (\<lambda>s. srv_manager (pool_call (\<lambda>_. m (srv_k8s s))) s)"

subsection \<open>Handlers\<close>

definition no_resources :: PodResources where
  "no_resources = \<lparr>pr_Resources = [], pr_PodInfo = None\<rparr>"

definition getPodResource :: "string \<Rightarrow> (('w, 's) daemonServer, error + PodResources) go" where
  "getPodResource key =
     go_bind (srv_db (\<lambda>db. st_Get db key)) (\<lambda>r.
     case r of
       Inr obj \<Rightarrow> go_return (Inr obj)
     | Inl err \<Rightarrow> go_return (if err = StorageErrNotFound then Inr no_resources else Inl err))"

text \<open>The id the pod had before: only if the record has pod information and one port.\<close>

definition old_resource_id :: "PodResources \<Rightarrow> string" where
  "old_resource_id old =
     (let oldRes = GetResourceItemByType old ResourceTypeMultipleIP in
      case pr_PodInfo old of
        None \<Rightarrow> ''''
      | Some _ \<Rightarrow> (if length oldRes = 1 then ri_ID (hd oldRes) else ''''))"

definition allocatePortIP ::
    "ResourceContext \<Rightarrow> PodResources \<Rightarrow> (('w, 's) daemonServer, error + NetworkResource) go" where
  "allocatePortIP ctx old =
     (\<lambda>s. srv_manager (Manager_Allocate (srv_ParseIP s) ctx (old_resource_id old)) s)"

definition AllocateIP ::
    "Context \<Rightarrow> AllocateIPRequest \<Rightarrow> (('w, 's) daemonServer, error + AllocateIPReply) go" where
  "AllocateIP ctx r =
     go_bind (srv_kube (\<lambda>k. GetPod k (ar_K8SPodNamespace r) (ar_K8SPodName r))) (\<lambda>got.
     case got of
       Inl err \<Rightarrow> go_return (Inl (Errorf ''error get pod info'' (Some err)))
     | Inr (podInfo, pod) \<Rightarrow>
         go_bind (getPodResource (PodInfoKey podInfo)) (\<lambda>old.
         case old of
           Inl err \<Rightarrow> go_return (Inl (Errorf ''failed to get pod resources from db'' (Some err)))
         | Inr oldRes \<Rightarrow>
             go_bind (allocatePortIP
               \<lparr>rc_Context = ctx, rc_PodInfo = Some podInfo, rc_Pod = pod\<rparr> oldRes) (\<lambda>allocated.
             case allocated of
               Inl err \<Rightarrow> go_return (Inl (Errorf ''error get allocated port'' (Some err)))
             | Inr port \<Rightarrow>
                 go_bind (srv_db (\<lambda>db. st_Put db (PodInfoKey podInfo)
                   \<lparr>pr_Resources = [\<lparr>ri_Type = GetType port, ri_ID = GetResourceId port\<rparr>],
                    pr_PodInfo = Some podInfo\<rparr>)) (\<lambda>put.
                 case put of
                   Some err \<Rightarrow> go_return (Inl (Errorf ''error put resource into store'' (Some err)))
                 | None \<Rightarrow>
                     (case NetConfFromPort port of
                        Inl err \<Rightarrow> go_return (Inl err)
                      | Inr conf \<Rightarrow>
                          (case ctx_Err ctx of
                             Some err \<Rightarrow> go_return (Inl (Errorf ''error on grpc connection'' (Some err)))
                           | None \<Rightarrow> go_return (Inr
                               \<lparr>ap_Success = True, ap_IPType = TypeENIMultiIP, ap_IPv4 = True,
                                ap_IPv6 = False, ap_NetConfs = conf, ap_EnableTrunking = False\<rparr>)))))))"

fun release_all :: "ResourceContext \<Rightarrow> ResourceItem list \<Rightarrow> (('w, 's) daemonServer, error option) go" where
  "release_all ctx [] = go_return None"
| "release_all ctx (res # rest) =
     go_bind (srv_manager (Manager_Release (Some ctx) (ri_ID res))) (\<lambda>err.
     case err of Some e \<Rightarrow> go_return (Some e) | None \<Rightarrow> release_all ctx rest)"

definition ReleaseIP ::
    "Context \<Rightarrow> ReleaseIPRequest \<Rightarrow> (('w, 's) daemonServer, error + ReleaseIPReply) go" where
  "ReleaseIP ctx r =
     go_bind (srv_kube (\<lambda>k. GetPod k (rr_K8SPodNamespace r) (rr_K8SPodName r))) (\<lambda>got.
     case got of
       Inl err \<Rightarrow> go_return (Inl (Errorf ''error get pod info'' (Some err)))
     | Inr (podInfo, pod) \<Rightarrow>
         go_bind (getPodResource (PodInfoKey podInfo)) (\<lambda>old.
         case old of
           Inl err \<Rightarrow> go_return (Inl (Errorf ''failed to get pod resources from db'' (Some err)))
         | Inr oldRes \<Rightarrow>
             go_bind (release_all
               \<lparr>rc_Context = ctx, rc_PodInfo = Some podInfo, rc_Pod = pod\<rparr> (pr_Resources oldRes)) (\<lambda>rel.
             case rel of
               Some err \<Rightarrow> go_return (Inl err)
             | None \<Rightarrow>
                 go_bind (if pi_IpStickTime podInfo = 0
                          then srv_db (\<lambda>db. st_Delete db (PodInfoKey podInfo))
                          else go_return None) (\<lambda>del.
                 case del of
                   Some err \<Rightarrow> go_return (Inl (Errorf ''failed to delete key'' (Some err)))
                 | None \<Rightarrow>
                     (case ctx_Err ctx of
                        Some err \<Rightarrow> go_return (Inl (Errorf ''error on grpc connection'' (Some err)))
                      | None \<Rightarrow> go_return (Inr
                          \<lparr>rl_Success = True, rl_IPv4Addr = None, rl_DeviceNumber = 0,
                           rl_IPv4 = False, rl_IPv6 = False\<rparr>))))))"

definition GetIPInfo :: "Context \<Rightarrow> GetInfoRequest \<Rightarrow>
    (('w, 's) daemonServer, GetInfoReply option \<times> error option) go" where
  "GetIPInfo ctx r = go_return (None, None)"

subsection \<open>Start-up\<close>

text \<open>
  The pods that have a record: each is entered under its key. Logging the record's pod
  information panics when the record has none.
\<close>

fun getPodsWithoutPort :: "('s, PodResources) Storage \<Rightarrow> PodInfo list \<Rightarrow> (string, PodInfo) gmap \<Rightarrow>
    ('s, (string, PodInfo) gmap) go" where
  "getPodsWithoutPort db [] podMaps = go_return podMaps"
| "getPodsWithoutPort db (p # pods) podMaps =
     go_bind (st_Get db (PodInfoKey p)) (\<lambda>r.
     case r of
       Inr obj \<Rightarrow> (case pr_PodInfo obj of
           None \<Rightarrow> go_halt Panicked
         | Some _ \<Rightarrow> getPodsWithoutPort db pods (gmap_put podMaps (PodInfoKey p) p))
     | Inl err \<Rightarrow> getPodsWithoutPort db pods podMaps)"

fun add_ports :: "string \<Rightarrow> ResourceItem list \<Rightarrow> (string, string list) gmap \<Rightarrow> (string, string list) gmap" where
  "add_ports key [] m = m"
| "add_ports key (port # ports) m =
     add_ports key ports (gmap_put m (ri_ID port)
       ((case gmap_get m (ri_ID port) of None \<Rightarrow> [] | Some ks \<Rightarrow> ks) @ [key]))"

text \<open>Logging a record dereferences its pod information, and for an unknown pod its first port.\<close>

fun map_ports :: "(string, PodInfo) gmap \<Rightarrow> PodResources list \<Rightarrow> (string, string list) gmap \<Rightarrow>
    (string, string list) gmap outcome" where
  "map_ports podsUsage [] m = Returns m"
| "map_ports podsUsage (mapping # res) m =
     (case pr_PodInfo mapping of
        None \<Rightarrow> Halts Panicked
      | Some info \<Rightarrow>
          (if gmap_get podsUsage (PodInfoKey info) = None \<and> pr_Resources mapping = []
           then Halts Panicked
           else map_ports podsUsage res (add_ports (PodInfoKey info) (pr_Resources mapping) m)))"

definition getPortsMapping :: "('s, PodResources) Storage \<Rightarrow> (string, PodInfo) gmap \<Rightarrow>
    ('s, error + (string, string list) gmap) go" where
  "getPortsMapping db podsUsage =
     go_bind (st_List db) (\<lambda>r.
     case r of
       Inl err \<Rightarrow> go_return (Inl (Errorf ''error list resource relation db'' (Some err)))
     | Inr resObjList \<Rightarrow>
         (case map_ports podsUsage resObjList [] of
            Halts h \<Rightarrow> go_halt h
          | Returns m \<Rightarrow> go_return (Inr m)))"

text \<open>\<open>getNodeInfo\<close>: the metadata of the virtual machine and how it decodes come from outside.\<close>

definition getNodeInfo :: "bool \<Rightarrow> error + string \<Rightarrow> (string \<Rightarrow> error + NodeInfo) \<Rightarrow> error + NodeInfo" where
  "getNodeInfo on_vm metadata unmarshal =
     (if \<not> on_vm then Inr \<lparr>node_UUID = ''fake-uuid-from-rubble'', node_Hostname = '''',
        node_ProjectID = '''', node_Name = '''', node_AvailabilityZone = ''''\<rparr>
      else case metadata of
        Inl err \<Rightarrow> Inl (Errorf ''failed to get node withis'' (Some err))
      | Inr data \<Rightarrow> unmarshal data)"

text \<open>
  \<open>newDaemonServer\<close>: what the clients' constructors, the configuration file and the database
  give comes from outside, as do the clock, the random numbers and the state of the world.
\<close>

definition newDaemonServer ::
    "error + 'w Client \<Rightarrow> error + DaemonConfigure \<Rightarrow> error + NodeInfo \<Rightarrow> error + 'w KubeClient \<Rightarrow>
     error + 's \<Rightarrow> ('s, PodResources) Storage \<Rightarrow> (string \<Rightarrow> bool) \<Rightarrow> int stream \<Rightarrow> nat stream \<Rightarrow> 'w \<Rightarrow>
     (error + ('w, 's) daemonServer) outcome" where
  "newDaemonServer neutron config node_info kube opened db ParseIP_ok clk rnd w =
     (case neutron of Inl e \<Rightarrow> Returns (Inl (Errorf ''failed to create neutron client'' (Some e)))
      | Inr neutronService \<Rightarrow>
     (case config of Inl e \<Rightarrow> Returns (Inl (Errorf ''failed read config file'' (Some e)))
      | Inr daemonConfig \<Rightarrow>
     (case node_info of Inl e \<Rightarrow> Returns (Inl (Errorf ''failed get node info'' (Some e)))
      | Inr info \<Rightarrow>
     (let node = (if length (node_Name info) = 0 then info\<lparr>node_Name := dc_NodeName daemonConfig\<rparr> else info);
          conf = daemonConfig\<lparr>dc_Node := Some node\<rparr> in
     (case kube of Inl e \<Rightarrow> Returns (Inl (Errorf ''failed to init k8s client'' (Some e)))
      | Inr client \<Rightarrow>
     (let k8sService = \<lparr>k8s_client = client, k8s_nodeName = node_Name node\<rparr> in
     (case opened of Inl e \<Rightarrow> Returns (Inl (Errorf ''error init resource manager storage'' (Some e)))
      | Inr s \<Rightarrow>
     (case ListLocalPods k8sService \<lparr>fl_Annotations = [(PodNetworks, ''rubble'')],
             fl_Labels = [(''vpc-cni'', ''true'')]\<rparr> w of
        (Halts h, _) \<Rightarrow> Halts h
      | (Returns (Inl e), _) \<Rightarrow> Returns (Inl (Errorf ''failed to list local pods'' (Some e)))
      | (Returns (Inr pods), w1) \<Rightarrow>
     (case getPodsWithoutPort db pods [] s of
        (Halts h, _) \<Rightarrow> Halts h
      | (Returns podsUsage, s1) \<Rightarrow>
     (case getPortsMapping db podsUsage s1 of
        (Halts h, _) \<Rightarrow> Halts h
      | (Returns (Inl e), _) \<Rightarrow> Returns (Inl (Errorf ''error get ports usage in db storage'' (Some e)))
      | (Returns (Inr portsMapping), s2) \<Rightarrow>
     (case NewPortResourceManager conf neutronService portsMapping clk rnd w1 of
        Halts h \<Rightarrow> Halts h
      | Returns (Inl e) \<Rightarrow> Returns (Inl (Errorf ''error init port resource manager'' (Some e)))
      | Returns (Inr manager) \<Rightarrow> Returns (Inr
          \<lparr>srv_k8s = k8sService, srv_storage = db, srv_resourceDB = s2,
           srv_portManager = manager, srv_ParseIP = ParseIP_ok\<rparr>))))))))))))"

end
