(* ===== verification/Daemon_Laws.thy ===== *)
theory Daemon_Laws
  imports Daemon
begin

section \<open>What the daemon's handlers rely on and guarantee\<close>

text \<open>
  The handlers share the pool with static allocations, so only its safety is assumed here and
  not its account of tokens. The resources in use are a map from ids; allocating adds one
  entry, releasing removes one.
\<close>

subsection \<open>The map of the resources in use\<close>

lemma not_inuse_iff: "rid \<notin># inuse_ids s \<longleftrightarrow> gmap_get (inuse s) rid = None"
  by (simp add: set_inuse_ids gmap_get_None_iff)

lemma inuse_ids_same: "inuse t = inuse s \<Longrightarrow> inuse_ids t = inuse_ids s"
  by (simp add: inuse_ids_def)

lemma inuse_ids_put_new:
  assumes "pool_wf s" "inuse t = gmap_put (inuse s) k r" "gmap_get (inuse s) k = None"
  shows "inuse_ids t = add_mset k (inuse_ids s)"
proof -
  have "k \<notin> gmap_keys (inuse s)" using assms(3) by (simp add: gmap_get_None_iff)
  then show ?thesis
    using inuse_ids_put [of s k r] assms(1,2) by (simp add: inuse_ids_def pool_wf_def)
qed

lemma idle_not_inuse:
  assumes "exclusive s" "x \<in># idle_ids s"
  shows "x \<notin># inuse_ids s"
proof -
  have "count (idle_ids s) x + count (inuse_ids s) x \<le> 1" using assms(1) by (simp add: exclusive_def held_def)
  moreover have "0 < count (idle_ids s) x" using assms(2) by (rule count_greater_zero_iff [THEN iffD2])
  ultimately show ?thesis unfolding not_in_iff by linarith
qed

context object_factory
begin

lemma Acquire_safe:
  assumes s: "pool_safe fac finv known s" and run: "Acquire ctx rid s = (out, t)"
  shows "pool_safe fac finv known t" "locked t = locked s"
    "case out of Returns (Inr r) \<Rightarrow>
       inuse t = gmap_put (inuse s) (GetResourceId r) r \<and> gmap_get (inuse s) (GetResourceId r) = None
     | _ \<Rightarrow> inuse t = inuse s"
proof -
  note wf = pool_safeD(1) [OF s] and qwf = pool_safeD(6) [OF s]
  let ?after = "\<lambda>out t. case out of Returns (Inr r) \<Rightarrow>
       inuse t = gmap_put (inuse s) (GetResourceId r) r \<and> gmap_get (inuse s) (GetResourceId r) = None
     | _ \<Rightarrow> inuse t = inuse s"
  consider "locked s" | "\<not> locked s" "idle_ids s \<noteq> {#}"
    | "\<not> locked s" "idle_ids s = {#}" "capacity s \<le> pool_size s"
    | "\<not> locked s" "idle_ids s = {#}" "pool_size s < capacity s" by linarith
  then have "pool_safe fac finv known t \<and> locked t = locked s \<and> ?after out t"
  proof cases
    case 1
    then show ?thesis using s run blocked_when_locked(3) [OF 1, of ctx rid] by auto
  next
    case 2
    obtain item q where q: "Acquire ctx rid s = (Returns (Inr (item_res item)),
         s\<lparr>idle := q, inuse := gmap_put (inuse s) (item_id item) (item_res item)\<rparr>)" "queue_wf q"
      "item \<in> set (queue_items (idle s))"
      "mset (queue_items (idle s)) = add_mset item (mset (queue_items q))"
      by (rule Acquire_idle_run [OF 2(1) wf 2(2)])
    note m = move_to_inuse [OF wf pool_safeD(2) [OF s] q(2,4)]
    have "item_id item \<in># idle_ids s" using q(3) by (simp add: set_idle_ids)
    then have "gmap_get (inuse s) (GetResourceId (item_res item)) = None"
      using idle_not_inuse [OF pool_safeD(2) [OF s]] by (simp add: not_inuse_iff item_id_def)
    moreover have "pool_safe fac finv known
        (s\<lparr>idle := q, inuse := gmap_put (inuse s) (item_id item) (item_res item)\<rparr>)"
      using s m exclusive_held [OF m(1)] by (simp add: pool_safe_def)
    ultimately show ?thesis using q(1) run by (auto simp: item_id_def)
  next
    case 3
    then show ?thesis using s run Acquire_full_run [OF 3(1) qwf 3(2,3)] by auto
  next
    case 4
    obtain o1 t1 where sel: "token_select ctx s = (o1, t1)" by fastforce
    note run' = Acquire_select_run [OF 4(1) qwf 4(2,3), of ctx rid, unfolded run]
    show ?thesis
    proof (cases "o1 = Returns True")
      case False
      then have "t1 = s" using sel by (auto simp: token_select_def split: if_splits)
      then have "t = s \<and> (\<forall>r. out \<noteq> Returns (Inr r))"
        using run' False sel by (auto split: outcome.splits)
      then show ?thesis using s by (auto split: outcome.splits sum.splits)
    next
      case True
      then have t1: "t1 = s\<lparr>tokens := tokens s - 1\<rparr>" using sel by (auto simp: token_select_def split: if_splits)
      then have ts: "pool_safe fac finv known t1" using s by simp
      obtain o2 u where cr: "pool_Create '''' t1 = (o2, u)" by fastforce
      note c = create_keeps [OF ts cr]
      have u: "inuse u = inuse s" using cr by (auto simp: pool_Create_def t1 split: prod.splits)
      have free: "\<not> locked u" using c(7) 4(1) by (simp add: t1)
      show ?thesis
      proof (cases "\<exists>r. o2 = Returns (Inr r)")
        case True
        then obtain r where r: "o2 = Returns (Inr r)" by blast
        have fresh: "GetResourceId r \<notin># held u" "GetResourceId r \<in> known (env u)" using c(8) [OF r] by auto
        have "out = Returns (Inr r)" "t = u\<lparr>inuse := gmap_put (inuse u) (GetResourceId r) r\<rparr>"
          using run' sel \<open>o1 = Returns True\<close> cr r AddInuse_run [OF free, of r] by auto
        moreover have "gmap_get (inuse s) (GetResourceId r) = None"
          using fresh(1) not_inuse_iff [of "GetResourceId r" u] by (simp add: held_def u)
        ultimately show ?thesis
          using AddInuse_keeps(1,5) [OF c(1) fresh AddInuse_run [OF free]] u free 4(1) by simp
      next
        case False
        then have "(\<forall>r. out \<noteq> Returns (Inr r)) \<and> (\<exists>n. t = u\<lparr>tokens := n\<rparr> \<or> t = u)"
          using run' sel \<open>o1 = Returns True\<close> cr
          by (auto simp: token_send_def split: outcome.splits sum.splits if_splits)
        then show ?thesis using c(1) u free 4(1) by (auto split: outcome.splits sum.splits)
      qed
    qed
  qed
  then show "pool_safe fac finv known t" "locked t = locked s" "?after out t" by blast+
qed

end

subsection \<open>The manager\<close>

definition allocates :: "'w pool \<Rightarrow> (error + NetworkResource) outcome \<Rightarrow> 'w pool \<Rightarrow> bool" where
  "allocates s out t \<longleftrightarrow> (case out of Returns (Inr r) \<Rightarrow>
       inuse t = gmap_put (inuse s) (GetResourceId r) r \<and> gmap_get (inuse s) (GetResourceId r) = None
     | _ \<Rightarrow> inuse t = inuse s)"

lemma allocates_simps [simp]:
  "allocates s (Returns (Inr r)) t \<longleftrightarrow>
     inuse t = gmap_put (inuse s) (GetResourceId r) r \<and> gmap_get (inuse s) (GetResourceId r) = None"
  "allocates s (Returns (Inl e)) t \<longleftrightarrow> inuse t = inuse s"
  "allocates s (Halts h) t \<longleftrightarrow> inuse t = inuse s"
  by (simp_all add: allocates_def)

lemma allocates_from: "inuse v = inuse s \<Longrightarrow> allocates v out t \<Longrightarrow> allocates s out t"
  by (auto simp: allocates_def split: outcome.splits sum.splits)

lemma allocates_nothing: "(\<forall>r. out \<noteq> Returns (Inr r)) \<Longrightarrow> inuse t = inuse s \<Longrightarrow> allocates s out t"
  by (auto simp: allocates_def split: outcome.splits sum.splits)

lemma manager_Acquire_safe:
  assumes "manager_safe issued s" "Acquire ctx rid s = (out, t)"
  shows "manager_safe issued t" "locked t = locked s" "allocates s out t"
  using ports.Acquire_safe [OF assms(1) [unfolded manager_safe_def] assms(2)]
  by (simp_all add: manager_safe_def allocates_def)

lemma pool_call_same:
  "pool_call m s = (out, t) \<Longrightarrow> inuse t = inuse s \<and> locked t = locked s"
  by (auto simp: pool_call_run split: prod.splits)

lemma acquire_unoccupied_safe:
  assumes s: "manager_safe issued s" and run: "acquire_unoccupied ctx ip s = (out, t)"
  shows "manager_safe issued t \<and> locked t = locked s \<and> allocates s out t"
proof -
  note safe = s [unfolded manager_safe_def]
  obtain o1 u where cr: "pool_Create ip s = (o1, u)" by fastforce
  note c = ports.create_keeps [OF safe cr]
  have u: "manager_safe issued u" "inuse u = inuse s" "locked u = locked s"
    using c(1,7) cr by (auto simp: manager_safe_def pool_Create_def split: prod.splits)
  show ?thesis
  proof (cases "\<exists>r. o1 = Returns (Inr r)")
    case False
    then have "t = u \<and> (\<forall>r. out \<noteq> Returns (Inr r))"
      using run cr by (auto simp: acquire_unoccupied_def split: outcome.splits sum.splits)
    then show ?thesis using u allocates_nothing by metis
  next
    case True
    then obtain res where res: "o1 = Returns (Inr res)" by blast
    have fresh: "GetResourceId res \<notin># held u" "GetResourceId res \<in> issued (pf_world (env u))"
      using c(8) [OF res] by auto
    obtain o2 v where add: "AddIdle res u = (o2, v)" by fastforce
    note a = ports.AddIdle_keeps [OF c(1) fresh add]
    have v: "manager_safe issued v" "inuse v = inuse s" "locked v = locked s"
      using a(1,5,6) u by (auto simp: manager_safe_def)
    show ?thesis
    proof (cases o2)
      case (Halts h)
      then show ?thesis using run cr res add v by (auto simp: acquire_unoccupied_def)
    next
      case (Returns x)
      then have "Acquire ctx (GetResourceId res) v = (out, t)"
        using run cr res add by (simp add: acquire_unoccupied_def)
      from manager_Acquire_safe [OF v(1) this] show ?thesis using v allocates_from by metis
    qed
  qed
qed

lemma acquire_occupied_safe:
  assumes s: "manager_safe issued s" and run: "acquire_occupied ctx ip s = (out, t)"
  shows "manager_safe issued t \<and> locked t = locked s \<and> allocates s out t"
proof -
  have items: "GetIdle s = Some (map Some (queue_items (idle s)))"
    using List_facts [OF manager_safeD(3) [OF s]] by (simp add: GetIdle_def)
  show ?thesis
  proof (cases "idle_with_ip ip (map Some (queue_items (idle s)))")
    case None
    then show ?thesis using s run items by (auto simp: acquire_occupied_def)
  next
    case (Some res)
    then have "Acquire ctx (GetResourceId res) s = (out, t)" using run items by (simp add: acquire_occupied_def)
    from manager_Acquire_safe [OF s this] show ?thesis by simp
  qed
qed

lemma acquireStaticAddress_safe:
  assumes s: "manager_safe issued s" and run: "acquireStaticAddress P ctx s = (out, t)"
  shows "manager_safe issued t \<and> locked t = locked s \<and> allocates s out t"
proof -
  let ?ip = "annotation (rc_Pod ctx) IpAddressAnnotation"
  let ?f = "\<lparr>lf_NetworkID = pf_netID (env s), lf_DeviceOwner = DeviceOwner, lf_DeviceID = '''', lf_Tags = ''''\<rparr>"
  show ?thesis
  proof (cases "?ip \<noteq> '''' \<and> P ?ip")
    case False
    then show ?thesis using s run by (auto simp: acquireStaticAddress_def Let_def split: if_splits)
  next
    case True
    obtain o1 u where l: "pool_call (\<lambda>c. ListPortWithFilter c ?f) s = (o1, u)" by fastforce
    note lu = pool_call_safe [OF s ListPort_grows [OF manager_safeD(5) [OF s]] l] pool_call_same [OF l]
    obtain o2 v where g: "pool_call (\<lambda>c. GetSubnet c (pf_subnetID (env u))) u = (o2, v)" by fastforce
    note lv = pool_call_safe [OF lu(1) neutron_grows(3) [OF manager_safeD(5) [OF lu(1)]] g] pool_call_same [OF g]
    have "(t = u \<or> t = v) \<and> (\<forall>r. out \<noteq> Returns (Inr r)) \<or>
      acquire_occupied (rc_Context ctx) ?ip v = (out, t) \<or> acquire_unoccupied (rc_Context ctx) ?ip v = (out, t)"
      using run True l g
      by (auto simp: acquireStaticAddress_def Let_def split: outcome.splits sum.splits option.splits bool.splits prod.splits)
    then consider "t = u \<or> t = v" "\<forall>r. out \<noteq> Returns (Inr r)"
      | "manager_safe issued t \<and> locked t = locked v \<and> allocates v out t"
      using acquire_occupied_safe [OF lv(1)] acquire_unoccupied_safe [OF lv(1)] by blast
    then show ?thesis
    proof cases
      case 1
      have "inuse t = inuse s" "locked t = locked s" "manager_safe issued t"
        using 1(1) lu(1,4) lv(1,4) by auto
      then show ?thesis using allocates_nothing [OF 1(2)] by blast
    next
      case 2
      have "inuse v = inuse s" "locked v = locked s" using lu(4) lv(4) by simp_all
      then show ?thesis using 2 allocates_from by metis
    qed
  qed
qed

lemma Manager_Allocate_safe:
  assumes "manager_safe issued s" "Manager_Allocate P ctx rid s = (out, t)"
  shows "manager_safe issued t" "locked t = locked s" "allocates s out t"
  using assms(2) manager_Acquire_safe [OF assms(1)] acquireStaticAddress_safe [OF assms(1), of P ctx out t] assms(1)
  by (auto simp: Manager_Allocate_def split: if_splits option.splits)

text \<open>Releasing moves one resource from use to the idle queue, or changes nothing.\<close>

lemma Manager_Release_safe:
  assumes s: "manager_safe issued s" and run: "Manager_Release ctx rid s = (out, t)"
  shows "manager_safe issued t \<and> locked t = locked s \<and> env t = env s \<and>
    (if out = Returns None
     then (\<exists>r. gmap_get (inuse s) rid = Some r \<and> r \<in> item_res ` set (queue_items (idle t))) \<and>
       inuse t = gmap_delete (inuse s) rid \<and>
       idle_ids t = add_mset rid (idle_ids s)
     else t = s \<and> out = (if locked s then Halts Blocked else Returns (Some ErrInvalidState)) \<and>
       (locked s \<or> gmap_get (inuse s) rid = None))"
proof -
  obtain d where d: "ReleaseWithReverse rid d s = (out, t)"
    using run by (auto simp: Manager_Release_def Release_def split: option.splits)
  note sd = manager_safeD [OF s]
  show ?thesis
  proof (cases "locked s")
    case True
    then show ?thesis using blocked_when_locked(4) [OF True, of rid d] d s by simp
  next
    case False
    show ?thesis
    proof (cases "gmap_get (inuse s) rid")
      case None
      then show ?thesis using Release_missing_run [OF False, of rid d] not_inuse_iff [of rid s] d s False by simp
    next
      case (Some r)
      obtain q where q: "ReleaseWithReverse rid d s = (Returns None, s\<lparr>inuse := gmap_delete (inuse s) rid,
          idle := q, tickerWaiting := False, clock := stl (clock s)\<rparr>)" "queue_wf q"
        "mset (queue_items q) = add_mset
           \<lparr>item_res = r, item_reverse = released_at (shd (clock s)) d\<rparr> (mset (queue_items (idle s)))"
        by (rule Release_run [OF False sd(1) Some])
      note m = move_to_idle [OF sd(1) Some q(2,3)]
      let ?t = "s\<lparr>inuse := gmap_delete (inuse s) rid, idle := q\<rparr>"
      have "manager_safe issued ?t"
        using s m exclusive_held [OF m(1)] by (simp add: manager_safe_def pool_safe_def)
      then have "manager_safe issued t" using d q(1) by (auto simp: manager_safe_def)
      moreover have "idle_ids t = add_mset rid (idle_ids s)"
        using q(1,3) d pool_wfD(3) [OF sd(1) Some] by (auto simp: idle_ids_def item_id_def)
      moreover have "\<lparr>item_res = r, item_reverse = released_at (shd (clock s)) d\<rparr> \<in># mset (queue_items (idle t))"
        using q(1,3) d by auto
      then have "r \<in> item_res ` set (queue_items (idle t))" by force
      ultimately show ?thesis using q(1) d Some by auto
    qed
  qed
qed

subsection \<open>The server\<close>

text \<open>
  A server in order: its pool is safe, its database is one the storage's contract holds for,
  and reading pods takes no port id back.
\<close>

definition kube_ok :: "('w \<Rightarrow> string set) \<Rightarrow> 'w K8s \<Rightarrow> bool" where
  "kube_ok issued k \<longleftrightarrow> (\<forall>ns name. grows issued (pods_Get (k8s_client k) ns name))"

definition daemon_ok :: "('w \<Rightarrow> string set) \<Rightarrow> ('s, PodResources) Storage \<Rightarrow> ('s \<Rightarrow> bool) \<Rightarrow>
    ('w, 's) daemonServer \<Rightarrow> bool" where
  "daemon_ok issued ops good s \<longleftrightarrow>
     manager_safe issued (srv_portManager s) \<and> srv_storage s = ops \<and> good (srv_resourceDB s) \<and>
     kube_ok issued (srv_k8s s)"

lemma daemon_okD:
  assumes "daemon_ok issued ops good s"
  shows "manager_safe issued (srv_portManager s)" "srv_storage s = ops" "good (srv_resourceDB s)"
    "kube_ok issued (srv_k8s s)"
  using assms by (simp_all add: daemon_ok_def)

text \<open>The server after the outside world has moved on.\<close>

definition at_world :: "'w \<Rightarrow> ('w, 's) daemonServer \<Rightarrow> ('w, 's) daemonServer" where
  "at_world w s = s\<lparr>srv_portManager := (srv_portManager s)\<lparr>env := (env (srv_portManager s))\<lparr>pf_world := w\<rparr>\<rparr>\<rparr>"

lemma at_world_simps [simp]:
  "srv_storage (at_world w s) = srv_storage s" "srv_resourceDB (at_world w s) = srv_resourceDB s"
  "srv_k8s (at_world w s) = srv_k8s s" "srv_ParseIP (at_world w s) = srv_ParseIP s"
  "inuse (srv_portManager (at_world w s)) = inuse (srv_portManager s)"
  "idle (srv_portManager (at_world w s)) = idle (srv_portManager s)"
  "locked (srv_portManager (at_world w s)) = locked (srv_portManager s)"
  "inuse_ids (srv_portManager (at_world w s)) = inuse_ids (srv_portManager s)"
  "idle_ids (srv_portManager (at_world w s)) = idle_ids (srv_portManager s)"
  by (simp_all add: at_world_def)

lemma srv_GetPod_run:
  "srv_kube (\<lambda>k. GetPod k ns name) s =
     (case pods_Get (k8s_client (srv_k8s s)) ns name (pf_world (env (srv_portManager s))) of
        (Returns (Inl e), w) \<Rightarrow> (Returns (Inl e), at_world w s)
      | (Returns (Inr pod), w) \<Rightarrow> (Returns (Inr (convertPod pod, pod)), at_world w s)
      | (Halts h, w) \<Rightarrow> (Halts h, at_world w s))"
  by (simp add: srv_kube_def srv_manager_def pool_call_run GetPod_def at_world_def
      split: prod.splits outcome.splits sum.splits)

lemma srv_manager_run: "srv_manager m s = (case m (srv_portManager s) of (r, p) \<Rightarrow> (r, s\<lparr>srv_portManager := p\<rparr>))"
  by (simp add: srv_manager_def)

lemma srv_db_run: "srv_db m s = (case m (srv_storage s) (srv_resourceDB s) of (r, d) \<Rightarrow> (r, s\<lparr>srv_resourceDB := d\<rparr>))"
  by (simp add: srv_db_def)

lemma at_world_ok:
  assumes ok: "daemon_ok issued ops good s"
    and get: "pods_Get (k8s_client (srv_k8s s)) ns name (pf_world (env (srv_portManager s))) = (out, w)"
  shows "daemon_ok issued ops good (at_world w s)"
proof -
  have "issued (pf_world (env (srv_portManager s))) \<subseteq> issued w"
    using daemon_okD(4) [OF ok] growsD [of issued "pods_Get (k8s_client (srv_k8s s)) ns name", OF _ get]
    by (simp add: kube_ok_def)
  then show ?thesis
    using ok world_safe [OF daemon_okD(1) [OF ok]] by (simp add: daemon_ok_def) (simp add: at_world_def)
qed

text \<open>What the database has for a pod.\<close>

definition record_of :: "(string, PodResources) gmap \<Rightarrow> string \<Rightarrow> PodResources" where
  "record_of m key = (case gmap_get m key of None \<Rightarrow> no_resources | Some p \<Rightarrow> p)"

definition new_record :: "PodInfo \<Rightarrow> NetworkResource \<Rightarrow> PodResources" where
  "new_record info port =
     \<lparr>pr_Resources = [\<lparr>ri_Type = ResourceTypeMultipleIP, ri_ID = GetResourceId port\<rparr>], pr_PodInfo = Some info\<rparr>"

lemma GetType_eq [simp]: "GetType r = ResourceTypeMultipleIP"
  by (cases r) simp

lemma old_resource_id_new [simp]: "old_resource_id (new_record info port) = GetResourceId port"
  by (simp add: old_resource_id_def new_record_def GetResourceItemByType_def)

locale daemon_storage = kv_storage ops view good
  for ops :: "('s, PodResources) Storage" and view :: "'s \<Rightarrow> (string, PodResources) gmap"
    and good :: "'s \<Rightarrow> bool"
begin

lemma getPodResource_run:
  assumes "daemon_ok issued ops good s"
  shows "getPodResource key s = (Returns (Inr (record_of (view (srv_resourceDB s)) key)), s)"
  using assms get_law [OF daemon_okD(3) [OF assms], of key]
  by (simp add: getPodResource_def srv_db_run daemon_ok_def record_of_def split: option.splits)

lemma AllocateIP_success:
  assumes ok: "daemon_ok issued ops good s" and run: "AllocateIP ctx r s = (Returns (Inr reply), t)"
  obtains pod w port m d where
    "pods_Get (k8s_client (srv_k8s s)) (ar_K8SPodNamespace r) (ar_K8SPodName r)
       (pf_world (env (srv_portManager s))) = (Returns (Inr pod), w)"
    "Manager_Allocate (srv_ParseIP s) \<lparr>rc_Context = ctx, rc_PodInfo = Some (convertPod pod), rc_Pod = pod\<rparr>
       (old_resource_id (record_of (view (srv_resourceDB s)) (PodInfoKey (convertPod pod))))
       (srv_portManager (at_world w s)) = (Returns (Inr port), m)"
    "st_Put ops (PodInfoKey (convertPod pod)) (new_record (convertPod pod) port) (srv_resourceDB s) =
       (Returns None, d)"
    "t = s\<lparr>srv_portManager := m, srv_resourceDB := d\<rparr>"
    "NetConfFromPort port = Inr (ap_NetConfs reply)" "ap_Success reply"
proof -
  obtain o1 w where g: "pods_Get (k8s_client (srv_k8s s)) (ar_K8SPodNamespace r) (ar_K8SPodName r)
      (pf_world (env (srv_portManager s))) = (o1, w)" by fastforce
  obtain pod where pod: "o1 = Returns (Inr pod)"
    using run g by (auto simp: AllocateIP_def srv_GetPod_run split: outcome.splits sum.splits)
  note ok1 = at_world_ok [OF ok g]
  let ?key = "PodInfoKey (convertPod pod)"
  let ?ctx = "\<lparr>rc_Context = ctx, rc_PodInfo = Some (convertPod pod), rc_Pod = pod\<rparr>"
  let ?old = "record_of (view (srv_resourceDB s)) ?key"
  have old: "getPodResource ?key (at_world w s) = (Returns (Inr ?old), at_world w s)"
    using getPodResource_run [OF ok1, of ?key] by simp
  obtain o2 m where a: "Manager_Allocate (srv_ParseIP s) ?ctx (old_resource_id ?old)
      (srv_portManager (at_world w s)) = (o2, m)" by fastforce
  obtain port where port: "o2 = Returns (Inr port)"
    using run g pod old a
    by (auto simp: AllocateIP_def srv_GetPod_run allocatePortIP_def srv_manager_run split: outcome.splits sum.splits)
  obtain o3 d where put: "st_Put ops ?key (new_record (convertPod pod) port) (srv_resourceDB s) = (o3, d)"
    by fastforce
  have o3: "o3 = Returns None"
    using run g pod old a port put daemon_okD(2) [OF ok]
    by (auto simp: AllocateIP_def srv_GetPod_run allocatePortIP_def srv_manager_run srv_db_run new_record_def
        split: outcome.splits option.splits)
  have "t = s\<lparr>srv_portManager := m, srv_resourceDB := d\<rparr> \<and> NetConfFromPort port = Inr (ap_NetConfs reply) \<and>
      ap_Success reply"
    using run g pod old a port put o3 daemon_okD(2) [OF ok]
    by (auto simp: AllocateIP_def srv_GetPod_run allocatePortIP_def srv_manager_run srv_db_run new_record_def
        at_world_def split: sum.splits option.splits)
  then show ?thesis using that g pod a port put o3 by blast
qed

lemma AllocateIP_succeeds:
  assumes ok: "daemon_ok issued ops good s"
    and g: "pods_Get (k8s_client (srv_k8s s)) (ar_K8SPodNamespace r) (ar_K8SPodName r)
       (pf_world (env (srv_portManager s))) = (Returns (Inr pod), w)"
    and a: "Manager_Allocate (srv_ParseIP s) \<lparr>rc_Context = ctx, rc_PodInfo = Some (convertPod pod), rc_Pod = pod\<rparr>
       (old_resource_id (record_of (view (srv_resourceDB s)) (PodInfoKey (convertPod pod))))
       (srv_portManager (at_world w s)) = (Returns (Inr port), m)"
    and put: "st_Put ops (PodInfoKey (convertPod pod)) (new_record (convertPod pod) port) (srv_resourceDB s) =
       (Returns None, d)"
    and conf: "NetConfFromPort port = Inr conf" "ctx_Err ctx = None"
  shows "AllocateIP ctx r s = (Returns (Inr \<lparr>ap_Success = True, ap_IPType = TypeENIMultiIP, ap_IPv4 = True,
      ap_IPv6 = False, ap_NetConfs = conf, ap_EnableTrunking = False\<rparr>), s\<lparr>srv_portManager := m, srv_resourceDB := d\<rparr>)"
proof -
  have old: "getPodResource (PodInfoKey (convertPod pod)) (at_world w s) =
      (Returns (Inr (record_of (view (srv_resourceDB s)) (PodInfoKey (convertPod pod)))), at_world w s)"
    using getPodResource_run [OF at_world_ok [OF ok g], of "PodInfoKey (convertPod pod)"] by simp
  show ?thesis
    using g old a put conf daemon_okD(2) [OF ok]
    by (simp add: AllocateIP_def srv_GetPod_run allocatePortIP_def srv_manager_run srv_db_run new_record_def
        at_world_def)
qed

text \<open>Allocating keeps the server in order, whether the reply is an error or not.\<close>

lemma AllocateIP_keeps:
  assumes ok: "daemon_ok issued ops good s" and run: "AllocateIP ctx r s = (Returns reply, t)"
  shows "daemon_ok issued ops good t"
proof -
  obtain o1 w where g: "pods_Get (k8s_client (srv_k8s s)) (ar_K8SPodNamespace r) (ar_K8SPodName r)
      (pf_world (env (srv_portManager s))) = (o1, w)" by fastforce
  note ok1 = at_world_ok [OF ok g]
  show ?thesis
  proof (cases "\<exists>pod. o1 = Returns (Inr pod)")
    case False
    then have "t = at_world w s"
      using run g by (auto simp: AllocateIP_def srv_GetPod_run split: outcome.splits sum.splits)
    then show ?thesis using ok1 by simp
  next
    case True
    then obtain pod where pod: "o1 = Returns (Inr pod)" by blast
    let ?key = "PodInfoKey (convertPod pod)"
    let ?ctx = "\<lparr>rc_Context = ctx, rc_PodInfo = Some (convertPod pod), rc_Pod = pod\<rparr>"
    let ?old = "record_of (view (srv_resourceDB s)) ?key"
    have old: "getPodResource ?key (at_world w s) = (Returns (Inr ?old), at_world w s)"
      using getPodResource_run [OF ok1, of ?key] by simp
    obtain o2 m where a: "Manager_Allocate (srv_ParseIP s) ?ctx (old_resource_id ?old)
        (srv_portManager (at_world w s)) = (o2, m)" by fastforce
    note am = Manager_Allocate_safe [OF daemon_okD(1) [OF ok1] a]
    let ?u = "(at_world w s)\<lparr>srv_portManager := m\<rparr>"
    have oku: "daemon_ok issued ops good ?u" using ok1 am(1) by (simp add: daemon_ok_def)
    show ?thesis
    proof (cases "\<exists>port. o2 = Returns (Inr port)")
      case False
      then have "t = ?u"
        using run g pod old a
        by (auto simp: AllocateIP_def srv_GetPod_run allocatePortIP_def srv_manager_run split: outcome.splits sum.splits)
      then show ?thesis using oku by simp
    next
      case True
      then obtain port where port: "o2 = Returns (Inr port)" by blast
      obtain o3 d where put: "st_Put ops ?key (new_record (convertPod pod) port) (srv_resourceDB s) = (o3, d)"
        by fastforce
      have t: "t = ?u\<lparr>srv_resourceDB := d\<rparr>"
        using run g pod old a port put daemon_okD(2) [OF ok]
        by (auto simp: AllocateIP_def srv_GetPod_run allocatePortIP_def srv_manager_run srv_db_run new_record_def
            split: outcome.splits option.splits sum.splits)
      obtain e where "o3 = Returns e"
        using run g pod old a port put daemon_okD(2) [OF ok]
        by (cases o3) (auto simp: AllocateIP_def srv_GetPod_run allocatePortIP_def srv_manager_run srv_db_run
            new_record_def)
      then have "good d" using put put_law [OF daemon_okD(3) [OF ok]] by blast
      then show ?thesis using oku t by (simp add: daemon_ok_def)
    qed
  qed
qed

lemma release_all_run:
  "daemon_ok issued ops good s \<Longrightarrow> release_all ctx items s = (out, t) \<Longrightarrow>
   daemon_ok issued ops good t \<and> (\<exists>m. t = s\<lparr>srv_portManager := m\<rparr> \<and> env m = env (srv_portManager s)) \<and>
   (out = Returns None \<longrightarrow>
      inuse_ids (srv_portManager s) = inuse_ids (srv_portManager t) + mset (map ri_ID items) \<and>
      idle_ids (srv_portManager t) = idle_ids (srv_portManager s) + mset (map ri_ID items))"
proof (induction items arbitrary: s)
  case Nil
  then have "t = s" by simp
  then show ?case using Nil by (auto intro: exI [of _ "srv_portManager s"])
next
  case (Cons i items)
  obtain o1 m where rel: "Manager_Release (Some ctx) (ri_ID i) (srv_portManager s) = (o1, m)" by fastforce
  note r = Manager_Release_safe [OF daemon_okD(1) [OF Cons.prems(1)] rel]
  let ?u = "s\<lparr>srv_portManager := m\<rparr>"
  have ok: "daemon_ok issued ops good ?u" using Cons.prems(1) r by (simp add: daemon_ok_def)
  show ?case
  proof (cases "o1 = Returns None")
    case False
    then have "t = ?u" "out \<noteq> Returns None"
      using Cons.prems(2) rel by (auto simp: srv_manager_run split: outcome.splits option.splits)
    then show ?thesis using ok r by auto
  next
    case True
    then have rest: "release_all ctx items ?u = (out, t)" using Cons.prems(2) rel by (simp add: srv_manager_run)
    note I = Cons.IH [OF ok rest]
    obtain res where res: "gmap_get (inuse (srv_portManager s)) (ri_ID i) = Some res"
      "inuse m = gmap_delete (inuse (srv_portManager s)) (ri_ID i)"
      "idle_ids m = add_mset (ri_ID i) (idle_ids (srv_portManager s))" "env m = env (srv_portManager s)"
      using r True by auto
    have wf: "gmap_ok (inuse (srv_portManager s))"
      using manager_safeD(1) [OF daemon_okD(1) [OF Cons.prems(1)]] by (simp add: pool_wf_def)
    have "inuse_ids (srv_portManager s) = add_mset (ri_ID i) (inuse_ids m)"
      using inuse_ids_delete [OF wf gmap_get_Some_key [OF res(1)]] res(2) by (simp add: inuse_ids_def)
    then show ?thesis using I res(3,4) by auto
  qed
qed

lemma ReleaseIP_run:
  assumes ok: "daemon_ok issued ops good s"
    and g: "pods_Get (k8s_client (srv_k8s s)) (rr_K8SPodNamespace r) (rr_K8SPodName r)
      (pf_world (env (srv_portManager s))) = (Returns (Inr pod), w)"
    and rel: "release_all \<lparr>rc_Context = ctx, rc_PodInfo = Some (convertPod pod), rc_Pod = pod\<rparr>
      (pr_Resources (record_of (view (srv_resourceDB s)) (PodInfoKey (convertPod pod)))) (at_world w s) = (out, u)"
  shows "ReleaseIP ctx r s = (case out of
      Halts h \<Rightarrow> (Halts h, u)
    | Returns (Some e) \<Rightarrow> (Returns (Inl e), u)
    | Returns None \<Rightarrow>
        (case if pi_IpStickTime (convertPod pod) = 0
              then st_Delete ops (PodInfoKey (convertPod pod)) (srv_resourceDB s) else (Returns None, srv_resourceDB s) of
           (Halts h, d) \<Rightarrow> (Halts h, u\<lparr>srv_resourceDB := d\<rparr>)
         | (Returns (Some e), d) \<Rightarrow> (Returns (Inl (Errorf ''failed to delete key'' (Some e))), u\<lparr>srv_resourceDB := d\<rparr>)
         | (Returns None, d) \<Rightarrow>
             (Returns (case ctx_Err ctx of
                 Some e \<Rightarrow> Inl (Errorf ''error on grpc connection'' (Some e))
               | None \<Rightarrow> Inr \<lparr>rl_Success = True, rl_IPv4Addr = None, rl_DeviceNumber = 0, rl_IPv4 = False, rl_IPv6 = False\<rparr>),
              u\<lparr>srv_resourceDB := d\<rparr>)))"
proof -
  note ok1 = at_world_ok [OF ok g]
  have old: "getPodResource (PodInfoKey (convertPod pod)) (at_world w s) =
      (Returns (Inr (record_of (view (srv_resourceDB s)) (PodInfoKey (convertPod pod)))), at_world w s)"
    using getPodResource_run [OF ok1, of "PodInfoKey (convertPod pod)"] by simp
  obtain m where u: "u = (at_world w s)\<lparr>srv_portManager := m\<rparr>"
    using release_all_run [OF ok1 rel] by blast
  have db: "srv_resourceDB u = srv_resourceDB s" "srv_storage u = ops" "u\<lparr>srv_resourceDB := srv_resourceDB s\<rparr> = u"
    using daemon_okD(2) [OF ok] by (simp_all add: u at_world_def)
  show ?thesis
    using g old rel db
    by (simp add: ReleaseIP_def srv_GetPod_run srv_db_run split: outcome.split option.split prod.split)
qed

lemma ReleaseIP_error:
  assumes "pods_Get (k8s_client (srv_k8s s)) (rr_K8SPodNamespace r) (rr_K8SPodName r)
      (pf_world (env (srv_portManager s))) = (out, w)" "\<nexists>pod. out = Returns (Inr pod)"
  shows "\<exists>e. ReleaseIP ctx r s = ((case out of Halts h \<Rightarrow> Halts h | Returns _ \<Rightarrow> Returns (Inl e)), at_world w s)"
  using assms by (auto simp: ReleaseIP_def srv_GetPod_run split: outcome.splits sum.splits)

lemma ReleaseIP_keeps:
  assumes ok: "daemon_ok issued ops good s" and run: "ReleaseIP ctx r s = (Returns reply, t)"
  shows "daemon_ok issued ops good t"
proof -
  obtain o1 w where g: "pods_Get (k8s_client (srv_k8s s)) (rr_K8SPodNamespace r) (rr_K8SPodName r)
      (pf_world (env (srv_portManager s))) = (o1, w)" by fastforce
  note ok1 = at_world_ok [OF ok g]
  show ?thesis
  proof (cases "\<exists>pod. o1 = Returns (Inr pod)")
    case False
    then show ?thesis using ReleaseIP_error [OF g, of ctx] run ok1 by auto
  next
    case True
    then obtain pod where pod: "o1 = Returns (Inr pod)" by blast
    obtain o2 u where rel: "release_all \<lparr>rc_Context = ctx, rc_PodInfo = Some (convertPod pod), rc_Pod = pod\<rparr>
        (pr_Resources (record_of (view (srv_resourceDB s)) (PodInfoKey (convertPod pod)))) (at_world w s) = (o2, u)"
      by fastforce
    note oku = release_all_run [OF ok1 rel, THEN conjunct1]
    have d: "good d" if "st_Delete ops k (srv_resourceDB s) = (Returns e, d)" for k e d
      using delete_law [OF daemon_okD(3) [OF ok] that] by blast
    have "t = u \<or> (\<exists>d. t = u\<lparr>srv_resourceDB := d\<rparr> \<and> good d)"
      using run [unfolded ReleaseIP_run [OF ok g [unfolded pod] rel]] d daemon_okD(3) [OF ok]
      by (auto split: outcome.splits option.splits prod.splits if_splits)
    then show ?thesis using oku by (auto simp: daemon_ok_def)
  qed
qed

lemma ReleaseIP_success:
  assumes ok: "daemon_ok issued ops good s" and run: "ReleaseIP ctx r s = (Returns (Inr reply), t)"
  obtains pod w m d where
    "pods_Get (k8s_client (srv_k8s s)) (rr_K8SPodNamespace r) (rr_K8SPodName r)
       (pf_world (env (srv_portManager s))) = (Returns (Inr pod), w)"
    "release_all \<lparr>rc_Context = ctx, rc_PodInfo = Some (convertPod pod), rc_Pod = pod\<rparr>
       (pr_Resources (record_of (view (srv_resourceDB s)) (PodInfoKey (convertPod pod)))) (at_world w s) =
       (Returns None, (at_world w s)\<lparr>srv_portManager := m\<rparr>)"
    "if pi_IpStickTime (convertPod pod) = 0
     then st_Delete ops (PodInfoKey (convertPod pod)) (srv_resourceDB s) = (Returns None, d) else d = srv_resourceDB s"
    "t = s\<lparr>srv_portManager := m, srv_resourceDB := d\<rparr>"
proof -
  obtain o1 w where g: "pods_Get (k8s_client (srv_k8s s)) (rr_K8SPodNamespace r) (rr_K8SPodName r)
      (pf_world (env (srv_portManager s))) = (o1, w)" by fastforce
  obtain pod where pod: "o1 = Returns (Inr pod)"
    using ReleaseIP_error [OF g, of ctx] run by (cases o1) auto
  note ok1 = at_world_ok [OF ok g]
  obtain o2 u where rel: "release_all \<lparr>rc_Context = ctx, rc_PodInfo = Some (convertPod pod), rc_Pod = pod\<rparr>
      (pr_Resources (record_of (view (srv_resourceDB s)) (PodInfoKey (convertPod pod)))) (at_world w s) = (o2, u)"
    by fastforce
  obtain m where u: "u = (at_world w s)\<lparr>srv_portManager := m\<rparr>"
    using release_all_run [OF ok1 rel] by blast
  have "o2 = Returns None \<and> (\<exists>d. t = u\<lparr>srv_resourceDB := d\<rparr> \<and> (if pi_IpStickTime (convertPod pod) = 0
     then st_Delete ops (PodInfoKey (convertPod pod)) (srv_resourceDB s) = (Returns None, d) else d = srv_resourceDB s))"
    using run [unfolded ReleaseIP_run [OF ok g [unfolded pod] rel]]
    by (auto split: outcome.splits option.splits prod.splits if_splits)
  then show ?thesis using that g pod rel u by (auto simp: at_world_def)
qed

end

subsection \<open>The mapping from ports to pods\<close>

text \<open>A record as \<open>AllocateIP\<close> writes them: with its pod's information and some resource.\<close>

definition complete :: "PodResources \<Rightarrow> bool" where
  "complete p \<longleftrightarrow> pr_PodInfo p \<noteq> None \<and> pr_Resources p \<noteq> []"

lemma new_record_complete [simp]: "complete (new_record info port)"
  by (simp add: complete_def new_record_def)

lemma add_ports_keys: "gmap_keys (add_ports key ports m) = gmap_keys m \<union> ri_ID ` set ports"
  by (induction ports arbitrary: m) auto

lemma map_ports_keys:
  "map_ports usage recs m = Returns m' \<Longrightarrow>
   gmap_keys m' = gmap_keys m \<union> (\<Union>p \<in> set recs. ri_ID ` set (pr_Resources p))"
  by (induction recs arbitrary: m) (auto simp: add_ports_keys split: option.splits if_splits)

lemma map_ports_ends: "\<forall>p \<in> set recs. complete p \<Longrightarrow> \<exists>m'. map_ports usage recs m = Returns m'"
  by (induction recs arbitrary: m) (auto simp: complete_def split: option.splits)

context daemon_storage
begin

lemma getPodsWithoutPort_run:
  "good s \<Longrightarrow> getPodsWithoutPort ops pods m s = (out, t) \<Longrightarrow>
   t = s \<and> ((\<forall>p \<in> snd ` set (view s). complete p) \<longrightarrow> (\<exists>m'. out = Returns m'))"
proof (induction pods arbitrary: m)
  case Nil
  then show ?case by auto
next
  case (Cons p pods)
  note get = get_law [OF Cons.prems(1), of "PodInfoKey p"]
  show ?case
  proof (cases "gmap_get (view s) (PodInfoKey p)")
    case None
    then show ?thesis using get Cons.IH [OF Cons.prems(1)] Cons.prems(2) by auto
  next
    case (Some rec)
    have rec: "rec \<in> snd ` set (view s)" using gmap_get_Some_in [OF Some] by force
    show ?thesis
    proof (cases "pr_PodInfo rec")
      case None
      then show ?thesis using get Some Cons.prems(2) rec by (auto simp: complete_def)
    next
      case (Some info)
      then show ?thesis
        using get \<open>gmap_get (view s) (PodInfoKey p) = Some rec\<close> Cons.IH [OF Cons.prems(1)] Cons.prems(2)
        by auto
    qed
  qed
qed

lemma getPortsMapping_run:
  assumes g: "good s" and run: "getPortsMapping ops usage s = (out, t)"
  shows "t = s" "out = Returns (Inr m) \<Longrightarrow> rid \<in> gmap_keys m \<longleftrightarrow>
      (\<exists>key p. gmap_get (view s) key = Some p \<and> rid \<in> ri_ID ` set (pr_Resources p))"
    "\<forall>p \<in> snd ` set (view s). complete p \<Longrightarrow> \<exists>m. out = Returns (Inr m)"
proof -
  have o: "t = s \<and> out = (case map_ports usage (map snd (view s)) [] of Halts h \<Rightarrow> Halts h | Returns m \<Rightarrow> Returns (Inr m))"
    using run list_law [OF g] by (auto simp: getPortsMapping_def split: outcome.splits)
  show "t = s" using o by simp
  show "rid \<in> gmap_keys m \<longleftrightarrow> (\<exists>key p. gmap_get (view s) key = Some p \<and> rid \<in> ri_ID ` set (pr_Resources p))"
    if "out = Returns (Inr m)"
  proof -
    have m: "map_ports usage (map snd (view s)) [] = Returns m"
      using o that by (auto split: outcome.splits)
    have look: "gmap_get (view s) key = Some p \<longleftrightarrow> (key, p) \<in> set (view s)" for key p
      using gmap_in_get [OF view_law [OF g]] gmap_get_Some_in by metis
    have "rid \<in> gmap_keys m \<longleftrightarrow> (\<exists>x \<in> set (view s). rid \<in> ri_ID ` set (pr_Resources (snd x)))"
      by (simp add: map_ports_keys [OF m])
    also have "\<dots> \<longleftrightarrow> (\<exists>key p. gmap_get (view s) key = Some p \<and> rid \<in> ri_ID ` set (pr_Resources p))"
      unfolding look Bex_def split_paired_Ex by simp
    finally show ?thesis .
  qed
  show "\<exists>m. out = Returns (Inr m)" if "\<forall>p \<in> snd ` set (view s). complete p"
    using o map_ports_ends [of "map snd (view s)" usage "[]"] that by auto
qed

end

text \<open>The server that \<open>newDaemonServer\<close> makes has its records in a disk storage.\<close>

interpretation served: daemon_storage disk_storage "\<lambda>d. ms_store (ds_memory d)" "disk_ok contents"
  for contents :: "'b \<Rightarrow> string \<Rightarrow> string \<Rightarrow> string option"
  by unfold_locales

subsection \<open>A server on a disk storage\<close>

definition served_ok :: "('w \<Rightarrow> string set) \<Rightarrow> ('b \<Rightarrow> string \<Rightarrow> string \<Rightarrow> string option) \<Rightarrow>
    ('w, ('b, PodResources) DiskStorage) daemonServer \<Rightarrow> bool" where
  "served_ok issued contents = daemon_ok issued disk_storage (disk_ok contents)"

definition records :: "('w, ('b, PodResources) DiskStorage) daemonServer \<Rightarrow> (string, PodResources) gmap" where
  "records s = ms_store (ds_memory (srv_resourceDB s))"

text \<open>The API server has the pod under the name, whatever state the world is in.\<close>

definition has_pod :: "'w K8s \<Rightarrow> string \<Rightarrow> string \<Rightarrow> KubePod \<Rightarrow> bool" where
  "has_pod k ns name pod \<longleftrightarrow> (\<forall>w. \<exists>w'. pods_Get (k8s_client k) ns name w = (Returns (Inr pod), w'))"

abbreviation pod_key :: "KubePod \<Rightarrow> string" where
  "pod_key pod \<equiv> PodInfoKey (convertPod pod)"

abbreviation port_of :: "('w, 's) daemonServer \<Rightarrow> string \<Rightarrow> NetworkResource option" where
  "port_of s rid \<equiv> gmap_get (inuse (srv_portManager s)) rid"

definition names :: "(string, PodResources) gmap \<Rightarrow> string \<Rightarrow> string \<Rightarrow> bool" where
  "names m key rid \<longleftrightarrow> rid \<in> ri_ID ` set (pr_Resources (record_of m key))"

lemma served_okD: "served_ok issued contents s \<Longrightarrow> manager_safe issued (srv_portManager s)"
  by (simp add: served_ok_def daemon_ok_def)

subsection \<open>Starting the server\<close>

text \<open>What \<open>newDaemonServer\<close> hands to the port manager, and what of it ends up in the server.\<close>

definition named_node :: "DaemonConfigure \<Rightarrow> NodeInfo \<Rightarrow> NodeInfo" where
  "named_node c ni = (if length (node_Name ni) = 0 then ni\<lparr>node_Name := dc_NodeName c\<rparr> else ni)"

lemma named_node_UUID [simp]: "node_UUID (named_node c ni) = node_UUID ni"
  by (simp add: named_node_def)

lemma newDaemonServer_success:
  assumes ok: "disk_ok contents d"
    and new: "newDaemonServer (Inr client) (Inr c) (Inr ni) (Inr kc) (Inr d) disk_storage P clk rnd w = Returns (Inr srv)"
    and pods: "pods_List kc [(''vpc-cni'', ''true'')] (node_Name (named_node c ni)) w = (Returns (Inr items), w1)"
  obtains m where "srv_k8s srv = \<lparr>k8s_client = kc, k8s_nodeName = node_Name (named_node c ni)\<rparr>"
    "srv_storage srv = disk_storage" "srv_resourceDB srv = d"
    "NewPortResourceManager (c\<lparr>dc_Node := Some (named_node c ni)\<rparr>) client m clk rnd w1 =
       Returns (Inr (srv_portManager srv))"
    "\<forall>rid. rid \<in> gmap_keys m \<longleftrightarrow>
      (\<exists>key p. gmap_get (ms_store (ds_memory d)) key = Some p \<and> rid \<in> ri_ID ` set (pr_Resources p))"
proof -
  let ?k = "\<lparr>k8s_client = kc, k8s_nodeName = node_Name (named_node c ni)\<rparr>"
  have local: "ListLocalPods ?k \<lparr>fl_Annotations = [(PodNetworks, ''rubble'')],
             fl_Labels = [(''vpc-cni'', ''true'')]\<rparr> w = (Returns (Inr (map convertPod items)), w1)"
    using pods by (simp add: ListLocalPods_def)
  obtain o1 s1 where u: "getPodsWithoutPort disk_storage (map convertPod items) [] d = (o1, s1)" by fastforce
  have s1: "s1 = d" using served.getPodsWithoutPort_run [OF ok u] by simp
  obtain usage where o1: "o1 = Returns usage"
    using new local u by (cases o1) (auto simp: newDaemonServer_def Let_def named_node_def)
  obtain o2 s2 where g: "getPortsMapping disk_storage usage d = (o2, s2)" by fastforce
  note mapping = served.getPortsMapping_run [OF ok g]
  obtain m where o2: "o2 = Returns (Inr m)"
    using new local u s1 o1 g
    by (auto simp: newDaemonServer_def Let_def named_node_def split: outcome.splits sum.splits)
  have "NewPortResourceManager (c\<lparr>dc_Node := Some (named_node c ni)\<rparr>) client m clk rnd w1 =
        Returns (Inr (srv_portManager srv)) \<and>
      srv_k8s srv = ?k \<and> srv_storage srv = disk_storage \<and> srv_resourceDB srv = d"
    using new local u s1 o1 g o2 mapping(1)
    by (auto simp: newDaemonServer_def Let_def named_node_def split: outcome.splits sum.splits)
  then show ?thesis using that mapping(2) [OF o2] by blast
qed

end
