(* ===== verification/Daemon_Properties.thy ===== *)
theory Daemon_Properties
  imports Daemon_Laws Samples Storage_Properties
begin

section \<open>Properties of the daemon\<close>

text \<open>
  The daemon properties of the manifest: what a request leaves in the pool and in the database,
  the round trip of a pod that keeps its address, and the requests after which the two no
  longer agree. The server is one with a disk storage, as \<open>newDaemonServer\<close> makes it.
\<close>

lemma allocate_facts:
  assumes ok: "served_ok issued contents s" and run: "AllocateIP ctx r s = (Returns (Inr reply), t)"
    and pod: "has_pod (srv_k8s s) (ar_K8SPodNamespace r) (ar_K8SPodName r) pod"
  obtains port w m where "served_ok issued contents t" "srv_k8s t = srv_k8s s"
    "records t = gmap_put (records s) (pod_key pod) (new_record (convertPod pod) port)"
    "inuse (srv_portManager t) = gmap_put (inuse (srv_portManager s)) (GetResourceId port) port"
    "port_of s (GetResourceId port) = None" "locked (srv_portManager t) = locked (srv_portManager s)"
    "NetConfFromPort port = Inr (ap_NetConfs reply)" "srv_portManager t = m"
    "Manager_Allocate (srv_ParseIP s) \<lparr>rc_Context = ctx, rc_PodInfo = Some (convertPod pod), rc_Pod = pod\<rparr>
       (old_resource_id (record_of (records s) (pod_key pod))) (srv_portManager (at_world w s)) =
       (Returns (Inr port), m)"
proof -
  note ok' = ok [unfolded served_ok_def]
  obtain pod' w port m d where a:
    "pods_Get (k8s_client (srv_k8s s)) (ar_K8SPodNamespace r) (ar_K8SPodName r)
       (pf_world (env (srv_portManager s))) = (Returns (Inr pod'), w)"
    "Manager_Allocate (srv_ParseIP s) \<lparr>rc_Context = ctx, rc_PodInfo = Some (convertPod pod'), rc_Pod = pod'\<rparr>
       (old_resource_id (record_of (ms_store (ds_memory (srv_resourceDB s))) (pod_key pod')))
       (srv_portManager (at_world w s)) = (Returns (Inr port), m)"
    "st_Put disk_storage (pod_key pod') (new_record (convertPod pod') port) (srv_resourceDB s) =
       (Returns None, d)"
    "t = s\<lparr>srv_portManager := m, srv_resourceDB := d\<rparr>"
    "NetConfFromPort port = Inr (ap_NetConfs reply)" "ap_Success reply"
    by (rule served.AllocateIP_success [OF ok' run])
  have p: "pod' = pod" using pod a(1) unfolding has_pod_def by (metis Inr_inject outcome.inject(1) prod.inject)
  have tok: "served_ok issued contents t"
    unfolding served_ok_def by (rule served.AllocateIP_keeps [OF ok' run])
  have w: "daemon_ok issued disk_storage (disk_ok contents) (at_world w s)" by (rule at_world_ok [OF ok' a(1)])
  note m = Manager_Allocate_safe [OF daemon_okD(1) [OF w] a(2)]
  have put: "ms_store (ds_memory d) =
      gmap_put (ms_store (ds_memory (srv_resourceDB s))) (pod_key pod) (new_record (convertPod pod) port)"
    using disk.put_law [OF daemon_okD(3) [OF ok'] a(3)] p by simp
  show ?thesis
    by (rule that [OF tok, of port m w]) (use a m put p in \<open>simp_all add: records_def\<close>)
qed

subsection \<open>A concrete server\<close>

text \<open>
  Two pods, one of a stateful set and one of no set, on the simulated port service; a database
  that can hold records of these two; and a server on it where the first pod has a port.
\<close>

definition sim_kpod :: "string \<Rightarrow> KubePod" where
  "sim_kpod name = \<lparr>pod_Name = name, pod_Namespace = ''ns'', pod_Annotations = [],
     pod_OwnerKinds = (if name = ''db'' then [''StatefulSet''] else []), pod_StatusIP = ''''\<rparr>"

definition sim_k8s :: "sim K8s" where
  "sim_k8s = \<lparr>k8s_client = \<lparr>pods_Get = (\<lambda>ns name w. (Returns (Inr (sim_kpod name)), w)),
     pods_List = (\<lambda>l n w. (Returns (Inr [sim_kpod ''db'', sim_kpod ''web'']), w))\<rparr>, k8s_nodeName = ''node''\<rparr>"

definition sim_ser :: "PodResources \<Rightarrow> error + string" where
  "sim_ser v = (case (pr_Resources v, pr_PodInfo v) of
     ([i], Some info) \<Rightarrow>
       (if ri_Type i \<noteq> ResourceTypeMultipleIP then Inl (Foreign ''type'')
        else if info = convertPod (sim_kpod ''db'') then Inr (CHR ''d'' # ri_ID i)
        else if info = convertPod (sim_kpod ''web'') then Inr (CHR ''w'' # ri_ID i)
        else Inl (Foreign ''pod''))
   | _ \<Rightarrow> Inl (Foreign ''shape''))"

definition sim_deser :: "string \<Rightarrow> error + PodResources" where
  "sim_deser e = (case e of [] \<Rightarrow> Inl (Foreign ''empty'')
     | c # rid \<Rightarrow> Inr \<lparr>pr_Resources = [\<lparr>ri_Type = ResourceTypeMultipleIP, ri_ID = rid\<rparr>],
         pr_PodInfo = Some (convertPod (sim_kpod (if c = CHR ''d'' then ''db'' else ''web'')))\<rparr>)"

definition sim_port0 :: NetworkResource where
  "sim_port0 = PortResource (sample_port (sim_id 0) ''10.0.0.2'')"

definition sim_store :: "(string \<Rightarrow> (string, string) gmap, PodResources) DiskStorage" where
  "sim_store = \<lparr>ds_db = sim_bolt, ds_name = ''res'',
     ds_memory = \<lparr>ms_lock = False, ms_store = [(''ns/db'', new_record (convertPod (sim_kpod ''db'')) sim_port0)]\<rparr>,
     ds_serializer = sim_ser, ds_deserializer = sim_deser,
     ds_file = (\<lambda>n. [(''ns/db'', CHR ''d'' # sim_id 0)])\<rparr>"

definition sim_server ::
    "sim pool \<Rightarrow> (sim, (string \<Rightarrow> (string, string) gmap, PodResources) DiskStorage) daemonServer" where
  "sim_server p = \<lparr>srv_k8s = sim_k8s, srv_storage = disk_storage, srv_resourceDB = sim_store,
     srv_portManager = p, srv_ParseIP = (\<lambda>a. True)\<rparr>"

lemma sim_kind: "ToLower ''StatefulSet'' = ''statefulset''"
  by code_simp

lemma sim_kpod_info:
  "convertPod (sim_kpod name) = \<lparr>pi_Name = name, pi_Namespace = ''ns'', pi_PodIP = '''',
     pi_IpStickTime = (if name = ''db'' then defaultStickTimeForSts else 0)\<rparr>"
  by (simp add: convertPod_def sim_kpod_def annotation_def parseBool_def sticks_for_owner_eq sim_kind)

lemma sim_pod_key [simp]: "pod_key (sim_kpod name) = ''ns/'' @ name"
  by (simp add: sim_kpod_info PodInfoKey_def)

lemma sim_sticks [simp]: "pi_IpStickTime (convertPod (sim_kpod ''db'')) \<noteq> 0"
  by (simp add: sim_kpod_info defaultStickTimeForSts_def)

lemma sim_annotation [simp]: "annotation (sim_kpod name) key = ''''"
  by (simp add: annotation_def sim_kpod_def)

lemma sim_has_pod [simp]: "has_pod sim_k8s ns name (sim_kpod name)"
  by (simp add: has_pod_def sim_k8s_def)

lemma sim_ser_record:
  "name \<in> {''db'', ''web''} \<Longrightarrow> \<exists>e. sim_ser (new_record (convertPod (sim_kpod name)) port) = Inr e"
  by (auto simp: sim_ser_def new_record_def)

lemma sim_ser_deser: "sim_ser v = Inr e \<Longrightarrow> sim_deser e = Inr v"
  by (cases v) (auto simp: sim_ser_def sim_deser_def split: list.splits option.splits if_splits)

lemma sim_store_ok: "disk_ok sim_contents sim_store"
  using sim_bolt_ok sim_ser_deser
  by (auto simp: disk_ok_def sim_store_def gmap_ok_def mirrors_def mirror_at_def sim_contents_def gmap_get_def
      sim_deser_def new_record_def sim_port0_def)

lemma sim_store_put: "name \<in> {''db'', ''web''} \<Longrightarrow>
   \<exists>d. Disk_Put key (new_record (convertPod (sim_kpod name)) port) sim_store = (Returns None, d)"
  using sim_ser_record [of name port]
  by (auto simp: Disk_Put_def sim_store_def ds_tx_run ds_mem_run sim_bolt_def Memory_runs)

lemma sim_server_simps [simp]:
  "srv_k8s (sim_server p) = sim_k8s" "srv_portManager (sim_server p) = p" "srv_resourceDB (sim_server p) = sim_store"
  "records (sim_server p) = [(''ns/db'', new_record (convertPod (sim_kpod ''db'')) sim_port0)]"
  by (simp_all add: sim_server_def records_def) (simp add: sim_store_def)

lemma sim_server_ok: "manager_safe sim_issued p \<Longrightarrow> served_ok sim_issued sim_contents (sim_server p)"
  using sim_store_ok
  by (simp add: served_ok_def daemon_ok_def) (simp add: sim_server_def kube_ok_def sim_k8s_def grows_def)

lemma sim_servers:
  "served_ok sim_issued sim_contents (sim_server sim_pool)" "served_ok sim_issued sim_contents (sim_server sim_busy)"
  using sim_pool_guarded sim_busy_guarded
  by (auto intro!: sim_server_ok pool_ok_safe simp: pool_ok_def)

lemma sim_port0_use [simp]:
  "gmap_get (inuse sim_pool) (GetResourceId sim_port0) = Some sim_port0"
  "gmap_get (inuse sim_busy) (GetResourceId sim_port0) = Some sim_port0"
  "GetResourceId sim_port0 = sim_id 0"
  by (simp_all add: sim_busy_def sim_pool_def sim_port0_def gmap_get_def)

lemma sim_port0_conf: "\<exists>conf. NetConfFromPort (PortResource (sample_port rid ip)) = Inr conf"
  by (simp add: NetConfFromPort_def Let_def)

definition sim_alloc :: "string \<Rightarrow> AllocateIPRequest" where
  "sim_alloc name = \<lparr>ar_K8SPodName = name, ar_K8SPodNamespace = ''ns'', ar_K8SPodInfraContainerId = ''c'',
     ar_Netns = ''n'', ar_IfName = ''eth0''\<rparr>"

definition sim_release :: "string \<Rightarrow> ReleaseIPRequest" where
  "sim_release name = \<lparr>rr_K8SPodName = name, rr_K8SPodNamespace = ''ns'', rr_K8SPodInfraContainerId = ''c'',
     rr_IPType = TypeENIMultiIP, rr_IPv4Addr = None, rr_MacAddr = '''', rr_Reason = ''''\<rparr>"

lemma sim_requests [simp]:
  "ar_K8SPodName (sim_alloc name) = name" "rr_K8SPodName (sim_release name) = name"
  "ctx_Err sim_ctx = None"
  by (simp_all add: sim_alloc_def sim_release_def sim_ctx_def)

text \<open>Allocating for one of the two pods succeeds when something is idle.\<close>

lemma sim_allocates_item:
  assumes ok: "served_ok sim_issued sim_contents s" and free: "\<not> locked (srv_portManager s)"
    and ne: "idle_ids (srv_portManager s) \<noteq> {#}" and k: "srv_k8s s = sim_k8s" and db: "srv_resourceDB s = sim_store"
    and conf: "\<forall>i \<in> set (queue_items (idle (srv_portManager s))). \<exists>conf. NetConfFromPort (item_res i) = Inr conf"
    and name: "name \<in> {''db'', ''web''}" "ar_K8SPodName r = name"
  shows "\<exists>i \<in> set (queue_items (idle (srv_portManager s))). \<exists>reply t.
    AllocateIP sim_ctx r s = (Returns (Inr reply), t) \<and> NetConfFromPort (item_res i) = Inr (ap_NetConfs reply)"
proof -
  note ok' = ok [unfolded served_ok_def]
  let ?w = "pf_world (env (srv_portManager s))"
  have g: "pods_Get (k8s_client (srv_k8s s)) (ar_K8SPodNamespace r) (ar_K8SPodName r) ?w =
      (Returns (Inr (sim_kpod name)), ?w)" by (simp add: k sim_k8s_def name(2))
  note okw = at_world_ok [OF ok' g]
  let ?old = "old_resource_id (record_of (ms_store (ds_memory (srv_resourceDB s))) (pod_key (sim_kpod name)))"
  obtain item q where i: "Acquire sim_ctx ?old (srv_portManager (at_world ?w s)) = (Returns (Inr (item_res item)), q)"
    "item \<in> set (queue_items (idle (srv_portManager (at_world ?w s))))"
    by (rule Acquire_idle_run [of "srv_portManager (at_world ?w s)" sim_ctx ?old])
      (use free ne manager_safeD(1) [OF daemon_okD(1) [OF okw]] in auto)
  have a: "Manager_Allocate (srv_ParseIP s) \<lparr>rc_Context = sim_ctx, rc_PodInfo = Some (convertPod (sim_kpod name)),
      rc_Pod = sim_kpod name\<rparr> ?old (srv_portManager (at_world ?w s)) = (Returns (Inr (item_res item)), q)"
    using i(1) by (simp add: Manager_Allocate_def requireStaticIP_def)
  obtain c where c: "NetConfFromPort (item_res item) = Inr c" using conf i(2) by auto
  obtain d where "st_Put disk_storage (pod_key (sim_kpod name)) (new_record (convertPod (sim_kpod name)) (item_res item))
      (srv_resourceDB s) = (Returns None, d)"
    using sim_store_put [OF name(1)] db by (auto simp: disk_storage_def)
  from served.AllocateIP_succeeds [OF ok' g a this c] show ?thesis
    using i(2) c by (intro bexI [of _ item]) (auto simp: sim_ctx_def)
qed

lemma sim_allocates:
  assumes "served_ok sim_issued sim_contents s" "\<not> locked (srv_portManager s)"
    and "idle_ids (srv_portManager s) \<noteq> {#}" "srv_k8s s = sim_k8s" "srv_resourceDB s = sim_store"
    and "\<forall>i \<in> set (queue_items (idle (srv_portManager s))). \<exists>conf. NetConfFromPort (item_res i) = Inr conf"
    and "name \<in> {''db'', ''web''}"
  shows "\<exists>reply t. AllocateIP sim_ctx (sim_alloc name) s = (Returns (Inr reply), t)"
  using sim_allocates_item [OF assms sim_requests(1)] by blast


lemma sim_pool_allocates:
  "name \<in> {''db'', ''web''} \<Longrightarrow>
   \<exists>reply t. AllocateIP sim_ctx (sim_alloc name) (sim_server sim_pool) = (Returns (Inr reply), t)"
  by (rule sim_allocates [OF sim_servers(1)])
    (auto simp: sim_pool_def idle_ids_def queue_items_def sample_item_def sim_port0_conf)

subsection \<open>Requests\<close>

text \<open>
  C11. A successful \<open>AllocateIP\<close>: the pod gets a resource nobody was using, the database records
  exactly this resource for the pod, the reply is the configuration of this resource, nothing
  else in use or recorded changes, and the server stays in order.
\<close>

theorem allocate_ip_records:
  assumes "served_ok issued contents s"
    and "has_pod (srv_k8s s) (ar_K8SPodNamespace r) (ar_K8SPodName r) pod"
    and "AllocateIP ctx r s = (Returns (Inr reply), t)"
  shows "\<exists>port. port_of s (GetResourceId port) = None \<and>
     inuse (srv_portManager t) = gmap_put (inuse (srv_portManager s)) (GetResourceId port) port \<and>
     records t = gmap_put (records s) (pod_key pod)
       \<lparr>pr_Resources = [\<lparr>ri_Type = ResourceTypeMultipleIP, ri_ID = GetResourceId port\<rparr>],
        pr_PodInfo = Some (convertPod pod)\<rparr> \<and>
     NetConfFromPort port = Inr (ap_NetConfs reply) \<and> served_ok issued contents t"
proof -
  obtain port w m where "served_ok issued contents t"
    "records t = gmap_put (records s) (pod_key pod) (new_record (convertPod pod) port)"
    "inuse (srv_portManager t) = gmap_put (inuse (srv_portManager s)) (GetResourceId port) port"
    "port_of s (GetResourceId port) = None" "NetConfFromPort port = Inr (ap_NetConfs reply)"
    by (rule allocate_facts [OF assms(1,3,2)])
  then show ?thesis by (auto simp: new_record_def)
qed

theorem allocate_ip_records_witness:
  "\<exists>reply t port. AllocateIP sim_ctx (sim_alloc ''web'') (sim_server sim_pool) = (Returns (Inr reply), t) \<and>
     names (records t) ''ns/web'' (GetResourceId port) \<and> port_of t (GetResourceId port) = Some port"
proof -
  obtain reply t where r: "AllocateIP sim_ctx (sim_alloc ''web'') (sim_server sim_pool) = (Returns (Inr reply), t)"
    using sim_pool_allocates [of "''web''"] by auto
  show ?thesis
    using allocate_ip_records [OF sim_servers(1) _ r, of "sim_kpod ''web''"] r
    by (auto simp: names_def record_of_def)
qed

text \<open>
  C40. Allocating twice for the same pod without releasing in between: the second resource
  differs from the first, the record is overwritten, and the first resource stays in use
  although no record names it any more, so that no release request can ever free it.
\<close>

theorem second_allocation_leaks:
  assumes "served_ok issued contents s"
    and "has_pod (srv_k8s s) (ar_K8SPodNamespace r) (ar_K8SPodName r) pod"
    and "port_of s rid = Some port" "\<forall>key. names (records s) key rid \<longrightarrow> key = pod_key pod"
    and "AllocateIP ctx r s = (Returns (Inr reply), t)"
  shows "port_of t rid = Some port \<and> (\<forall>key. \<not> names (records t) key rid) \<and>
     (\<exists>new. new \<noteq> rid \<and> names (records t) (pod_key pod) new)"
proof -
  obtain q w m where "records t = gmap_put (records s) (pod_key pod) (new_record (convertPod pod) q)"
    "inuse (srv_portManager t) = gmap_put (inuse (srv_portManager s)) (GetResourceId q) q"
    "port_of s (GetResourceId q) = None"
    by (rule allocate_facts [OF assms(1,5,2)])
  moreover from this(3) assms(3) have "GetResourceId q \<noteq> rid" by auto
  ultimately show ?thesis
    using assms(3,4) by (auto simp: names_def record_of_def new_record_def no_resources_def split: option.splits if_splits)
qed

theorem second_allocation_leaks_witness:
  "\<exists>reply t. AllocateIP sim_ctx (sim_alloc ''db'') (sim_server sim_pool) = (Returns (Inr reply), t) \<and>
     port_of t (sim_id 0) = Some sim_port0 \<and> (\<forall>key. \<not> names (records t) key (sim_id 0))"
proof -
  obtain reply t where r: "AllocateIP sim_ctx (sim_alloc ''db'') (sim_server sim_pool) = (Returns (Inr reply), t)"
    using sim_pool_allocates [of "''db''"] by auto
  have "\<forall>key. names (records (sim_server sim_pool)) key (sim_id 0) \<longrightarrow> key = pod_key (sim_kpod ''db'')"
    by (auto simp: names_def record_of_def gmap_get_def no_resources_def)
  then show ?thesis
    using second_allocation_leaks [OF sim_servers(1) _ _ _ r, of "sim_kpod ''db''" "sim_id 0" sim_port0] r
      sim_port0_use by auto
qed

lemma release_facts:
  assumes ok: "served_ok issued contents s"
    and pod: "has_pod (srv_k8s s) (rr_K8SPodNamespace r) (rr_K8SPodName r) pod"
    and run: "ReleaseIP ctx r s = (Returns (Inr reply), t)"
  shows "served_ok issued contents t" "srv_k8s t = srv_k8s s"
    "inuse_ids (srv_portManager s) = inuse_ids (srv_portManager t) +
       mset (map ri_ID (pr_Resources (record_of (records s) (pod_key pod))))"
    "idle_ids (srv_portManager t) = idle_ids (srv_portManager s) +
       mset (map ri_ID (pr_Resources (record_of (records s) (pod_key pod))))"
    "records t = (if pi_IpStickTime (convertPod pod) = 0 then gmap_delete (records s) (pod_key pod) else records s)"
proof -
  note ok' = ok [unfolded served_ok_def]
  obtain pod' w m d where a:
    "pods_Get (k8s_client (srv_k8s s)) (rr_K8SPodNamespace r) (rr_K8SPodName r)
       (pf_world (env (srv_portManager s))) = (Returns (Inr pod'), w)"
    "release_all \<lparr>rc_Context = ctx, rc_PodInfo = Some (convertPod pod'), rc_Pod = pod'\<rparr>
       (pr_Resources (record_of (ms_store (ds_memory (srv_resourceDB s))) (pod_key pod'))) (at_world w s) =
       (Returns None, (at_world w s)\<lparr>srv_portManager := m\<rparr>)"
    "if pi_IpStickTime (convertPod pod') = 0
     then st_Delete disk_storage (pod_key pod') (srv_resourceDB s) = (Returns None, d) else d = srv_resourceDB s"
    "t = s\<lparr>srv_portManager := m, srv_resourceDB := d\<rparr>"
    by (rule served.ReleaseIP_success [OF ok' run])
  have p: "pod' = pod" using pod a(1) unfolding has_pod_def by (metis Inr_inject outcome.inject(1) prod.inject)
  note w = at_world_ok [OF ok' a(1)]
  note rel = served.release_all_run [OF w a(2)]
  show "served_ok issued contents t"
    unfolding served_ok_def by (rule served.ReleaseIP_keeps [OF ok' run])
  show "srv_k8s t = srv_k8s s" by (simp add: a(4))
  show "inuse_ids (srv_portManager s) = inuse_ids (srv_portManager t) +
       mset (map ri_ID (pr_Resources (record_of (records s) (pod_key pod))))"
    "idle_ids (srv_portManager t) = idle_ids (srv_portManager s) +
       mset (map ri_ID (pr_Resources (record_of (records s) (pod_key pod))))"
    using rel p by (simp_all add: a(4) records_def)
  show "records t = (if pi_IpStickTime (convertPod pod) = 0 then gmap_delete (records s) (pod_key pod) else records s)"
    using a(3,4) p disk.delete_law [OF daemon_okD(3) [OF ok']] by (auto simp: records_def split: if_splits)
qed

text \<open>
  C12. A successful \<open>ReleaseIP\<close>: every resource of the pod's record has left use and is idle, no
  other resource has moved, and the record is deleted unless the pod keeps its address, when it
  stays as it was.
\<close>

theorem release_ip_frees:
  assumes "served_ok issued contents s"
    and "has_pod (srv_k8s s) (rr_K8SPodNamespace r) (rr_K8SPodName r) pod"
    and "ReleaseIP ctx r s = (Returns (Inr reply), t)"
  shows "inuse_ids (srv_portManager s) = inuse_ids (srv_portManager t) +
       mset (map ri_ID (pr_Resources (record_of (records s) (pod_key pod)))) \<and>
     idle_ids (srv_portManager t) = idle_ids (srv_portManager s) +
       mset (map ri_ID (pr_Resources (record_of (records s) (pod_key pod)))) \<and>
     (\<forall>key. gmap_get (records t) key =
       (if key = pod_key pod \<and> pi_IpStickTime (convertPod pod) = 0 then None else gmap_get (records s) key)) \<and>
     served_ok issued contents t"
  using release_facts [OF assms] by auto

lemma sim_unlocked [simp]: "\<not> locked sim_pool" "\<not> locked sim_busy"
  by (simp_all add: sim_busy_def sim_pool_def)

lemma sim_record [simp]:
  "record_of [(''ns/db'', new_record (convertPod (sim_kpod ''db'')) sim_port0)] ''ns/db'' = new_record (convertPod (sim_kpod ''db'')) sim_port0"
  by (simp add: record_of_def gmap_get_def)

lemma NetConf_port0: "\<exists>conf. NetConfFromPort sim_port0 = Inr conf"
  by (simp add: sim_port0_def sim_port0_conf)

subsection \<open>Pods that keep their address\<close>

lemma pool_same_simps [simp]:
  "inuse (s\<lparr>env := e\<rparr>) = inuse s" "queue_items (idle (s\<lparr>env := e\<rparr>)) = queue_items (idle s)"
  by simp_all

text \<open>Releasing for a pod that keeps its address: the record stays and the resource is idle.\<close>

lemma release_sticky:
  assumes ok: "served_ok issued contents s" and free: "\<not> locked (srv_portManager s)"
    and pod: "has_pod (srv_k8s s) (rr_K8SPodNamespace r) (rr_K8SPodName r) pod"
    and stick: "pi_IpStickTime (convertPod pod) \<noteq> 0" and ctx: "ctx_Err ctx = None"
    and rec: "record_of (records s) (pod_key pod) = new_record info p0"
    and use: "port_of s (GetResourceId p0) = Some port"
  obtains reply u where "ReleaseIP ctx r s = (Returns (Inr reply), u)" "served_ok issued contents u"
    "srv_resourceDB u = srv_resourceDB s" "srv_k8s u = srv_k8s s" "srv_ParseIP u = srv_ParseIP s"
    "\<not> locked (srv_portManager u)" "port \<in> item_res ` set (queue_items (idle (srv_portManager u)))"
    "idle_ids (srv_portManager u) = add_mset (GetResourceId p0) (idle_ids (srv_portManager s))"
    "inuse (srv_portManager u) = gmap_delete (inuse (srv_portManager s)) (GetResourceId p0)"
proof -
  note ok' = ok [unfolded served_ok_def]
  obtain w where g: "pods_Get (k8s_client (srv_k8s s)) (rr_K8SPodNamespace r) (rr_K8SPodName r)
      (pf_world (env (srv_portManager s))) = (Returns (Inr pod), w)"
    using pod unfolding has_pod_def by blast
  note okw = at_world_ok [OF ok' g]
  let ?ctx = "\<lparr>rc_Context = ctx, rc_PodInfo = Some (convertPod pod), rc_Pod = pod\<rparr>"
  let ?rid = "GetResourceId p0"
  obtain o1 m where m: "Manager_Release (Some ?ctx) ?rid (srv_portManager (at_world w s)) = (o1, m)" by fastforce
  note mr = Manager_Release_safe [OF daemon_okD(1) [OF okw] m]
  have o1: "o1 = Returns None" using mr free use by (cases "o1 = Returns None") auto
  have m': "\<not> locked m" "port \<in> item_res ` set (queue_items (idle m))"
    "inuse m = gmap_delete (inuse (srv_portManager s)) ?rid"
    "idle_ids m = add_mset ?rid (idle_ids (srv_portManager s))"
    using mr o1 use free by auto
  let ?u = "(at_world w s)\<lparr>srv_portManager := m\<rparr>"
  have items: "pr_Resources (record_of (records s) (pod_key pod)) = [\<lparr>ri_Type = ResourceTypeMultipleIP, ri_ID = ?rid\<rparr>]"
    by (simp add: rec new_record_def)
  have rel: "release_all ?ctx (pr_Resources (record_of (ms_store (ds_memory (srv_resourceDB s))) (pod_key pod)))
      (at_world w s) = (Returns None, ?u)"
    using items m o1 by (simp add: records_def srv_manager_run)
  note run = served.ReleaseIP_run [OF ok' g rel]
  have r: "\<exists>reply. ReleaseIP ctx r s = (Returns (Inr reply), ?u)"
    using run stick ctx by (simp add: at_world_def)
  then obtain reply where reply: "ReleaseIP ctx r s = (Returns (Inr reply), ?u)" by blast
  show ?thesis
    by (rule that [OF reply]) (use m' release_facts(1) [OF ok pod reply] in simp_all)
qed

lemma sim_releases:
  "locked p = False \<Longrightarrow> manager_safe sim_issued p \<Longrightarrow> gmap_get (inuse p) (sim_id 0) = Some sim_port0 \<Longrightarrow>
   \<exists>reply u. ReleaseIP sim_ctx (sim_release ''db'') (sim_server p) = (Returns (Inr reply), u) \<and>
     served_ok sim_issued sim_contents u \<and> srv_resourceDB u = sim_store \<and> srv_k8s u = sim_k8s \<and>
     \<not> locked (srv_portManager u) \<and> sim_port0 \<in> item_res ` set (queue_items (idle (srv_portManager u))) \<and>
     idle_ids (srv_portManager u) = add_mset (sim_id 0) (idle_ids p)"
  using release_sticky [OF sim_server_ok, of p "sim_release ''db''" "sim_kpod ''db''" sim_ctx
      "convertPod (sim_kpod ''db'')" sim_port0 sim_port0]
  by (metis sim_has_pod sim_sticks sim_requests(2,3) sim_pod_key append_Cons append_Nil sim_record sim_server_simps sim_port0_use(3))

theorem release_ip_frees_witness:
  "\<exists>reply t. ReleaseIP sim_ctx (sim_release ''db'') (sim_server sim_pool) = (Returns (Inr reply), t) \<and>
     inuse_ids (srv_portManager t) = {#} \<and> idle_ids (srv_portManager t) = {#sim_id 0, sim_id 1, sim_id 2#}"
proof -
  have safe: "manager_safe sim_issued sim_pool" by (rule served_okD [OF sim_servers(1), simplified])
  obtain reply t where r: "ReleaseIP sim_ctx (sim_release ''db'') (sim_server sim_pool) = (Returns (Inr reply), t)"
    using sim_releases [of sim_pool] safe sim_port0_use(1,3) by auto
  have pod: "has_pod (srv_k8s (sim_server sim_pool)) (rr_K8SPodNamespace (sim_release ''db''))
      (rr_K8SPodName (sim_release ''db'')) (sim_kpod ''db'')" by simp
  note f = release_ip_frees [OF sim_servers(1) pod r]
  have "map ri_ID (pr_Resources (record_of (records (sim_server sim_pool)) (pod_key (sim_kpod ''db'')))) = [sim_id 0]"
    by (simp add: new_record_def record_of_def gmap_get_def)
  with f have "{#sim_id 0#} = inuse_ids (srv_portManager t) + {#sim_id 0#}"
    "idle_ids (srv_portManager t) = {#sim_id 1, sim_id 2#} + {#sim_id 0#}" by auto
  with r show ?thesis by (auto simp: add_mset_commute)
qed

text \<open>
  A server in order in which \<open>port\<close> is idle and the record of the pod names it and nothing else:
  what a pod that keeps its address finds when it comes back, if nobody has got the port since.
\<close>

definition awaits :: "('w \<Rightarrow> string set) \<Rightarrow> ('b \<Rightarrow> string \<Rightarrow> string \<Rightarrow> string option) \<Rightarrow> KubePod \<Rightarrow> NetworkResource \<Rightarrow>
    ('w, ('b, PodResources) DiskStorage) daemonServer \<Rightarrow> bool" where
  "awaits issued contents pod port s \<longleftrightarrow>
     served_ok issued contents s \<and> \<not> locked (srv_portManager s) \<and>
     port \<in> item_res ` set (queue_items (idle (srv_portManager s))) \<and>
     old_resource_id (record_of (records s) (pod_key pod)) = GetResourceId port"

lemma awaited_port_allocated:
  assumes v: "awaits issued contents pod port v"
    and pod: "has_pod (srv_k8s v) (ar_K8SPodNamespace a) (ar_K8SPodName a) pod" "ctx_Err ctx = None"
    and plain: "annotation pod IpAddressAnnotation = ''''" "annotation pod IpPoolAnnotation = ''''"
    and conf: "NetConfFromPort port = Inr conf"
    and put: "Disk_Put (pod_key pod) (new_record (convertPod pod) port) (srv_resourceDB v) = (Returns None, d)"
  shows "\<exists>reply t. AllocateIP ctx a v = (Returns (Inr reply), t) \<and>
    port_of t (GetResourceId port) = Some port \<and> ap_NetConfs reply = conf"
proof -
  have ok: "served_ok issued contents v" and free: "\<not> locked (srv_portManager v)"
    and rec: "old_resource_id (record_of (records v) (pod_key pod)) = GetResourceId port"
    using v by (simp_all add: awaits_def)
  obtain i where i: "i \<in> set (queue_items (idle (srv_portManager v)))" "item_res i = port"
    using v unfolding awaits_def by blast
  note ok' = ok [unfolded served_ok_def]
  obtain w where g: "pods_Get (k8s_client (srv_k8s v)) (ar_K8SPodNamespace a) (ar_K8SPodName a)
      (pf_world (env (srv_portManager v))) = (Returns (Inr pod), w)"
    using pod(1) unfolding has_pod_def by auto
  note okw = at_world_ok [OF ok' g]
  have ii: "item_id i = GetResourceId port" using i(2) by (simp add: item_id_def)
  obtain m where m: "Acquire ctx (item_id i) (srv_portManager (at_world w v)) = (Returns (Inr (item_res i)), m)"
    by (rule Acquire_certain [OF daemon_okD(1) [OF okw] _, of i]) (use i(1) free in auto)
  have "Manager_Allocate (srv_ParseIP v) \<lparr>rc_Context = ctx, rc_PodInfo = Some (convertPod pod), rc_Pod = pod\<rparr>
      (old_resource_id (record_of (ms_store (ds_memory (srv_resourceDB v))) (pod_key pod)))
      (srv_portManager (at_world w v)) = (Returns (Inr port), m)"
    using m ii i(2) plain rec by (simp add: Manager_Allocate_def requireStaticIP_def records_def)
  moreover have "st_Put disk_storage (pod_key pod) (new_record (convertPod pod) port) (srv_resourceDB v) = (Returns None, d)"
    using put by (simp add: disk_storage_def)
  ultimately have "AllocateIP ctx a v = (Returns (Inr \<lparr>ap_Success = True, ap_IPType = TypeENIMultiIP, ap_IPv4 = True,
      ap_IPv6 = False, ap_NetConfs = conf, ap_EnableTrunking = False\<rparr>), v\<lparr>srv_portManager := m, srv_resourceDB := d\<rparr>)"
    by (rule served.AllocateIP_succeeds [OF ok' g _ _ conf pod(2)])
  moreover have "gmap_get (inuse m) (GetResourceId port) = Some port"
    using manager_Acquire_safe(3) [OF daemon_okD(1) [OF okw] m] ii i(2) by simp
  ultimately show ?thesis by simp
qed

text \<open>
  C13. The round trip of a pod that keeps its address and asks for no address or address pool of
  its own. Its release makes its port idle and leaves the record, which names the port, as it was.
  Afterwards, on every server in order on which the port is still idle and the record still names
  it, in particular directly after the release, an allocation for the pod gives it the same port
  with the same configuration, if the request's context is alive and the database accepts the write.
\<close>

theorem sticky_pod_returns:
  assumes "served_ok issued contents s" "\<not> locked (srv_portManager s)"
    and "has_pod (srv_k8s s) (rr_K8SPodNamespace r) (rr_K8SPodName r) pod"
    and "pi_IpStickTime (convertPod pod) \<noteq> 0" "ctx_Err ctx = None"
    and "annotation pod IpAddressAnnotation = ''''" "annotation pod IpPoolAnnotation = ''''"
    and "record_of (records s) (pod_key pod) = new_record info p0"
    and "port_of s (GetResourceId p0) = Some port" "NetConfFromPort port = Inr conf"
  shows "\<exists>released u. ReleaseIP ctx r s = (Returns (Inr released), u) \<and>
     port_of u (GetResourceId port) = None \<and> srv_resourceDB u = srv_resourceDB s \<and> srv_k8s u = srv_k8s s \<and>
     awaits issued contents pod port u \<and>
     (\<forall>v a ctx' d. awaits issued contents pod port v \<and>
        has_pod (srv_k8s v) (ar_K8SPodNamespace a) (ar_K8SPodName a) pod \<and> ctx_Err ctx' = None \<and>
        Disk_Put (pod_key pod) (new_record (convertPod pod) port) (srv_resourceDB v) = (Returns None, d) \<longrightarrow>
        (\<exists>reply t. AllocateIP ctx' a v = (Returns (Inr reply), t) \<and>
           port_of t (GetResourceId port) = Some port \<and> ap_NetConfs reply = conf))"
proof -
  obtain released u where u: "ReleaseIP ctx r s = (Returns (Inr released), u)" "served_ok issued contents u"
    "srv_resourceDB u = srv_resourceDB s" "srv_k8s u = srv_k8s s" "srv_ParseIP u = srv_ParseIP s"
    "\<not> locked (srv_portManager u)" "port \<in> item_res ` set (queue_items (idle (srv_portManager u)))"
    "idle_ids (srv_portManager u) = add_mset (GetResourceId p0) (idle_ids (srv_portManager s))"
    "inuse (srv_portManager u) = gmap_delete (inuse (srv_portManager s)) (GetResourceId p0)"
    by (rule release_sticky [OF assms(1-5,8,9)])
  have rid: "GetResourceId port = GetResourceId p0"
    using pool_wfD(3) [OF manager_safeD(1) [OF served_okD [OF assms(1)]] assms(9)] .
  have "records u = records s" using u(3) by (simp add: records_def)
  then have "awaits issued contents pod port u"
    using u(2,6,7) rid assms(8) by (simp add: awaits_def)
  moreover have "port_of u (GetResourceId port) = None" using u(9) rid by simp
  ultimately show ?thesis
    using u(1,3,4) awaited_port_allocated [OF _ _ _ assms(6,7,10)] by blast
qed

theorem sticky_pod_returns_witness:
  "\<exists>released u reply t. ReleaseIP sim_ctx (sim_release ''db'') (sim_server sim_pool) = (Returns (Inr released), u) \<and>
     port_of u (sim_id 0) = None \<and> AllocateIP sim_ctx (sim_alloc ''db'') u = (Returns (Inr reply), t) \<and>
     port_of t (sim_id 0) = Some sim_port0"
proof -
  obtain conf where conf: "NetConfFromPort sim_port0 = Inr conf" using NetConf_port0 by blast
  obtain d where d: "Disk_Put ''ns/db'' (new_record (convertPod (sim_kpod ''db'')) sim_port0) sim_store = (Returns None, d)"
    using sim_store_put [of "''db''" "''ns/db''" sim_port0] by auto
  obtain released u where u: "ReleaseIP sim_ctx (sim_release ''db'') (sim_server sim_pool) = (Returns (Inr released), u)"
    "port_of u (sim_id 0) = None" "srv_resourceDB u = sim_store" "srv_k8s u = sim_k8s"
    "awaits sim_issued sim_contents (sim_kpod ''db'') sim_port0 u"
    and later: "\<forall>v a ctx'. awaits sim_issued sim_contents (sim_kpod ''db'') sim_port0 v \<and>
        has_pod (srv_k8s v) (ar_K8SPodNamespace a) (ar_K8SPodName a) (sim_kpod ''db'') \<and> ctx_Err ctx' = None \<and>
        (\<exists>d. Disk_Put ''ns/db'' (new_record (convertPod (sim_kpod ''db'')) sim_port0) (srv_resourceDB v) = (Returns None, d)) \<longrightarrow>
        (\<exists>reply t. AllocateIP ctx' a v = (Returns (Inr reply), t) \<and> port_of t (sim_id 0) = Some sim_port0 \<and>
           ap_NetConfs reply = conf)"
    using sticky_pod_returns [OF sim_servers(1), of "sim_release ''db''" "sim_kpod ''db''" sim_ctx
        "convertPod (sim_kpod ''db'')" sim_port0 sim_port0 conf] conf sim_port0_use(1,3) by auto
  have "\<exists>reply t. AllocateIP sim_ctx (sim_alloc ''db'') u = (Returns (Inr reply), t) \<and> port_of t (sim_id 0) = Some sim_port0"
    using spec [OF spec [OF spec [OF later, of u], of "sim_alloc ''db''"], of sim_ctx] u(3-5) d by auto
  with u(1,2) show ?thesis by blast
qed

text \<open>
  The release request of a pod that keeps its address is not idempotent: repeated, it fails
  with \<open>ErrInvalidState\<close>, because the record still names the resource that is idle by then.
\<close>

theorem release_again_fails:
  assumes "served_ok issued contents s" "\<not> locked (srv_portManager s)"
    and "has_pod (srv_k8s s) (rr_K8SPodNamespace r) (rr_K8SPodName r) pod"
    and "pi_IpStickTime (convertPod pod) \<noteq> 0" "ctx_Err ctx = None"
    and "record_of (records s) (pod_key pod) = new_record info p0"
    and "port_of s (GetResourceId p0) = Some port"
  shows "\<exists>reply u v. ReleaseIP ctx r s = (Returns (Inr reply), u) \<and>
     ReleaseIP ctx' r u = (Returns (Inl ErrInvalidState), v)"
proof -
  obtain reply u where u: "ReleaseIP ctx r s = (Returns (Inr reply), u)" "served_ok issued contents u"
    "srv_resourceDB u = srv_resourceDB s" "srv_k8s u = srv_k8s s"
    "\<not> locked (srv_portManager u)"
    "inuse (srv_portManager u) = gmap_delete (inuse (srv_portManager s)) (GetResourceId p0)"
    by (rule release_sticky [OF assms])
  note ok' = u(2) [unfolded served_ok_def]
  obtain w where g: "pods_Get (k8s_client (srv_k8s u)) (rr_K8SPodNamespace r) (rr_K8SPodName r)
      (pf_world (env (srv_portManager u))) = (Returns (Inr pod), w)"
    using assms(3) u(4) unfolding has_pod_def by auto
  let ?ctx = "\<lparr>rc_Context = ctx', rc_PodInfo = Some (convertPod pod), rc_Pod = pod\<rparr>"
  obtain o1 m where m: "Manager_Release (Some ?ctx) (GetResourceId p0) (srv_portManager (at_world w u)) = (o1, m)"
    by fastforce
  have "o1 = Returns (Some ErrInvalidState)"
    using Manager_Release_safe [OF daemon_okD(1) [OF at_world_ok [OF ok' g]] m] u(5,6) by (auto split: if_splits)
  then have rel: "release_all ?ctx (pr_Resources (record_of (ms_store (ds_memory (srv_resourceDB u))) (pod_key pod)))
      (at_world w u) = (Returns (Some ErrInvalidState), (at_world w u)\<lparr>srv_portManager := m\<rparr>)"
    using m assms(6) u(3) by (simp add: records_def srv_manager_run new_record_def)
  show ?thesis using served.ReleaseIP_run [OF ok' g rel] u(1) by auto
qed

theorem release_again_fails_witness:
  "\<exists>reply u v. ReleaseIP sim_ctx (sim_release ''db'') (sim_server sim_pool) = (Returns (Inr reply), u) \<and>
     ReleaseIP sim_ctx (sim_release ''db'') u = (Returns (Inl ErrInvalidState), v)"
  using release_again_fails [OF sim_servers(1), of "sim_release ''db''" "sim_kpod ''db''" sim_ctx
      "convertPod (sim_kpod ''db'')" sim_port0 sim_port0 sim_ctx] sim_port0_use(1,3) by auto

text \<open>
  C29. A stale record takes another pod's address away. A pod that keeps its address releases it
  while nothing else is idle; a second pod without a record is then given the resource. When the
  release request of the first pod is repeated, it succeeds: the resource is idle and free for a
  third pod, while the record of the second pod, which still runs with it, names it.
\<close>

theorem stale_record_frees_other_pod:
  assumes "served_ok issued contents s" "\<not> locked (srv_portManager s)"
    and "idle_ids (srv_portManager s) = {#}"
    and "has_pod (srv_k8s s) (rr_K8SPodNamespace r) (rr_K8SPodName r) pod"
    and "has_pod (srv_k8s s) (ar_K8SPodNamespace a) (ar_K8SPodName a) other" "pod_key other \<noteq> pod_key pod"
    and "pi_IpStickTime (convertPod pod) \<noteq> 0" "ctx_Err ctx = None"
    and "annotation other IpAddressAnnotation = ''''" "annotation other IpPoolAnnotation = ''''"
    and "record_of (records s) (pod_key pod) = new_record info p0"
    and "port_of s (GetResourceId p0) = Some port"
    and "ReleaseIP ctx r s = (Returns (Inr rel), u)" "AllocateIP ctx' a u = (Returns (Inr reply), v)"
  shows "port_of v (GetResourceId p0) = Some port \<and> NetConfFromPort port = Inr (ap_NetConfs reply) \<and>
     (\<exists>rel2 t. ReleaseIP ctx r v = (Returns (Inr rel2), t) \<and> GetResourceId p0 \<in># idle_ids (srv_portManager t) \<and>
        names (records t) (pod_key other) (GetResourceId p0))"
proof -
  let ?rid = "GetResourceId p0"
  obtain rel' u' where "ReleaseIP ctx r s = (Returns (Inr rel'), u')" and u': "served_ok issued contents u'"
    "srv_resourceDB u' = srv_resourceDB s" "srv_k8s u' = srv_k8s s" "srv_ParseIP u' = srv_ParseIP s"
    "\<not> locked (srv_portManager u')" "port \<in> item_res ` set (queue_items (idle (srv_portManager u')))"
    "idle_ids (srv_portManager u') = add_mset ?rid (idle_ids (srv_portManager s))"
    by (rule release_sticky [OF assms(1,2,4,7,8,11,12)])
  then have "u' = u" using assms(13) by simp
  note u = u' [unfolded this]
  have podu: "has_pod (srv_k8s u) (ar_K8SPodNamespace a) (ar_K8SPodName a) other" using assms(5) u(3) by simp
  obtain q w m where v: "served_ok issued contents v" "srv_k8s v = srv_k8s u"
    "records v = gmap_put (records u) (pod_key other) (new_record (convertPod other) q)"
    "inuse (srv_portManager v) = gmap_put (inuse (srv_portManager u)) (GetResourceId q) q"
    "locked (srv_portManager v) = locked (srv_portManager u)"
    "NetConfFromPort q = Inr (ap_NetConfs reply)"
    "Manager_Allocate (srv_ParseIP u) \<lparr>rc_Context = ctx', rc_PodInfo = Some (convertPod other), rc_Pod = other\<rparr>
       (old_resource_id (record_of (records u) (pod_key other))) (srv_portManager (at_world w u)) = (Returns (Inr q), m)"
    by (rule allocate_facts [OF u(1) assms(14) podu])
  have acq: "Acquire ctx' (old_resource_id (record_of (records u) (pod_key other))) (srv_portManager (at_world w u)) =
      (Returns (Inr q), m)"
    using v(7) assms(9,10) by (simp add: Manager_Allocate_def requireStaticIP_def)
  have mw: "manager_safe issued (srv_portManager u)" by (rule served_okD [OF u(1)])
  have wf: "pool_wf (srv_portManager (at_world w u))"
    using manager_safeD(1) [OF mw] by (simp add: at_world_def)
  have "idle_ids (srv_portManager (at_world w u)) = {#?rid#}" using u(7) assms(3) by simp
  then have one: "image_mset item_id (mset (queue_items (idle (srv_portManager u)))) = {#?rid#}"
    by (simp add: idle_ids_def)
  obtain item q' where "Acquire ctx' (old_resource_id (record_of (records u) (pod_key other)))
      (srv_portManager (at_world w u)) = (Returns (Inr (item_res item)), q')"
    "item \<in> set (queue_items (idle (srv_portManager (at_world w u))))"
    by (rule Acquire_idle_run [OF _ wf, of ctx' "old_resource_id (record_of (records u) (pod_key other))"])
      (use u(5) u(7) in auto)
  then have item: "q = item_res item" "item \<in> set (queue_items (idle (srv_portManager u)))" using acq by auto
  have "length (queue_items (idle (srv_portManager u))) = 1" using arg_cong [OF one, of size] by simp
  then obtain j where j: "queue_items (idle (srv_portManager u)) = [j]"
    by (cases "queue_items (idle (srv_portManager u))") auto
  have q: "q = port" using item u(6) j by auto
  have rid: "GetResourceId port = ?rid"
    using pool_wfD(3) [OF manager_safeD(1) [OF served_okD [OF assms(1)]] assms(12)] .
  have use: "port_of v ?rid = Some port" using v(4) q rid by simp
  have rec: "record_of (records v) (pod_key pod) = new_record info p0"
    using v(3) u(2) assms(6,11) by (simp add: record_of_def records_def)
  have podv: "has_pod (srv_k8s v) (rr_K8SPodNamespace r) (rr_K8SPodName r) pod" using assms(4) u(3) v(2) by simp
  obtain rel2 t where t: "ReleaseIP ctx r v = (Returns (Inr rel2), t)" "srv_resourceDB t = srv_resourceDB v"
    "idle_ids (srv_portManager t) = add_mset ?rid (idle_ids (srv_portManager v))"
    by (rule release_sticky [OF v(1) _ podv assms(7,8) rec use]) (use v(5) u(5) in simp)
  have "names (records t) (pod_key other) ?rid"
    using t(2) v(3) q rid by (simp add: names_def record_of_def records_def new_record_def)
  then show ?thesis using use v(6) q t by auto
qed

theorem stale_record_frees_other_pod_witness:
  "\<exists>rel u reply v rel2 t. ReleaseIP sim_ctx (sim_release ''db'') (sim_server sim_busy) = (Returns (Inr rel), u) \<and>
     AllocateIP sim_ctx (sim_alloc ''web'') u = (Returns (Inr reply), v) \<and> port_of v (sim_id 0) = Some sim_port0 \<and>
     ReleaseIP sim_ctx (sim_release ''db'') v = (Returns (Inr rel2), t) \<and>
     sim_id 0 \<in># idle_ids (srv_portManager t) \<and> names (records t) ''ns/web'' (sim_id 0)"
proof -
  have busy: "manager_safe sim_issued sim_busy" by (rule served_okD [OF sim_servers(2), simplified])
  have none: "idle_ids sim_busy = {#}" using NewPriorityQueue_wf(2) by (simp add: idle_ids_def sim_busy_def)
  obtain rel u where u: "ReleaseIP sim_ctx (sim_release ''db'') (sim_server sim_busy) = (Returns (Inr rel), u)"
    "served_ok sim_issued sim_contents u" "srv_resourceDB u = sim_store" "srv_k8s u = sim_k8s"
    "\<not> locked (srv_portManager u)" "sim_port0 \<in> item_res ` set (queue_items (idle (srv_portManager u)))"
    "idle_ids (srv_portManager u) = {#sim_id 0#}"
    using sim_releases [of sim_busy] busy sim_port0_use none by auto
  have "length (queue_items (idle (srv_portManager u))) = 1"
    using arg_cong [OF u(7), of size] by (simp add: idle_ids_def)
  then have "\<forall>i \<in> set (queue_items (idle (srv_portManager u))). item_res i = sim_port0"
    using u(6) by (cases "queue_items (idle (srv_portManager u))") auto
  then obtain reply v where v: "AllocateIP sim_ctx (sim_alloc ''web'') u = (Returns (Inr reply), v)"
    using sim_allocates [OF u(2,5) _ u(4,3), of "''web''"] u(7) NetConf_port0 by auto
  show ?thesis
    using stale_record_frees_other_pod [OF sim_servers(2), of "sim_release ''db''" "sim_kpod ''db''" "sim_alloc ''web''"
        "sim_kpod ''web''" sim_ctx "convertPod (sim_kpod ''db'')" sim_port0 sim_port0 rel u sim_ctx reply v]
      u(1) v none sim_port0_use(2,3) by auto
qed

end
