(* ===== verification/Daemon_Concurrency.thy ===== *)
theory Daemon_Concurrency
  imports Daemon_Laws Pool_Concurrency
begin

section \<open>Request handlers that interleave (pkg/daemon/daemon.go)\<close>

text \<open>
  gRPC runs every request in a goroutine of its own, and nothing in the daemon orders them: the
  handlers share the pool and the database, each with its own mutex, and the pool's background
  goroutine runs beside them. A handler is at a point of its method, and a step takes it to the
  next one. A request to the API server or to the port service, a transaction of the database, a
  critical section of the memory storage and every step of the pool's goroutines
  (\<open>Pool_Concurrency\<close>) is a step of its own, so that others can move in between.
\<close>

subsection \<open>The two halves of a write to the database\<close>

definition disk_write :: "string \<Rightarrow> 'v \<Rightarrow> (('b, 'v) DiskStorage, error option) go" where
  "disk_write key value =
     go_bind (go_get (\<lambda>d. ds_serializer d value)) (\<lambda>r.
     case r of
       Inl err \<Rightarrow> go_return (Some err)
     | Inr data \<Rightarrow> ds_tx (\<lambda>db name. bolt_Put db name key data))"

definition disk_erase :: "string \<Rightarrow> (('b, 'v) DiskStorage, error option) go" where
  "disk_erase key = ds_tx (\<lambda>db name. bolt_Delete db name key)"

text \<open>The methods of the storage are one half after the other.\<close>

lemma Disk_Put_halves: "Disk_Put key value = go_bind (disk_write key value) (\<lambda>err.
    case err of Some e \<Rightarrow> go_return (Some e) | None \<Rightarrow> ds_mem (Memory_Put key value))"
  by (rule ext) (simp add: Disk_Put_def disk_write_def split: sum.split)

lemma Disk_Delete_halves: "Disk_Delete key = go_bind (disk_erase key) (\<lambda>err.
    case err of Some e \<Rightarrow> go_return (Some e) | None \<Rightarrow> ds_mem (Memory_Delete key))"
  by (simp add: Disk_Delete_def disk_erase_def)

subsection \<open>Handlers\<close>

text \<open>
  The points of \<open>AllocateIP\<close>, with those of \<open>acquireStaticAddress\<close> and of the pool's \<open>Acquire\<close>
  in it, those of \<open>ReleaseIP\<close>, and the pool's background goroutine. \<open>Halted\<close> is a handler that
  will not move again: a call to the outside has not returned, or it has panicked.
\<close>

type_synonym ('w, 'b) server = "('w, ('b, PodResources) DiskStorage) daemonServer"

datatype handler =
    AllocEnter Context AllocateIPRequest
  | AllocRecord Context KubePod
  | AllocList Context KubePod
  | AllocSubnet Context KubePod "NPort list"
  | AllocIdle Context KubePod
  | AllocCreate Context KubePod
  | AllocAddIdle Context KubePod NetworkResource
  | AllocPool Context KubePod goroutine
  | AllocFile Context KubePod NetworkResource
  | AllocMemory Context KubePod NetworkResource
  | AllocDone "error + AllocateIPReply"
  | FreeEnter Context ReleaseIPRequest
  | FreeRecord Context KubePod
  | FreePorts Context KubePod "ResourceItem list"
  | FreeFile Context KubePod
  | FreeMemory Context KubePod
  | FreeDone "error + ReleaseIPReply"
  | Ticker goroutine
  | Halted handler

text \<open>A step of the daemon's own code does not happen while it blocks; a call to the outside may never return.\<close>

definition moves ::
    "('s, 'a) go \<Rightarrow> ('a \<Rightarrow> handler) \<Rightarrow> handler \<Rightarrow> 's \<Rightarrow> (handler \<times> 's) option" where
  "moves m next h s =
     (case m s of
        (Returns a, t) \<Rightarrow> Some (next a, t)
      | (Halts Blocked, t) \<Rightarrow> None
      | (Halts _, t) \<Rightarrow> Some (Halted h, t))"

definition calls ::
    "('s, 'a) go \<Rightarrow> ('a \<Rightarrow> handler) \<Rightarrow> handler \<Rightarrow> 's \<Rightarrow> (handler \<times> 's) option" where
  "calls m next h s =
     (case m s of (Returns a, t) \<Rightarrow> Some (next a, t) | (Halts _, t) \<Rightarrow> Some (Halted h, t))"

definition srv_disk :: "(('b, PodResources) DiskStorage, 'a) go \<Rightarrow> (('w, 'b) server, 'a) go" where
  "srv_disk m = go_zoom srv_resourceDB (\<lambda>d s. s\<lparr>srv_resourceDB := d\<rparr>) m"

definition pod_context :: "Context \<Rightarrow> KubePod \<Rightarrow> ResourceContext" where
  "pod_context ctx pod = \<lparr>rc_Context = ctx, rc_PodInfo = Some (convertPod pod), rc_Pod = pod\<rparr>"

definition static_ip :: "KubePod \<Rightarrow> string" where
  "static_ip pod = annotation pod IpAddressAnnotation"

definition alloc_error :: "error \<Rightarrow> handler" where
  "alloc_error err = AllocDone (Inl (Errorf ''error get allocated port'' (Some err)))"

text \<open>Where \<open>Allocate\<close> of the manager goes, once the old record is known.\<close>

definition start_allocate :: "(string \<Rightarrow> bool) \<Rightarrow> Context \<Rightarrow> KubePod \<Rightarrow> PodResources \<Rightarrow> handler" where
  "start_allocate ParseIP_ok ctx pod oldRes =
     (if \<not> requireStaticIP (pod_context ctx pod)
      then AllocPool ctx pod (AcquireEnter ctx (old_resource_id oldRes))
      else if static_ip pod = '''' then alloc_error (Errorf ''IP address is not valid'' None)
      else if \<not> ParseIP_ok (static_ip pod)
      then alloc_error (Errorf ''failed to parse ip with annotation'' None)
      else AllocList ctx pod)"

definition after_subnet :: "Context \<Rightarrow> KubePod \<Rightarrow> NPort list \<Rightarrow> Subnet \<Rightarrow> handler" where
  "after_subnet ctx pod ports subnet =
     (case occupied_by subnet (static_ip pod) ports of
        Halts h \<Rightarrow> Halted (AllocSubnet ctx pod ports)
      | Returns True \<Rightarrow> AllocIdle ctx pod
      | Returns False \<Rightarrow> AllocCreate ctx pod)"

definition after_pool :: "Context \<Rightarrow> KubePod \<Rightarrow> goroutine \<Rightarrow> handler" where
  "after_pool ctx pod g =
     (case g of
        AcquireDone (Inl err) \<Rightarrow> alloc_error err
      | AcquireDone (Inr port) \<Rightarrow> AllocFile ctx pod port
      | _ \<Rightarrow> AllocPool ctx pod g)"

definition alloc_reply :: "Context \<Rightarrow> NetworkResource \<Rightarrow> error + AllocateIPReply" where
  "alloc_reply ctx port =
     (case NetConfFromPort port of
        Inl err \<Rightarrow> Inl err
      | Inr conf \<Rightarrow>
          (case ctx_Err ctx of
             Some err \<Rightarrow> Inl (Errorf ''error on grpc connection'' (Some err))
           | None \<Rightarrow> Inr \<lparr>ap_Success = True, ap_IPType = TypeENIMultiIP, ap_IPv4 = True,
               ap_IPv6 = False, ap_NetConfs = conf, ap_EnableTrunking = False\<rparr>))"

definition free_reply :: "Context \<Rightarrow> error + ReleaseIPReply" where
  "free_reply ctx =
     (case ctx_Err ctx of
        Some err \<Rightarrow> Inl (Errorf ''error on grpc connection'' (Some err))
      | None \<Rightarrow> Inr \<lparr>rl_Success = True, rl_IPv4Addr = None, rl_DeviceNumber = 0, rl_IPv4 = False,
          rl_IPv6 = False\<rparr>)"

definition free_ports :: "Context \<Rightarrow> KubePod \<Rightarrow> ResourceItem list \<Rightarrow> handler" where
  "free_ports ctx pod items =
     (if items \<noteq> [] then FreePorts ctx pod items
      else if pi_IpStickTime (convertPod pod) = 0 then FreeFile ctx pod
      else FreeDone (free_reply ctx))"

fun hstep :: "handler \<Rightarrow> ('w, 'b) server \<Rightarrow> (handler \<times> ('w, 'b) server) option" where
  "hstep (AllocEnter ctx r) =
     calls (srv_kube (\<lambda>k. GetPod k (ar_K8SPodNamespace r) (ar_K8SPodName r))) (\<lambda>got. case got of
       Inl err \<Rightarrow> AllocDone (Inl (Errorf ''error get pod info'' (Some err)))
     | Inr (podInfo, pod) \<Rightarrow> AllocRecord ctx pod) (AllocEnter ctx r)"
| "hstep (AllocRecord ctx pod) = (\<lambda>s.
     moves (getPodResource (pod_key pod)) (\<lambda>old. case old of
       Inl err \<Rightarrow> AllocDone (Inl (Errorf ''failed to get pod resources from db'' (Some err)))
     | Inr oldRes \<Rightarrow> start_allocate (srv_ParseIP s) ctx pod oldRes) (AllocRecord ctx pod) s)"
| "hstep (AllocList ctx pod) =
     calls (srv_manager (\<lambda>p. pool_call (\<lambda>c. ListPortWithFilter c
       \<lparr>lf_NetworkID = pf_netID (env p), lf_DeviceOwner = DeviceOwner, lf_DeviceID = '''',
        lf_Tags = ''''\<rparr>) p)) (\<lambda>(ports, err). case err of
       Some e \<Rightarrow> alloc_error (Errorf ''failed to list ports allocated by rubble'' (Some e))
     | None \<Rightarrow> AllocSubnet ctx pod ports) (AllocList ctx pod)"
| "hstep (AllocSubnet ctx pod ports) =
     calls (srv_manager (\<lambda>p. pool_call (\<lambda>c. GetSubnet c (pf_subnetID (env p))) p)) (\<lambda>got. case got of
       Inl e \<Rightarrow> alloc_error (Errorf ''failed to get subnet'' (Some e))
     | Inr subnet \<Rightarrow> after_subnet ctx pod ports subnet) (AllocSubnet ctx pod ports)"
| "hstep (AllocIdle ctx pod) =
     moves (srv_manager (\<lambda>p. go_deref (GetIdle p) p)) (\<lambda>items. case idle_with_ip (static_ip pod) items of
       Some res \<Rightarrow> AllocPool ctx pod (AcquireEnter ctx (GetResourceId res))
     | None \<Rightarrow> alloc_error (Errorf ''IP address is occupied by port but not in pool idle queue'' None))
     (AllocIdle ctx pod)"
| "hstep (AllocCreate ctx pod) =
     calls (srv_manager (pool_Create (static_ip pod))) (\<lambda>created. case created of
       Inl e \<Rightarrow> alloc_error (Errorf ''IP address is not valid'' None)
     | Inr res \<Rightarrow> AllocAddIdle ctx pod res) (AllocCreate ctx pod)"
| "hstep (AllocAddIdle ctx pod res) =
     moves (srv_manager (AddIdle res)) (\<lambda>_. AllocPool ctx pod (AcquireEnter ctx (GetResourceId res)))
     (AllocAddIdle ctx pod res)"
| "hstep (AllocPool ctx pod g) = (\<lambda>s.
     case gstep g (srv_portManager s) of
       None \<Rightarrow> None
     | Some (g', p) \<Rightarrow> Some (after_pool ctx pod g', s\<lparr>srv_portManager := p\<rparr>))"
| "hstep (AllocFile ctx pod port) =
     calls (srv_disk (disk_write (pod_key pod) (new_record (convertPod pod) port))) (\<lambda>err. case err of
       Some e \<Rightarrow> AllocDone (Inl (Errorf ''error put resource into store'' (Some e)))
     | None \<Rightarrow> AllocMemory ctx pod port) (AllocFile ctx pod port)"
| "hstep (AllocMemory ctx pod port) =
     moves (srv_disk (ds_mem (Memory_Put (pod_key pod) (new_record (convertPod pod) port)))) (\<lambda>err. case err of
       Some e \<Rightarrow> AllocDone (Inl (Errorf ''error put resource into store'' (Some e)))
     | None \<Rightarrow> AllocDone (alloc_reply ctx port)) (AllocMemory ctx pod port)"
| "hstep (FreeEnter ctx r) =
     calls (srv_kube (\<lambda>k. GetPod k (rr_K8SPodNamespace r) (rr_K8SPodName r))) (\<lambda>got. case got of
       Inl err \<Rightarrow> FreeDone (Inl (Errorf ''error get pod info'' (Some err)))
     | Inr (podInfo, pod) \<Rightarrow> FreeRecord ctx pod) (FreeEnter ctx r)"
| "hstep (FreeRecord ctx pod) =
     moves (getPodResource (pod_key pod)) (\<lambda>old. case old of
       Inl err \<Rightarrow> FreeDone (Inl (Errorf ''failed to get pod resources from db'' (Some err)))
     | Inr oldRes \<Rightarrow> free_ports ctx pod (pr_Resources oldRes)) (FreeRecord ctx pod)"
| "hstep (FreePorts ctx pod []) = (\<lambda>s. Some (free_ports ctx pod [], s))"
| "hstep (FreePorts ctx pod (res # rest)) =
     moves (srv_manager (Manager_Release (Some (pod_context ctx pod)) (ri_ID res))) (\<lambda>err. case err of
       Some e \<Rightarrow> FreeDone (Inl e)
     | None \<Rightarrow> free_ports ctx pod rest) (FreePorts ctx pod (res # rest))"
| "hstep (FreeFile ctx pod) =
     calls (srv_disk (disk_erase (pod_key pod))) (\<lambda>err. case err of
       Some e \<Rightarrow> FreeDone (Inl (Errorf ''failed to delete key'' (Some e)))
     | None \<Rightarrow> FreeMemory ctx pod) (FreeFile ctx pod)"
| "hstep (FreeMemory ctx pod) =
     moves (srv_disk (ds_mem (Memory_Delete (pod_key pod)))) (\<lambda>err. case err of
       Some e \<Rightarrow> FreeDone (Inl (Errorf ''failed to delete key'' (Some e)))
     | None \<Rightarrow> FreeDone (free_reply ctx)) (FreeMemory ctx pod)"
| "hstep (Ticker g) = (\<lambda>s.
     case gstep g (srv_portManager s) of
       None \<Rightarrow> None
     | Some (g', p) \<Rightarrow> Some (Ticker g', s\<lparr>srv_portManager := p\<rparr>))"
| "hstep (AllocDone r) = (\<lambda>s. None)"
| "hstep (FreeDone r) = (\<lambda>s. None)"
| "hstep (Halted h) = (\<lambda>s. None)"

text \<open>
  What can happen: a handler moves, a request arrives, or the context of a request ends, at
  whatever point its handler is.
\<close>

fun is_request :: "handler \<Rightarrow> bool" where
  "is_request (AllocEnter ctx r) = True"
| "is_request (FreeEnter ctx r) = True"
| "is_request _ = False"

definition ended :: "bool \<Rightarrow> error \<Rightarrow> Context \<Rightarrow> Context" where
  "ended b e ctx = ctx\<lparr>ctx_done := True, ctx_prefers_token := b, ctx_Err := Some e\<rparr>"

fun end_acquire :: "bool \<Rightarrow> error \<Rightarrow> goroutine \<Rightarrow> goroutine" where
  "end_acquire b e (AcquireEnter ctx rid) = AcquireEnter (ended b e ctx) rid"
| "end_acquire b e (AcquireSelect ctx) = AcquireSelect (ended b e ctx)"
| "end_acquire b e g = g"

fun end_context :: "bool \<Rightarrow> error \<Rightarrow> handler \<Rightarrow> handler" where
  "end_context b e (AllocEnter ctx r) = AllocEnter (ended b e ctx) r"
| "end_context b e (AllocRecord ctx pod) = AllocRecord (ended b e ctx) pod"
| "end_context b e (AllocList ctx pod) = AllocList (ended b e ctx) pod"
| "end_context b e (AllocSubnet ctx pod ports) = AllocSubnet (ended b e ctx) pod ports"
| "end_context b e (AllocIdle ctx pod) = AllocIdle (ended b e ctx) pod"
| "end_context b e (AllocCreate ctx pod) = AllocCreate (ended b e ctx) pod"
| "end_context b e (AllocAddIdle ctx pod res) = AllocAddIdle (ended b e ctx) pod res"
| "end_context b e (AllocPool ctx pod g) = AllocPool (ended b e ctx) pod (end_acquire b e g)"
| "end_context b e (AllocFile ctx pod port) = AllocFile (ended b e ctx) pod port"
| "end_context b e (AllocMemory ctx pod port) = AllocMemory (ended b e ctx) pod port"
| "end_context b e (FreeEnter ctx r) = FreeEnter (ended b e ctx) r"
| "end_context b e (FreeRecord ctx pod) = FreeRecord (ended b e ctx) pod"
| "end_context b e (FreePorts ctx pod items) = FreePorts (ended b e ctx) pod items"
| "end_context b e (FreeFile ctx pod) = FreeFile (ended b e ctx) pod"
| "end_context b e (FreeMemory ctx pod) = FreeMemory (ended b e ctx) pod"
| "end_context b e h = h"

type_synonym ('w, 'b) daemon = "('w, 'b) server \<times> handler list"

inductive daemon_step :: "('w, 'b) daemon \<Rightarrow> ('w, 'b) daemon \<Rightarrow> bool" where
  run: "i < length hs \<Longrightarrow> hstep (hs ! i) s = Some (h, t) \<Longrightarrow> daemon_step (s, hs) (t, hs[i := h])"
| request: "is_request h \<Longrightarrow> daemon_step (s, hs) (s, hs @ [h])"
| ends: "i < length hs \<Longrightarrow> daemon_step (s, hs) (s, hs[i := end_context b e (hs ! i)])"

inductive_cases daemon_stepE: "daemon_step (s, hs) (t, ks)"

lemma daemon_step_cases [consumes 1, case_names run request ends]:
  assumes "daemon_step (s, hs) (t, ks)"
  obtains i h where "ks = hs[i := h]" "i < length hs" "hstep (hs ! i) s = Some (h, t)"
  | h where "is_request h" "t = s" "ks = hs @ [h]"
  | i b e where "i < length hs" "t = s" "ks = hs[i := end_context b e (hs ! i)]"
  using assms by (rule daemon_stepE)


lemma moves_cases:
  assumes "moves m next h s = Some (h', t)"
  obtains a where "m s = (Returns a, t)" "h' = next a" | x where "m s = (Halts x, t)" "x \<noteq> Blocked" "h' = Halted h"
  using assms by (auto simp: moves_def split: prod.splits outcome.splits halt.splits)

lemma calls_cases:
  assumes "calls m next h s = Some (h', t)"
  obtains a where "m s = (Returns a, t)" "h' = next a" | x where "m s = (Halts x, t)" "h' = Halted h"
  using assms by (auto simp: calls_def split: prod.splits outcome.splits)

lemma srv_disk_run: "srv_disk m s = (case m (srv_resourceDB s) of (r, d) \<Rightarrow> (r, s\<lparr>srv_resourceDB := d\<rparr>))"
  by (simp add: srv_disk_def)

subsection \<open>What handlers hold\<close>

text \<open>
  The resources a handler has in its hands, outside the pool, and the tokens it still has to
  account for. Both come from the pool's goroutine it runs, and from a port created for a
  static address that is not in the idle queue yet.
\<close>

fun in_hand :: "handler \<Rightarrow> string multiset" where
  "in_hand (AllocAddIdle ctx pod res) = {#GetResourceId res#}"
| "in_hand (AllocPool ctx pod g) = carries g"
| "in_hand (Ticker g) = carries g"
| "in_hand (Halted h) = in_hand h"
| "in_hand _ = {#}"

fun due :: "handler \<Rightarrow> nat" where
  "due (AllocPool ctx pod g) = owes g"
| "due (Ticker g) = owes g"
| "due (Halted h) = due h"
| "due _ = 0"

definition hands :: "handler list \<Rightarrow> string multiset" where
  "hands hs = sum_list (map in_hand hs)"

definition dues :: "handler list \<Rightarrow> nat" where
  "dues hs = sum_list (map due hs)"

lemma handlers_at:
  assumes "i < length hs"
  obtains n C where "\<forall>h. dues (hs[i := h]) = due h + n" "\<forall>h. hands (hs[i := h]) = in_hand h + C"
    "dues hs = due (hs ! i) + n" "hands hs = in_hand (hs ! i) + C"
proof -
  let ?n = "dues (take i hs) + dues (drop (Suc i) hs)" and ?C = "hands (take i hs) + hands (drop (Suc i) hs)"
  have u: "dues (hs[i := h]) = due h + ?n" "hands (hs[i := h]) = in_hand h + ?C" for h
    using assms by (simp_all add: upd_conv_take_nth_drop dues_def hands_def)
  show ?thesis using that [of ?n ?C] u u [of "hs ! i"] by simp
qed

lemma start_allocate_holds [simp]:
  "in_hand (start_allocate P ctx pod old) = {#}" "due (start_allocate P ctx pod old) = 0"
  by (simp_all add: start_allocate_def alloc_error_def)

lemma after_subnet_holds [simp]:
  "in_hand (after_subnet ctx pod ports subnet) = {#}" "due (after_subnet ctx pod ports subnet) = 0"
  by (simp_all add: after_subnet_def split: outcome.split bool.split)

lemma after_pool_holds [simp]:
  "in_hand (after_pool ctx pod g) = carries g" "due (after_pool ctx pod g) = owes g"
  by (simp_all add: after_pool_def alloc_error_def split: goroutine.split sum.split)

lemma free_ports_holds [simp]: "in_hand (free_ports ctx pod items) = {#}" "due (free_ports ctx pod items) = 0"
  by (simp_all add: free_ports_def)

lemma alloc_error_holds [simp]: "in_hand (alloc_error e) = {#}" "due (alloc_error e) = 0"
  by (simp_all add: alloc_error_def)

lemma end_context_holds [simp]: "in_hand (end_context b e h) = in_hand h" "due (end_context b e h) = due h"
proof -
  have "carries (end_acquire b e g) = carries g" "owes (end_acquire b e g) = owes g" for g by (cases g; simp)+
  then show "in_hand (end_context b e h) = in_hand h" "due (end_context b e h) = due h" by (cases h; simp)+
qed

lemma request_holds: "is_request h \<Longrightarrow> in_hand h = {#} \<and> due h = 0"
  by (cases h) auto

subsection \<open>Every step keeps the pool\<close>

abbreviation pool_kept :: "('w \<Rightarrow> string set) \<Rightarrow> int \<Rightarrow> string multiset \<Rightarrow> 'w pool \<Rightarrow> bool" where
  "pool_kept issued \<equiv> kept port_factory (factory_ok issued) (\<lambda>f. issued (pf_world f))"

lemma pool_kept_safe: "pool_kept issued z C p \<Longrightarrow> manager_safe issued p"
  by (simp add: kept_def manager_safe_def)

lemma kept_world:
  assumes "pool_kept issued z C p" "issued (pf_world (env p)) \<subseteq> issued w"
  shows "pool_kept issued z C (p\<lparr>env := (env p)\<lparr>pf_world := w\<rparr>\<rparr>)"
  using world_safe [OF pool_kept_safe [OF assms(1)] assms(2)] assms
  by (auto simp: kept_def manager_safe_def)

lemma kept_call:
  assumes k: "pool_kept issued z C p" and g: "grows issued (m (pf_client (env p)))"
    and run: "pool_call m p = (out, q)"
  shows "pool_kept issued z C q \<and> same_size p q"
proof -
  obtain w where "q = p\<lparr>env := (env p)\<lparr>pf_world := w\<rparr>\<rparr>" "issued (pf_world (env p)) \<subseteq> issued w"
    using pool_call_safe(2,3) [OF pool_kept_safe [OF k] g run] by auto
  then show ?thesis using kept_world [OF k] by simp
qed

lemma kept_reads:
  assumes k: "pool_kept issued z C p"
  shows "pool_call (\<lambda>c. ListPortWithFilter c f) p = (out, q) \<Longrightarrow> pool_kept issued z C q \<and> same_size p q"
    "pool_call (\<lambda>c. GetSubnet c i) p = (out', q) \<Longrightarrow> pool_kept issued z C q \<and> same_size p q"
  using kept_call [OF k, of "\<lambda>c. ListPortWithFilter c f"] kept_call [OF k, of "\<lambda>c. GetSubnet c i"]
    ListPort_grows neutron_grows(3) manager_safeD(5) [OF pool_kept_safe [OF k]] by blast+

lemma kept_kube:
  assumes k: "pool_kept issued z C (srv_portManager s)" and kube: "kube_ok issued (srv_k8s s)"
    and run: "srv_kube (\<lambda>k. GetPod k ns name) s = (out, t)"
  shows "pool_kept issued z C (srv_portManager t) \<and> same_size (srv_portManager s) (srv_portManager t)"
proof -
  obtain o1 w where g: "pods_Get (k8s_client (srv_k8s s)) ns name (pf_world (env (srv_portManager s))) = (o1, w)"
    by fastforce
  then have "t = at_world w s" using run by (auto simp: srv_GetPod_run split: outcome.splits sum.splits)
  moreover have "issued (pf_world (env (srv_portManager s))) \<subseteq> issued w"
    using growsD [of issued "pods_Get (k8s_client (srv_k8s s)) ns name", OF _ g] kube by (simp add: kube_ok_def)
  ultimately show ?thesis using kept_world [OF k] by (simp add: at_world_def)
qed

lemma kept_get:
  assumes "getPodResource key s = (out, t)"
  shows "srv_portManager t = srv_portManager s"
  using assms by (auto simp: getPodResource_def srv_db_run split: prod.splits outcome.splits sum.splits)

lemma kept_create:
  assumes k: "pool_kept issued z C p" and run: "pool_Create ip p = (out, q)"
  shows "pool_kept issued z C q" "same_size p q"
    "out = Returns (Inr r) \<Longrightarrow> pool_kept issued z (add_mset (GetResourceId r) C) q"
  using ports.create_kept [OF k run] by blast+

lemma kept_add_idle:
  assumes "pool_kept issued z (add_mset (GetResourceId r) C) p" "AddIdle r p = (Returns x, q)"
  shows "pool_kept issued (z - 1) C q \<and> same_size p q"
  using ports.AddIdle_kept [of issued "z - 1" r C p x q] assms by simp

lemma kept_release:
  assumes k: "pool_kept issued z C p" and run: "Manager_Release ctx rid p = (Returns x, q)"
  shows "pool_kept issued z C q \<and> same_size p q"
proof -
  obtain d where "ReleaseWithReverse rid d p = (Returns x, q)"
    using run by (auto simp: Manager_Release_def Release_def split: option.splits)
  from ports.Release_kept [OF k this] show ?thesis .
qed

lemma add_idle_unhalted:
  assumes k: "pool_kept issued z C p" and halts: "AddIdle r p = (Halts x, q)"
  shows "x = Blocked"
proof (cases "locked p")
  case True
  then show ?thesis using blocked_when_locked(1) [OF True, of r] halts by simp
next
  case False
  then show ?thesis using AddIdle_run [OF False manager_safeD(3) [OF pool_kept_safe [OF k]], of r] halts by force
qed

lemma release_unhalted:
  assumes k: "pool_kept issued z C p" and halts: "Manager_Release ctx rid p = (Halts x, q)"
  shows "x = Blocked"
  using Manager_Release_safe [OF pool_kept_safe [OF k] halts] by (auto split: if_splits)

text \<open>Steps that leave nothing in the handler's hands, whatever they return.\<close>

lemma quiet_step:
  assumes "calls m next h s = Some (h', t) \<or> moves m next h s = Some (h', t)"
    and "\<And>out u. m s = (out, u) \<Longrightarrow>
      pool_kept issued z C (srv_portManager u) \<and> same_size (srv_portManager s) (srv_portManager u)"
    and "\<And>a. in_hand (next a) = {#} \<and> due (next a) = 0" "in_hand h = {#}" "due h = 0"
  shows "\<exists>y \<le> z. pool_kept issued (int (due h') + y) (in_hand h' + C) (srv_portManager t) \<and>
    same_size (srv_portManager s) (srv_portManager t)"
proof -
  from assms(1) obtain out where "m s = (out, t)" "(\<exists>a. h' = next a) \<or> h' = Halted h"
    by (metis calls_cases moves_cases)
  then show ?thesis using assms(2-5) by (intro exI [of _ z]) auto
qed

text \<open>
  One step of a handler, with what all others hold kept aside. Only a port created for a
  static address changes the excess: it enters the pool without a token, so the excess shrinks.
\<close>

lemma hstep_kept:
  assumes k: "pool_kept issued (int (due h) + z) (in_hand h + C) (srv_portManager s)"
    and kube: "kube_ok issued (srv_k8s s)" and step: "hstep h s = Some (h', t)"
  shows "\<exists>y \<le> z. pool_kept issued (int (due h') + y) (in_hand h' + C) (srv_portManager t) \<and>
    same_size (srv_portManager s) (srv_portManager t)"
proof -
  have quiet: ?thesis if "calls m next h s = Some (h', t) \<or> moves m next h s = Some (h', t)"
    "\<And>out u. m s = (out, u) \<Longrightarrow> pool_kept issued z C (srv_portManager s) \<Longrightarrow>
      pool_kept issued z C (srv_portManager u) \<and> same_size (srv_portManager s) (srv_portManager u)"
    "\<And>a. in_hand (next a) = {#} \<and> due (next a) = 0" "in_hand h = {#}" "due h = 0"
    for m :: "(('a, 'b) server, 'c) go" and "next" :: "'c \<Rightarrow> handler"
    using quiet_step [OF that(1) that(2) that(3-5)] k that(4,5) by simp
  show ?thesis
  proof (cases h)
    case (AllocEnter ctx r)
    show ?thesis
      by (rule quiet [OF disjI1 [OF step [unfolded AllocEnter hstep.simps, folded AllocEnter]]])
        (use kept_kube [OF _ kube] AllocEnter in \<open>auto split: sum.split\<close>)
  next
    case (FreeEnter ctx r)
    show ?thesis
      by (rule quiet [OF disjI1 [OF step [unfolded FreeEnter hstep.simps, folded FreeEnter]]])
        (use kept_kube [OF _ kube] FreeEnter in \<open>auto split: sum.split\<close>)
  next
    case (AllocRecord ctx pod)
    show ?thesis
      by (rule quiet [OF disjI2 [OF step [unfolded AllocRecord hstep.simps, folded AllocRecord]]])
        (use AllocRecord in \<open>auto dest!: kept_get split: sum.split\<close>)
  next
    case (FreeRecord ctx pod)
    show ?thesis
      by (rule quiet [OF disjI2 [OF step [unfolded FreeRecord hstep.simps, folded FreeRecord]]])
        (use FreeRecord in \<open>auto dest!: kept_get split: sum.split\<close>)
  next
    case (AllocList ctx pod)
    show ?thesis
      by (rule quiet [OF disjI1 [OF step [unfolded AllocList hstep.simps, folded AllocList]]])
        (use AllocList in
          \<open>auto simp: srv_manager_run dest: kept_reads(1) split: prod.splits option.split\<close>)
  next
    case (AllocSubnet ctx pod ports)
    show ?thesis
      by (rule quiet [OF disjI1 [OF step [unfolded AllocSubnet hstep.simps, folded AllocSubnet]]])
        (use AllocSubnet in
          \<open>auto simp: srv_manager_run dest: kept_reads(2) split: prod.splits sum.split\<close>)
  next
    case (AllocIdle ctx pod)
    show ?thesis
      by (rule quiet [OF disjI2 [OF step [unfolded AllocIdle hstep.simps, folded AllocIdle]]])
        (use AllocIdle in \<open>auto simp: srv_manager_run go_deref_def split: prod.splits option.split option.splits\<close>)
  next
    case (AllocCreate ctx pod)
    show ?thesis
      using step [unfolded AllocCreate hstep.simps]
      by (cases rule: calls_cases; intro exI [of _ z])
        (use k kept_create [of issued z C "srv_portManager s"] AllocCreate in
          \<open>auto simp: srv_manager_run split: prod.splits sum.split\<close>)
  next
    case (AllocAddIdle ctx pod res)
    show ?thesis
      using step [unfolded AllocAddIdle hstep.simps]
    proof (cases rule: moves_cases)
      case (1 a)
      then show ?thesis
        using k kept_add_idle [of issued z res C "srv_portManager s" a] AllocAddIdle
        by (intro exI [of _ "z - 1"]) (auto simp: srv_manager_run split: prod.splits)
    next
      case (2 x)
      then show ?thesis using add_idle_unhalted [OF k, of res x] by (auto simp: srv_manager_run split: prod.splits)
    qed
  next
    case (AllocPool ctx pod g)
    show ?thesis
      using step k ports.gstep_kept [of issued g z C "srv_portManager s"] AllocPool
      by (intro exI [of _ z]) (auto split: option.splits)
  next
    case (Ticker g)
    show ?thesis
      using step k ports.gstep_kept [of issued g z C "srv_portManager s"] Ticker
      by (intro exI [of _ z]) (auto split: option.splits)
  next
    case (FreePorts ctx pod items)
    show ?thesis
    proof (cases items)
      case Nil
      then show ?thesis using step k FreePorts by (intro exI [of _ z]) auto
    next
      case (Cons i rest)
      have m: "moves (srv_manager (Manager_Release (Some (pod_context ctx pod)) (ri_ID i))) (\<lambda>err. case err of
          Some e \<Rightarrow> FreeDone (Inl e) | None \<Rightarrow> free_ports ctx pod rest) h s = Some (h', t)"
        using step FreePorts Cons by simp
      from m show ?thesis
        by (cases rule: moves_cases; intro exI [of _ z])
          (use k kept_release [of issued z C] release_unhalted [OF k] FreePorts in
            \<open>auto simp: srv_manager_run split: prod.splits option.splits\<close>)
    qed
  qed (use step k in \<open>auto simp: moves_def calls_def srv_disk_run split: prod.splits outcome.splits halt.splits option.splits\<close>)
qed

subsection \<open>Every step keeps the server\<close>

definition memory_ok :: "('b, 'v) DiskStorage \<Rightarrow> bool" where
  "memory_ok d \<longleftrightarrow> \<not> ms_lock (ds_memory d) \<and> gmap_ok (ms_store (ds_memory d))"

text \<open>What a step of the handler does to the records in memory.\<close>

fun record_effect :: "handler \<Rightarrow> (string, PodResources) gmap \<Rightarrow> (string, PodResources) gmap" where
  "record_effect (AllocMemory ctx pod port) m = gmap_put m (pod_key pod) (new_record (convertPod pod) port)"
| "record_effect (FreeMemory ctx pod) m = gmap_delete m (pod_key pod)"
| "record_effect h m = m"

lemma getPodResource_memory:
  "srv_storage s = disk_storage \<Longrightarrow> memory_ok (srv_resourceDB s) \<Longrightarrow>
   getPodResource key s = (Returns (Inr (record_of (records s) key)), s)"
  by (simp add: getPodResource_def srv_db_run disk_storage_def Disk_Get_def ds_mem_run Memory_runs memory_ok_def
      records_def record_of_def split: option.split)

lemma srv_manager_parts:
  "srv_manager m s = (r, t) \<Longrightarrow> srv_resourceDB t = srv_resourceDB s \<and> srv_k8s t = srv_k8s s \<and>
     srv_storage t = srv_storage s \<and> srv_ParseIP t = srv_ParseIP s"
  by (auto simp: srv_manager_run split: prod.splits)

lemma srv_kube_parts:
  "srv_kube m s = (r, t) \<Longrightarrow> srv_resourceDB t = srv_resourceDB s \<and> srv_k8s t = srv_k8s s \<and>
     srv_storage t = srv_storage s \<and> srv_ParseIP t = srv_ParseIP s"
  unfolding srv_kube_def by (rule srv_manager_parts)

lemma disk_halves_parts:
  "disk_write key v d = (r, e) \<Longrightarrow> ds_memory e = ds_memory d \<and> ds_db e = ds_db d"
  "disk_erase key d = (r', e) \<Longrightarrow> ds_memory e = ds_memory d \<and> ds_db e = ds_db d"
  by (auto simp: disk_write_def disk_erase_def ds_tx_run split: sum.splits prod.splits)

definition same_server :: "('w, 'b) server \<Rightarrow> ('w, 'b) server \<Rightarrow> bool" where
  "same_server s t \<longleftrightarrow> srv_k8s t = srv_k8s s \<and> srv_storage t = srv_storage s \<and> srv_ParseIP t = srv_ParseIP s \<and>
     ds_db (srv_resourceDB t) = ds_db (srv_resourceDB s)"

lemma same_server_refl [simp]: "same_server s s"
  by (simp add: same_server_def)

text \<open>Steps outside the database.\<close>

lemma outside_step:
  assumes "calls m next h s = Some (h', t) \<or> moves m next h s = Some (h', t)"
    and "\<And>r u. m s = (r, u) \<Longrightarrow> srv_resourceDB u = srv_resourceDB s \<and> srv_k8s u = srv_k8s s \<and>
      srv_storage u = srv_storage s \<and> srv_ParseIP u = srv_ParseIP s"
  shows "srv_resourceDB t = srv_resourceDB s \<and> same_server s t"
proof -
  from assms(1) obtain out where "m s = (out, t)" by (metis calls_cases moves_cases)
  from assms(2) [OF this] show ?thesis by (simp add: same_server_def)
qed

lemma memory_step:
  assumes "memory_ok (srv_resourceDB s)"
  shows "hstep (AllocMemory ctx pod port) s = Some (AllocDone (alloc_reply ctx port),
      s\<lparr>srv_resourceDB := (srv_resourceDB s)\<lparr>ds_memory := (ds_memory (srv_resourceDB s))\<lparr>ms_store :=
        gmap_put (records s) (pod_key pod) (new_record (convertPod pod) port)\<rparr>\<rparr>\<rparr>)"
    "hstep (FreeMemory ctx pod) s = Some (FreeDone (free_reply ctx),
      s\<lparr>srv_resourceDB := (srv_resourceDB s)\<lparr>ds_memory := (ds_memory (srv_resourceDB s))\<lparr>ms_store :=
        gmap_delete (records s) (pod_key pod)\<rparr>\<rparr>\<rparr>)"
  using assms by (simp_all add: moves_def srv_disk_run ds_mem_run Memory_runs memory_ok_def records_def)

lemma file_step:
  assumes "hstep (AllocFile ctx pod port) s = Some (h', t) \<or> hstep (FreeFile ctx pod) s = Some (h', t)"
  shows "ds_memory (srv_resourceDB t) = ds_memory (srv_resourceDB s) \<and> same_server s t \<and>
    srv_portManager t = srv_portManager s"
  using assms by (auto simp: calls_def srv_disk_run same_server_def dest!: disk_halves_parts
      split: prod.splits outcome.splits)

lemma hstep_records:
  assumes st: "srv_storage s = disk_storage" "memory_ok (srv_resourceDB s)" and step: "hstep h s = Some (h', t)"
  shows "records t = record_effect h (records s)" "memory_ok (srv_resourceDB t)" "same_server s t"
proof -
  have outside: "records t = records s \<and> memory_ok (srv_resourceDB t) \<and> same_server s t"
    if "srv_resourceDB t = srv_resourceDB s \<and> same_server s t"
    using that st(2) by (simp add: records_def)
  have "records t = record_effect h (records s) \<and> memory_ok (srv_resourceDB t) \<and> same_server s t"
  proof (cases h)
    case (AllocMemory ctx pod port)
    then show ?thesis using step memory_step(1) [OF st(2), of ctx pod port] st(2)
      by (auto simp: records_def memory_ok_def same_server_def simp del: hstep.simps)
  next
    case (FreeMemory ctx pod)
    then show ?thesis using step memory_step(2) [OF st(2), of ctx pod] st(2)
      by (auto simp: records_def memory_ok_def same_server_def simp del: hstep.simps)
  next
    case (AllocFile ctx pod port)
    then show ?thesis using step file_step [of ctx pod port s h' t] st(2)
      by (auto simp: records_def memory_ok_def simp del: hstep.simps)
  next
    case (FreeFile ctx pod)
    then show ?thesis using step file_step [of ctx pod undefined s h' t] st(2)
      by (auto simp: records_def memory_ok_def simp del: hstep.simps)
  next
    case (AllocRecord ctx pod)
    then have "t = s" using step getPodResource_memory [OF st, of "pod_key pod"] by (simp add: moves_def)
    then show ?thesis using AllocRecord st(2) by simp
  next
    case (FreeRecord ctx pod)
    then have "t = s" using step getPodResource_memory [OF st, of "pod_key pod"] by (simp add: moves_def)
    then show ?thesis using FreeRecord st(2) by simp
  next
    case (FreePorts ctx pod items)
    show ?thesis
    proof (cases items)
      case Nil
      then show ?thesis using step FreePorts st(2) by (simp add: same_server_def)
    next
      case (Cons i rest)
      then show ?thesis
        using outside [OF outside_step [OF disjI2 [OF step [unfolded FreePorts Cons hstep.simps]] srv_manager_parts]]
          FreePorts by simp
    qed
  next
    case (AllocEnter ctx r)
    then show ?thesis
      using outside [OF outside_step [OF disjI1 [OF step [unfolded AllocEnter hstep.simps]] srv_kube_parts]] by simp
  next
    case (FreeEnter ctx r)
    then show ?thesis
      using outside [OF outside_step [OF disjI1 [OF step [unfolded FreeEnter hstep.simps]] srv_kube_parts]] by simp
  next
    case (AllocList ctx pod)
    then show ?thesis
      using outside [OF outside_step [OF disjI1 [OF step [unfolded AllocList hstep.simps]] srv_manager_parts]] by simp
  next
    case (AllocSubnet ctx pod ports)
    then show ?thesis
      using outside [OF outside_step [OF disjI1 [OF step [unfolded AllocSubnet hstep.simps]] srv_manager_parts]] by simp
  next
    case (AllocIdle ctx pod)
    then show ?thesis
      using outside [OF outside_step [OF disjI2 [OF step [unfolded AllocIdle hstep.simps]] srv_manager_parts]] by simp
  next
    case (AllocCreate ctx pod)
    then show ?thesis
      using outside [OF outside_step [OF disjI1 [OF step [unfolded AllocCreate hstep.simps]] srv_manager_parts]] by simp
  next
    case (AllocAddIdle ctx pod res)
    then show ?thesis
      using outside [OF outside_step [OF disjI2 [OF step [unfolded AllocAddIdle hstep.simps]] srv_manager_parts]] by simp
  qed (use step st in \<open>auto simp: same_server_def records_def split: option.splits\<close>)
  then show "records t = record_effect h (records s)" "memory_ok (srv_resourceDB t)" "same_server s t" by blast+
qed

subsection \<open>Every interleaving keeps the daemon in order\<close>

text \<open>
  The daemon in order while the handlers \<open>hs\<close> are under way: the pool is kept with what they
  hold and owe and the excess \<open>z\<close>, reading pods takes no port id back, and the memory of the
  database is unlocked and a map.
\<close>

definition daemon_kept :: "('w \<Rightarrow> string set) \<Rightarrow> int \<Rightarrow> ('w, 'b) daemon \<Rightarrow> bool" where
  "daemon_kept issued z c \<longleftrightarrow>
     pool_kept issued (int (dues (snd c)) + z) (hands (snd c)) (srv_portManager (fst c)) \<and>
     kube_ok issued (srv_k8s (fst c)) \<and> srv_storage (fst c) = disk_storage \<and> memory_ok (srv_resourceDB (fst c))"

lemma daemon_keptD:
  assumes "daemon_kept issued z (s, hs)"
  shows "pool_kept issued (int (dues hs) + z) (hands hs) (srv_portManager s)" "kube_ok issued (srv_k8s s)"
    "srv_storage s = disk_storage" "memory_ok (srv_resourceDB s)" "manager_safe issued (srv_portManager s)"
  using assms pool_kept_safe by (auto simp: daemon_kept_def)

lemma daemon_step_kept:
  assumes "daemon_step (s, hs) (t, ks)" "daemon_kept issued z (s, hs)"
  shows "\<exists>y \<le> z. daemon_kept issued y (t, ks)" "same_server s t"
    "capacity (srv_portManager t) = capacity (srv_portManager s)"
proof -
  note d = daemon_keptD [OF assms(2)]
  have "(\<exists>y \<le> z. daemon_kept issued y (t, ks)) \<and> same_server s t \<and>
      capacity (srv_portManager t) = capacity (srv_portManager s)"
    using assms(1)
  proof (cases rule: daemon_step_cases)
    case (run i h)
    obtain n C where h: "\<forall>h. dues (hs[i := h]) = due h + n" "\<forall>h. hands (hs[i := h]) = in_hand h + C"
      "dues hs = due (hs ! i) + n" "hands hs = in_hand (hs ! i) + C"
      by (rule handlers_at [OF run(2)])
    have "pool_kept issued (int (due (hs ! i)) + (int n + z)) (in_hand (hs ! i) + C) (srv_portManager s)"
      using d(1) h(3,4) by (simp add: add.assoc)
    from hstep_kept [OF this d(2) run(3)] obtain y where y: "y \<le> int n + z"
      "pool_kept issued (int (due h) + y) (in_hand h + C) (srv_portManager t)"
      "same_size (srv_portManager s) (srv_portManager t)" by blast
    note r = hstep_records(2,3) [OF d(3,4) run(3)]
    have e: "int (dues ks) + (y - int n) = int (due h) + y" "hands ks = in_hand h + C"
      using run(1) h(1,2) by simp_all
    have "daemon_kept issued (y - int n) (t, ks)"
      using y(2) r d(2,3) unfolding daemon_kept_def fst_conv snd_conv e by (simp add: same_server_def)
    then show ?thesis using y(1,3) r(2) by (intro conjI exI [of _ "y - int n"]) simp_all
  next
    case (request h)
    then show ?thesis using assms(2) request request_holds [of h]
      by (intro conjI exI [of _ z]) (auto simp: daemon_kept_def dues_def hands_def)
  next
    case (ends i b e)
    obtain n C where h: "\<forall>h. dues (hs[i := h]) = due h + n" "\<forall>h. hands (hs[i := h]) = in_hand h + C"
      "dues hs = due (hs ! i) + n" "hands hs = in_hand (hs ! i) + C"
      by (rule handlers_at [OF ends(1)])
    then show ?thesis using assms(2) ends by (intro conjI exI [of _ z]) (auto simp: daemon_kept_def)
  qed
  then show "\<exists>y \<le> z. daemon_kept issued y (t, ks)" "same_server s t"
    "capacity (srv_portManager t) = capacity (srv_portManager s)" by blast+
qed

lemma daemon_steps_kept:
  assumes "daemon_step\<^sup>*\<^sup>* (s, hs) (t, ks)" "daemon_kept issued z (s, hs)"
  shows "(\<exists>y \<le> z. daemon_kept issued y (t, ks)) \<and> capacity (srv_portManager t) = capacity (srv_portManager s)"
  using assms
proof (induction rule: rtranclp_induct2)
  case refl
  then show ?case by blast
next
  case (step u ls t ks)
  then obtain y where y: "y \<le> z" "daemon_kept issued y (u, ls)" by blast
  note k = daemon_step_kept [OF step.hyps(2) y(2)]
  then show ?case using step y(1) by (metis order.trans)
qed

lemma served_kept:
  assumes ok: "served_ok issued contents s" and b: "balanced (srv_portManager s)"
    and g: "\<forall>h \<in> set hs. in_hand h = {#} \<and> due h = 0"
  shows "daemon_kept issued 0 (s, hs)"
proof -
  note d = ok [unfolded served_ok_def daemon_ok_def disk_ok_def]
  have "hands hs = {#}" "dues hs = 0" using g by (induction hs) (simp_all add: hands_def dues_def)
  then show ?thesis
    using d b by (auto simp: daemon_kept_def kept_def memory_ok_def manager_safe_def balanced_slack pool_safe_def
        exclusive_def)
qed

end
