(* ===== verification/Daemon_Claims.thy ===== *)
theory Daemon_Claims
  imports Daemon_Concurrency
begin

section \<open>Which pod has which port while handlers interleave\<close>

text \<open>
  A port is claimed by the pod whose record names it, or by the handler that has it between the
  pool and the database. As long as the claims are among the ports in use, each of which the
  pool holds once, no port has two owners. This theory finds what keeps it so: at any time
  there is at most one handler per pod, no pod keeps its address after its release, and the database
  does not refuse deletions.
\<close>

subsection \<open>Goroutines of the background and of Acquire\<close>

fun background :: "goroutine \<Rightarrow> bool" where
  "background (AcquireEnter ctx rid) = False"
| "background (AcquireSelect ctx) = False"
| "background AcquireCreate = False"
| "background (AcquireReturnToken e) = False"
| "background (AcquireAdd res) = False"
| "background (AcquireDone r) = False"
| "background (ReleaseEnter rid d) = False"
| "background (ReleaseDone r) = False"
| "background (StatEnter rid) = False"
| "background (StatDone r) = False"
| "background g = True"

fun acquiring :: "goroutine \<Rightarrow> bool" where
  "acquiring (AcquireEnter ctx rid) = True"
| "acquiring (AcquireSelect ctx) = True"
| "acquiring AcquireCreate = True"
| "acquiring (AcquireReturnToken e) = True"
| "acquiring (AcquireAdd res) = True"
| "acquiring (AcquireDone r) = True"
| "acquiring (Stuck n) = True"
| "acquiring g = False"

lemma inuse_factory:
  "pool_Create ip s = (out, t) \<Longrightarrow> inuse t = inuse s" "pool_Dispose res s = (out', t) \<Longrightarrow> inuse t = inuse s"
  by (auto simp: pool_Create_def pool_Dispose_def split: prod.splits)

lemma inuse_idle_add: "AddIdle res s = (out, t) \<Longrightarrow> inuse t = inuse s"
  by (auto simp: AddIdle_def pool_Lock_def pool_Unlock_def time_Now_def idle_Push_def
      split: prod.splits outcome.splits option.splits if_splits)

lemma inuse_check_section: "check_idle_section s = (out, t) \<Longrightarrow> inuse t = inuse s"
  by (auto simp: check_idle_section_def pool_Lock_def pool_Unlock_def time_Now_def idle_Pop_def go_deref_def
      split: prod.splits outcome.splits option.splits if_splits)

lemma inuse_addition: "needAddition s = (out, t) \<Longrightarrow> inuse t = inuse s"
  by (auto simp: needAddition_def pool_Lock_def pool_Unlock_def split: prod.splits outcome.splits if_splits)

lemma attempt_inuse:
  assumes "attempt m next k s = Some (g, t)" "\<And>out u. m s = (out, u) \<Longrightarrow> inuse u = inuse s"
  shows "inuse t = inuse s"
  using assms by (auto simp: attempt_def split: prod.splits outcome.splits halt.splits)

lemma call_out_inuse:
  assumes "call_out m next k s = Some (g, t)" "\<And>out u. m s = (out, u) \<Longrightarrow> inuse u = inuse s"
  shows "inuse t = inuse s"
  using assms by (auto simp: call_out_def split: prod.splits outcome.splits)

lemma attempt_next:
  "attempt m next k s = Some (g, t) \<Longrightarrow> (\<exists>a. g = next a) \<or> g = Stuck k"
  by (auto simp: attempt_def split: prod.splits outcome.splits halt.splits)

lemma call_out_next:
  "call_out m next k s = Some (g, t) \<Longrightarrow> (\<exists>a. g = next a) \<or> g = Stuck k"
  by (auto simp: call_out_def split: prod.splits outcome.splits)

text \<open>The background goroutine stays one and never touches what is in use.\<close>

lemma background_step:
  assumes "background g" "gstep g s = Some (g', t)"
  shows "background g' \<and> inuse t = inuse s"
proof (cases g)
  case (CheckIdleLock b)
  note st = assms(2) [unfolded CheckIdleLock gstep.simps]
  show ?thesis using attempt_inuse [OF st inuse_check_section] attempt_next [OF st]
    by (auto simp: after_checkIdle_def split: option.splits)
next
  case (CheckIdleDispose b res)
  note st = assms(2) [unfolded CheckIdleDispose gstep.simps]
  show ?thesis using call_out_inuse [OF st inuse_factory(2)] call_out_next [OF st]
    by (auto split: option.splits)
next
  case (CheckIdleAddBack b res)
  note st = assms(2) [unfolded CheckIdleAddBack gstep.simps]
  show ?thesis using attempt_inuse [OF st inuse_idle_add] attempt_next [OF st] by auto
next
  case (CreateAdd res n left)
  note st = assms(2) [unfolded CreateAdd gstep.simps]
  show ?thesis using attempt_inuse [OF st inuse_idle_add] attempt_next [OF st] by auto
next
  case Insufficient
  note st = assms(2) [unfolded Insufficient gstep.simps]
  show ?thesis using attempt_inuse [OF st inuse_addition] attempt_next [OF st] by (auto split: if_splits)
next
  case (CreateFor n left)
  show ?thesis
  proof (cases n)
    case 0
    then show ?thesis using assms(2) CreateFor by (auto simp: notify_def)
  next
    case (Suc m)
    note st = assms(2) [unfolded CreateFor Suc gstep.simps]
    show ?thesis using call_out_inuse [OF st inuse_factory(1)] call_out_next [OF st]
      by (auto simp: sum.case_eq_if split: if_splits)
  qed
next
  case (TakeTokens n k)
  then show ?thesis using assms(2)
    by (cases n) (auto simp: attempt_def token_try_def split: if_splits)
qed (use assms in \<open>auto simp: attempt_def token_send_def after_checkIdle_def split: if_splits\<close>)

text \<open>
  A goroutine of \<open>Acquire\<close> touches what is in use only in the step in which it ends with a
  resource: this one enters, and was not in use before.
\<close>

definition acquires :: "'w pool \<Rightarrow> goroutine \<Rightarrow> 'w pool \<Rightarrow> bool" where
  "acquires s g t \<longleftrightarrow> (case g of
     AcquireDone (Inr r) \<Rightarrow>
       inuse t = gmap_put (inuse s) (GetResourceId r) r \<and> gmap_get (inuse s) (GetResourceId r) = None
   | _ \<Rightarrow> inuse t = inuse s)"

lemma acquiring_step:
  assumes a: "acquiring g" and k: "pool_kept issued z (carries g + C) s" and step: "gstep g s = Some (g', t)"
  shows "acquiring g' \<and> acquires s g' t"
proof -
  note safe = pool_kept_safe [OF k]
  show ?thesis
  proof (cases g)
    case (AcquireEnter ctx rid)
    have free: "\<not> locked s" using step AcquireEnter calls_blocked(1) [of s ctx rid] by auto
    show ?thesis
    proof (cases "idle_ids s = {#}")
      case True
      then show ?thesis
        using step AcquireEnter acquire_section_empty [OF free manager_safeD(3) [OF safe] True, of rid]
        by (auto simp: attempt_def acquires_def)
    next
      case False
      obtain item q where q: "acquire_section rid s = (Returns (Found (item_res item)),
         s\<lparr>idle := q, inuse := gmap_put (inuse s) (item_id item) (item_res item)\<rparr>)"
        "mset (queue_items (idle s)) = add_mset item (mset (queue_items q))"
        by (rule acquire_section_found [OF free manager_safeD(1) [OF safe] False])
      have "item_id item \<in># idle_ids s" using q(2) by (simp add: idle_ids_def flip: mset_map)
      then have "gmap_get (inuse s) (item_id item) = None"
        using idle_not_inuse [of s "item_id item"] manager_safeD(2) [OF safe] not_inuse_iff [of "item_id item" s]
        by (simp add: exclusive_def)
      then show ?thesis using step AcquireEnter q(1) by (auto simp: attempt_def acquires_def item_id_def)
    qed
  next
    case AcquireCreate
    note st = step [unfolded AcquireCreate gstep.simps]
    have "inuse t = inuse s" by (rule call_out_inuse [OF st]) (rule inuse_factory(1))
    then show ?thesis using call_out_next [OF st]
      by (auto simp: acquires_def sum.case_eq_if split: if_splits)
  next
    case (AcquireAdd res)
    have free: "\<not> locked s" using step AcquireAdd calls_blocked(4) [of s res] by auto
    have "count (held s) (GetResourceId res) + Suc (count C (GetResourceId res)) \<le> 1"
      using keptD(2) [OF k] AcquireAdd by (metis carries.simps(1) count_add_mset count_union add_mset_add_single union_commute)
    then have "gmap_get (inuse s) (GetResourceId res) = None"
      using not_inuse_iff [of "GetResourceId res" s] by (simp add: held_def not_in_iff)
    then show ?thesis using step AcquireAdd AddInuse_run [OF free, of res] by (auto simp: attempt_def acquires_def)
  qed (use a step in \<open>auto simp: attempt_def token_send_def token_select_def acquires_def split: if_splits\<close>)
qed

subsection \<open>Claims\<close>

text \<open>
  The pod a handler works for, from the moment it knows it until it answers; the pod whose
  record it has begun to give up; and the ports it claims: one between the pool and the
  database, or those of the record it still has to release.
\<close>

fun pod_of :: "handler \<Rightarrow> KubePod option" where
  "pod_of (AllocRecord ctx pod) = Some pod"
| "pod_of (AllocList ctx pod) = Some pod"
| "pod_of (AllocSubnet ctx pod ports) = Some pod"
| "pod_of (AllocIdle ctx pod) = Some pod"
| "pod_of (AllocCreate ctx pod) = Some pod"
| "pod_of (AllocAddIdle ctx pod res) = Some pod"
| "pod_of (AllocPool ctx pod g) = Some pod"
| "pod_of (AllocFile ctx pod port) = Some pod"
| "pod_of (AllocMemory ctx pod port) = Some pod"
| "pod_of (FreeRecord ctx pod) = Some pod"
| "pod_of (FreePorts ctx pod items) = Some pod"
| "pod_of (FreeFile ctx pod) = Some pod"
| "pod_of (FreeMemory ctx pod) = Some pod"
| "pod_of (Halted h) = pod_of h"
| "pod_of h = None"

fun gives_up :: "handler \<Rightarrow> string set" where
  "gives_up (FreePorts ctx pod items) = {pod_key pod}"
| "gives_up (FreeFile ctx pod) = {pod_key pod}"
| "gives_up (FreeMemory ctx pod) = {pod_key pod}"
| "gives_up (Halted h) = gives_up h"
| "gives_up h = {}"

fun claim :: "handler \<Rightarrow> string multiset" where
  "claim (AllocFile ctx pod port) = {#GetResourceId port#}"
| "claim (AllocMemory ctx pod port) = {#GetResourceId port#}"
| "claim (FreePorts ctx pod items) = mset (map ri_ID items)"
| "claim (Halted h) = claim h"
| "claim h = {#}"

fun in_place :: "handler \<Rightarrow> bool" where
  "in_place (Ticker g) = background g"
| "in_place (AllocPool ctx pod g) = (acquiring g \<and> (\<forall>r. g \<noteq> AcquireDone r))"
| "in_place (Halted h) = in_place h"
| "in_place h = True"

text \<open>What the records name, apart from those that are being given up.\<close>

definition recorded :: "(string, PodResources) gmap \<Rightarrow> string set \<Rightarrow> string multiset" where
  "recorded m F = (\<Sum>(k, p)\<leftarrow>m. if k \<in> F then {#} else mset (map ri_ID (pr_Resources p)))"

definition given_up :: "handler list \<Rightarrow> string set" where
  "given_up hs = (\<Union>h \<in> set hs. gives_up h)"

definition claims :: "handler list \<Rightarrow> (string, PodResources) gmap \<Rightarrow> string multiset" where
  "claims hs m = recorded m (given_up hs) + sum_list (map claim hs)"

lemma gives_up_pod: "k \<in> gives_up h \<Longrightarrow> \<exists>pod. pod_of h = Some pod \<and> k = pod_key pod"
  by (induction h) auto

lemma recorded_cong: "(\<And>k. k \<in> gmap_keys m \<Longrightarrow> k \<in> F \<longleftrightarrow> k \<in> G) \<Longrightarrow> recorded m F = recorded m G"
  unfolding recorded_def
  by (rule arg_cong [of _ _ sum_list], rule map_cong [OF refl]) (force simp: gmap_keys_def)

lemma record_of_absent: "k \<notin> gmap_keys m \<Longrightarrow> record_of m k = no_resources"
  using gmap_get_None_iff [of m k] by (simp add: record_of_def)

lemma recorded_split:
  "gmap_ok m \<Longrightarrow> recorded m F = recorded (gmap_delete m k) F +
     (if k \<in> F then {#} else mset (map ri_ID (pr_Resources (record_of m k))))"
proof (induction m)
  case Nil
  then show ?case by (simp add: recorded_def gmap_delete_def record_of_def no_resources_def)
next
  case (Cons e m)
  obtain j p where e: "e = (j, p)" by fastforce
  have ok: "gmap_ok m" "j \<notin> gmap_keys m" using Cons.prems by (auto simp: e gmap_ok_def gmap_keys_def)
  show ?case
  proof (cases "j = k")
    case True
    have "gmap_delete m k = m" using ok(2) True by (simp add: gmap_delete_def gmap_keys_def delete_id)
    then show ?thesis using True by (simp add: e recorded_def gmap_delete_def record_of_def gmap_get_def)
  next
    case False
    then have "record_of (e # m) k = record_of m k" by (simp add: e record_of_def gmap_get_def)
    then show ?thesis using False Cons.IH [OF ok(1)] by (simp add: e recorded_def gmap_delete_def)
  qed
qed

lemma recorded_delete [simp]: "recorded (gmap_delete m k) (insert k F) = recorded (gmap_delete m k) F"
  by (rule recorded_cong) auto

lemma recorded_put:
  assumes "gmap_ok m" "k \<notin> F"
  shows "recorded (gmap_put m k p) F = recorded (gmap_delete m k) F + mset (map ri_ID (pr_Resources p))"
proof -
  have "gmap_delete (gmap_put m k p) k = gmap_delete m k"
    by (simp add: gmap_delete_def gmap_put_def delete_update_same)
  then show ?thesis
    using recorded_split [OF gmap_ok_put [OF assms(1)], of k p F k] assms(2) by (simp add: record_of_def)
qed

lemma claims_both:
  assumes "i < length hs"
  obtains F K where "\<forall>h. claims (hs[i := h]) m' = recorded m' (F \<union> gives_up h) + claim h + K"
    "\<forall>k \<in> F. \<exists>j < length hs. j \<noteq> i \<and> k \<in> gives_up (hs ! j)"
    "claims hs m = recorded m (F \<union> gives_up (hs ! i)) + claim (hs ! i) + K"
proof -
  let ?os = "take i hs @ drop (Suc i) hs"
  let ?F = "given_up ?os" and ?K = "sum_list (map claim ?os)"
  have u: "claims (hs[i := h]) m = recorded m (?F \<union> gives_up h) + claim h + ?K" for h m
    using assms by (auto simp: upd_conv_take_nth_drop claims_def given_up_def Un_ac)
  have "\<exists>j < length hs. j \<noteq> i \<and> k \<in> gives_up (hs ! j)" if k: "k \<in> ?F" for k
  proof -
    obtain h where h: "h \<in> set ?os" "k \<in> gives_up h" using k by (auto simp: given_up_def)
    then consider j where "j < length (take i hs)" "h = take i hs ! j"
      | j where "j < length (drop (Suc i) hs)" "h = drop (Suc i) hs ! j"
      by (auto simp: in_set_conv_nth)
    then show ?thesis
    proof cases
      case 1
      then show ?thesis using h(2) by (intro exI [of _ j]) auto
    next
      case 2
      then show ?thesis using h(2) assms by (intro exI [of _ "Suc i + j"]) auto
    qed
  qed
  then show ?thesis using that [of ?F ?K] u u [of "hs ! i" m] by simp
qed

subsection \<open>Every step keeps the claims among the ports in use\<close>

text \<open>What is assumed of the database: a deletion that returns has not failed.\<close>

definition deletes_work :: "'b Bolt \<Rightarrow> bool" where
  "deletes_work db \<longleftrightarrow> (\<forall>n k w r w'. bolt_Delete db n k w = (Returns r, w') \<longrightarrow> r = None)"

definition leaves_address :: "KubePod \<Rightarrow> bool" where
  "leaves_address pod \<longleftrightarrow> pi_IpStickTime (convertPod pod) = 0"

lemma erase_works:
  assumes "deletes_work (ds_db d)" "disk_erase k d = (Returns r, e)"
  shows "r = None"
proof -
  obtain f where "bolt_Delete (ds_db d) (ds_name d) k (ds_file d) = (Returns r, f)"
    using assms(2) by (auto simp: disk_erase_def ds_tx_run split: prod.splits)
  then show ?thesis using assms(1) unfolding deletes_work_def by blast
qed

lemma quiet_targets [simp]:
  "gives_up (alloc_error e) = {}" "claim (alloc_error e) = {#}" "in_place (alloc_error e)"
  "gives_up (start_allocate P ctx pod old) = {}" "claim (start_allocate P ctx pod old) = {#}"
  "in_place (start_allocate P ctx pod old)"
  "gives_up (after_subnet ctx pod ports subnet) = {}" "claim (after_subnet ctx pod ports subnet) = {#}"
  "in_place (after_subnet ctx pod ports subnet)" "in_place (free_ports ctx pod items)"
  "gives_up (after_pool ctx pod g) = {}"
  by (simp_all add: alloc_error_def start_allocate_def after_subnet_def free_ports_def after_pool_def
      split: outcome.split bool.split goroutine.split sum.split)

lemma free_ports_target:
  "leaves_address pod \<Longrightarrow> gives_up (free_ports ctx pod items) = {pod_key pod}"
  "leaves_address pod \<Longrightarrow> claim (free_ports ctx pod items) = mset (map ri_ID items)"
  by (simp_all add: free_ports_def leaves_address_def)

lemma quiet_claims:
  assumes "calls m next h s = Some (h', t) \<or> moves m next h s = Some (h', t)"
    and "\<And>r u. m s = (r, u) \<Longrightarrow> inuse (srv_portManager u) = inuse (srv_portManager s)"
    and "\<And>a. gives_up (next a) = {} \<and> claim (next a) = {#} \<and> in_place (next a)"
    and "gives_up h = {}" "claim h = {#}" "in_place h"
  shows "inuse (srv_portManager t) = inuse (srv_portManager s) \<and> gives_up h' = {} \<and> claim h' = {#} \<and> in_place h'"
proof -
  from assms(1) obtain out where "m s = (out, t)" "(\<exists>a. h' = next a) \<or> h' = Halted h"
    by (metis calls_cases moves_cases)
  then show ?thesis using assms(2-6) by auto
qed

lemma manager_inuse:
  assumes "srv_manager m s = (r, t)" "\<And>r' q. m (srv_portManager s) = (r', q) \<Longrightarrow> inuse q = inuse (srv_portManager s)"
  shows "inuse (srv_portManager t) = inuse (srv_portManager s)"
  using assms by (auto simp: srv_manager_run split: prod.splits)

lemma kube_inuse: "srv_kube m s = (r, t) \<Longrightarrow> inuse (srv_portManager t) = inuse (srv_portManager s)"
  unfolding srv_kube_def by (erule manager_inuse) (simp add: pool_call_same)

lemma idle_inuse: "go_deref (GetIdle p) p = (r, q) \<Longrightarrow> inuse q = inuse p"
  by (auto simp: go_deref_def split: option.splits)

text \<open>The steps of handlers that own nothing, before and after.\<close>

fun early :: "handler \<Rightarrow> bool" where
  "early (AllocEnter ctx r) = True"
| "early (AllocRecord ctx pod) = True"
| "early (AllocList ctx pod) = True"
| "early (AllocSubnet ctx pod ports) = True"
| "early (AllocIdle ctx pod) = True"
| "early (AllocCreate ctx pod) = True"
| "early (AllocAddIdle ctx pod res) = True"
| "early (FreeEnter ctx r) = True"
| "early h = False"

lemma hstep_quiet:
  assumes step: "hstep h s = Some (h', t)"
    and h: "early h"
  shows "inuse (srv_portManager t) = inuse (srv_portManager s) \<and> gives_up h' = {} \<and> claim h' = {#} \<and> in_place h'"
proof (cases h)
  case (AllocEnter ctx r)
  show ?thesis
    by (rule quiet_claims [OF disjI1 [OF step [unfolded AllocEnter hstep.simps]] kube_inuse])
      (auto split: sum.split)
next
  case (FreeEnter ctx r)
  show ?thesis
    by (rule quiet_claims [OF disjI1 [OF step [unfolded FreeEnter hstep.simps]] kube_inuse])
      (auto split: sum.split)
next
  case (AllocRecord ctx pod)
  show ?thesis
    by (rule quiet_claims [OF disjI2 [OF step [unfolded AllocRecord hstep.simps]]])
      (auto dest: kept_get split: sum.split)
next
  case (AllocList ctx pod)
  show ?thesis
    by (rule quiet_claims [OF disjI1 [OF step [unfolded AllocList hstep.simps]] manager_inuse])
      (auto simp: pool_call_same split: option.splits)
next
  case (AllocSubnet ctx pod ports)
  show ?thesis
    by (rule quiet_claims [OF disjI1 [OF step [unfolded AllocSubnet hstep.simps]] manager_inuse])
      (auto simp: pool_call_same split: sum.split)
next
  case (AllocIdle ctx pod)
  show ?thesis
    by (rule quiet_claims [OF disjI2 [OF step [unfolded AllocIdle hstep.simps]] manager_inuse])
      (auto simp: idle_inuse split: option.split)
next
  case (AllocCreate ctx pod)
  show ?thesis
    by (rule quiet_claims [OF disjI1 [OF step [unfolded AllocCreate hstep.simps]] manager_inuse])
      (auto simp: inuse_factory split: sum.split)
next
  case (AllocAddIdle ctx pod res)
  show ?thesis
    by (rule quiet_claims [OF disjI2 [OF step [unfolded AllocAddIdle hstep.simps]] manager_inuse])
      (auto simp: inuse_idle_add)
qed (use h in auto)

text \<open>The claims of one handler, and those of all others kept aside.\<close>

lemma claims_less:
  assumes "recorded m (F \<union> gives_up h) + claim h + K \<subseteq># inuse_ids p"
    and "inuse q = inuse p" "gives_up h' = gives_up h" "claim h' \<subseteq># claim h"
  shows "recorded m (F \<union> gives_up h') + claim h' + K \<subseteq># inuse_ids q"
proof -
  have "recorded m (F \<union> gives_up h') + claim h' + K \<subseteq># recorded m (F \<union> gives_up h) + claim h + K"
    using assms(3,4) by simp
  then show ?thesis using assms(1,2) subset_mset.order_trans by (metis inuse_ids_same)
qed

lemma release_claims:
  assumes safe: "manager_safe issued p" and rel: "Manager_Release ctx rid p = (out, q)"
    and c: "X + (add_mset rid Y + K) \<subseteq># inuse_ids p" and moved: "out \<noteq> Halts Blocked"
  shows "out = Returns None" "X + (Y + K) \<subseteq># inuse_ids q"
proof -
  note r = Manager_Release_safe [OF safe rel]
  have "rid \<in># inuse_ids p" using c by (meson mset_subset_eqD union_iff union_single_eq_member)
  then have "gmap_get (inuse p) rid \<noteq> None" using not_inuse_iff [of rid p] by blast
  then show o: "out = Returns None" using r moved by (auto split: if_splits)
  have "gmap_ok (inuse p)" using manager_safeD(1) [OF safe] by (simp add: pool_wf_def)
  then have "inuse_ids p = add_mset rid (inuse_ids q)"
    using inuse_ids_delete [of p rid] r o gmap_get_Some_key by (force simp: inuse_ids_def)
  then show "X + (Y + K) \<subseteq># inuse_ids q" using c by simp
qed

lemma hstep_claims:
  assumes k: "pool_kept issued z (in_hand h + C) (srv_portManager s)"
    and st: "srv_storage s = disk_storage" "memory_ok (srv_resourceDB s)"
    and pl: "in_place h" and calm: "\<And>pod. pod_of h = Some pod \<Longrightarrow> leaves_address pod"
    and db: "deletes_work (ds_db (srv_resourceDB s))"
    and alone: "\<And>pod. pod_of h = Some pod \<Longrightarrow> pod_key pod \<notin> F"
    and c: "recorded (records s) (F \<union> gives_up h) + claim h + K \<subseteq># inuse_ids (srv_portManager s)"
    and step: "hstep h s = Some (h', t)"
  shows "recorded (records t) (F \<union> gives_up h') + claim h' + K \<subseteq># inuse_ids (srv_portManager t) \<and> in_place h'"
proof -
  note rec = hstep_records(1) [OF st step] and safe = pool_kept_safe [OF k]
  have gm: "gmap_ok (records s)" using st(2) by (simp add: memory_ok_def records_def)
  show ?thesis
  proof (cases "early h")
    case True
    then have "gives_up h = {}" "claim h = {#}" "records t = records s" using rec by (cases h; simp)+
    then show ?thesis using hstep_quiet [OF step True] claims_less [OF c, of "srv_portManager t" h'] by simp
  next
    case False
    then show ?thesis
    proof (cases h)
      case (AllocPool ctx pod g)
      obtain g' where g: "gstep g (srv_portManager s) = Some (g', srv_portManager t)" "h' = after_pool ctx pod g'"
        using step AllocPool by (auto split: option.splits)
      have "pool_kept issued z (carries g + C) (srv_portManager s)" "acquiring g" using k pl AllocPool by simp_all
      from acquiring_step [OF this(2,1) g(1)] have a: "acquiring g'" "acquires (srv_portManager s) g' (srv_portManager t)"
        by blast+
      show ?thesis
      proof (cases "\<exists>r. g' = AcquireDone (Inr r)")
        case True
        then obtain r where r: "g' = AcquireDone (Inr r)" by blast
        have "inuse_ids (srv_portManager t) = add_mset (GetResourceId r) (inuse_ids (srv_portManager s))"
          using inuse_ids_put_new [OF manager_safeD(1) [OF safe]] a(2) r by (auto simp: acquires_def)
        then show ?thesis using c rec g(2) r AllocPool by (simp add: after_pool_def)
      next
        case False
        then have "claim h' = {#}" "in_place h'" "inuse (srv_portManager t) = inuse (srv_portManager s)"
          using a g(2) by (auto simp: after_pool_def alloc_error_def acquires_def split: goroutine.splits sum.splits)
        then show ?thesis using claims_less [OF c, of "srv_portManager t" h'] rec g(2) AllocPool by simp
      qed
    next
      case (Ticker g)
      obtain g' where g: "gstep g (srv_portManager s) = Some (g', srv_portManager t)" "h' = Ticker g'"
        using step Ticker by (auto split: option.splits)
      then show ?thesis using background_step [of g "srv_portManager s" g' "srv_portManager t"] pl Ticker rec
          claims_less [OF c, of "srv_portManager t" h'] by simp
    next
      case (AllocFile ctx pod port)
      then have "srv_portManager t = srv_portManager s" "gives_up h' = gives_up h" "claim h' \<subseteq># claim h" "in_place h'"
        using step file_step [of ctx pod port s h' t]
        by (auto simp: calls_def split: prod.splits outcome.splits option.splits)
      then show ?thesis using claims_less [OF c, of "srv_portManager t" h'] rec AllocFile by simp
    next
      case (AllocMemory ctx pod port)
      then have t: "srv_portManager t = srv_portManager s" "h' = AllocDone (alloc_reply ctx port)"
        using step memory_step(1) [OF st(2), of ctx pod port] by (auto simp del: hstep.simps)
      have key: "pod_key pod \<notin> F" using alone AllocMemory by simp
      have "recorded (records t) F + K = recorded (gmap_delete (records s) (pod_key pod)) F + {#GetResourceId port#} + K"
        using recorded_put [OF gm key] rec AllocMemory by (simp add: new_record_def)
      also have "\<dots> \<subseteq># recorded (records s) F + {#GetResourceId port#} + K"
        using recorded_split [OF gm, of F "pod_key pod"] by simp
      finally have "recorded (records t) (F \<union> gives_up h') + claim h' + K \<subseteq>#
          recorded (records s) (F \<union> gives_up h) + claim h + K" using t(2) AllocMemory by simp
      then show ?thesis using subset_mset.order_trans [OF _ c] t by simp
    next
      case (FreeRecord ctx pod)
      have t: "t = s" "h' = free_ports ctx pod (pr_Resources (record_of (records s) (pod_key pod)))"
        using step FreeRecord getPodResource_memory [OF st, of "pod_key pod"] by (auto simp: moves_def)
      have "pod_key pod \<notin> F" "leaves_address pod" using alone calm FreeRecord by simp_all
      then show ?thesis
        using c t recorded_split [OF gm, of F "pod_key pod"] recorded_split [OF gm, of "insert (pod_key pod) F" "pod_key pod"]
          free_ports_target [of pod ctx] FreeRecord by (simp add: ac_simps)
    next
      case (FreePorts ctx pod items)
      have calm': "leaves_address pod" using calm FreePorts by simp
      show ?thesis
      proof (cases items)
        case Nil
        then show ?thesis using c step FreePorts free_ports_target [OF calm', of ctx] by auto
      next
        case (Cons i rest)
        obtain out q where rel: "Manager_Release (Some (pod_context ctx pod)) (ri_ID i) (srv_portManager s) = (out, q)"
          by fastforce
        have "out \<noteq> Halts Blocked" using step FreePorts Cons rel by (auto simp: moves_def srv_manager_run)
        moreover have "recorded (records s) (F \<union> gives_up h) + (add_mset (ri_ID i) (mset (map ri_ID rest)) + K) \<subseteq>#
            inuse_ids (srv_portManager s)" using c FreePorts Cons by (simp add: ac_simps)
        ultimately have "out = Returns None"
          "recorded (records s) (F \<union> gives_up h) + (mset (map ri_ID rest) + K) \<subseteq># inuse_ids q"
          using release_claims [OF safe rel] by blast+
        moreover from this(1) have "h' = free_ports ctx pod rest" "t = s\<lparr>srv_portManager := q\<rparr>"
          using step FreePorts Cons rel by (simp_all add: moves_def srv_manager_run)
        ultimately show ?thesis using rec free_ports_target [OF calm', of ctx rest] FreePorts by (simp add: ac_simps)
      qed
    next
      case (FreeFile ctx pod)
      then have "srv_portManager t = srv_portManager s" "gives_up h' = gives_up h" "claim h' = {#}" "in_place h'"
        using step file_step [of ctx pod undefined s h' t]
        by (auto simp: calls_def srv_disk_run dest!: erase_works [OF db] split: prod.splits outcome.splits)
      then show ?thesis using claims_less [OF c, of "srv_portManager t" h'] rec FreeFile by simp
    next
      case (FreeMemory ctx pod)
      then have t: "srv_portManager t = srv_portManager s" "h' = FreeDone (free_reply ctx)"
        using step memory_step(2) [OF st(2), of ctx pod] by (auto simp del: hstep.simps)
      have "recorded (records s) (insert (pod_key pod) F) = recorded (records t) F"
        using recorded_split [OF gm, of "insert (pod_key pod) F" "pod_key pod"] rec FreeMemory by simp
      then show ?thesis using c t FreeMemory by simp
    qed (use step False in auto)
  qed
qed

subsection \<open>Runs with one handler per pod\<close>

definition key_of :: "handler \<Rightarrow> string option" where
  "key_of h = map_option (\<lambda>pod. pod_key pod) (pod_of h)"

definition one_per_pod :: "handler list \<Rightarrow> bool" where
  "one_per_pod hs \<longleftrightarrow> (\<forall>i<length hs. \<forall>j<length hs. i \<noteq> j \<longrightarrow> key_of (hs ! i) = None \<or> key_of (hs ! i) \<noteq> key_of (hs ! j))"

inductive serial_step :: "('w, 'b) daemon \<Rightarrow> ('w, 'b) daemon \<Rightarrow> bool" where
  "daemon_step (s, hs) (t, ks) \<Longrightarrow> one_per_pod ks \<Longrightarrow> serial_step (s, hs) (t, ks)"

inductive_simps serial_step_iff: "serial_step (s, hs) (t, ks)"

text \<open>No pod the API server knows keeps its address after its release.\<close>

definition no_sticky_pods :: "'w K8s \<Rightarrow> bool" where
  "no_sticky_pods k \<longleftrightarrow>
     (\<forall>ns name w pod w'. pods_Get (k8s_client k) ns name w = (Returns (Inr pod), w') \<longrightarrow> leaves_address pod)"

lemma pod_of_targets [simp]:
  "pod_of (alloc_error e) = None" "pod_of (start_allocate P ctx pod old) = None \<or> pod_of (start_allocate P ctx pod old) = Some pod"
  "pod_of (after_subnet ctx pod ports subnet) = Some pod" "pod_of (after_pool ctx pod g) = None \<or> pod_of (after_pool ctx pod g) = Some pod"
  "pod_of (free_ports ctx pod items) = None \<or> pod_of (free_ports ctx pod items) = Some pod"
  by (simp_all add: alloc_error_def start_allocate_def after_subnet_def free_ports_def after_pool_def
      split: outcome.split bool.split goroutine.split sum.split)

lemma after_call_pod:
  assumes "calls m next h s = Some (h', t) \<or> moves m next h s = Some (h', t)"
    and "\<And>a. pod_of (next a) \<in> {None, pod_of h}"
  shows "pod_of h' \<in> {None, pod_of h}"
proof -
  from assms(1) obtain out where "(\<exists>a. h' = next a) \<or> h' = Halted h" by (metis calls_cases moves_cases)
  then show ?thesis using assms(2) by auto
qed

lemma hstep_pod:
  assumes step: "hstep h s = Some (h', t)"
  shows "pod_of h' \<in> {None, pod_of h} \<or> (\<exists>pod ns name w w'. pod_of h' = Some pod \<and>
      pods_Get (k8s_client (srv_k8s s)) ns name w = (Returns (Inr pod), w'))"
proof (cases h)
  case (AllocEnter ctx r)
  then show ?thesis using step
    by (auto simp: calls_def srv_GetPod_run split: prod.splits outcome.splits sum.splits)
next
  case (FreeEnter ctx r)
  then show ?thesis using step
    by (auto simp: calls_def srv_GetPod_run split: prod.splits outcome.splits sum.splits)
next
  case (AllocRecord ctx pod)
  show ?thesis
    by (rule disjI1, rule after_call_pod [OF disjI2 [OF step [unfolded AllocRecord hstep.simps, folded AllocRecord]]])
      (use AllocRecord in \<open>simp split: sum.split\<close>)
next
  case (AllocList ctx pod)
  show ?thesis
    by (rule disjI1, rule after_call_pod [OF disjI1 [OF step [unfolded AllocList hstep.simps, folded AllocList]]])
      (use AllocList in \<open>simp split: prod.split option.split\<close>)
next
  case (AllocSubnet ctx pod ports)
  show ?thesis
    by (rule disjI1, rule after_call_pod [OF disjI1 [OF step [unfolded AllocSubnet hstep.simps, folded AllocSubnet]]])
      (use AllocSubnet in \<open>simp split: sum.split\<close>)
next
  case (AllocIdle ctx pod)
  show ?thesis
    by (rule disjI1, rule after_call_pod [OF disjI2 [OF step [unfolded AllocIdle hstep.simps, folded AllocIdle]]])
      (use AllocIdle in \<open>simp split: option.split\<close>)
next
  case (FreePorts ctx pod items)
  then show ?thesis
  proof (cases items)
    case Nil
    then show ?thesis using step FreePorts pod_of_targets(5) [of ctx pod "[]"] by auto
  next
    case (Cons i rest)
    show ?thesis
      by (rule disjI1, rule after_call_pod [OF disjI2 [OF step [unfolded FreePorts Cons hstep.simps, folded Cons, folded FreePorts]]])
        (use FreePorts in \<open>simp split: option.split\<close>)
  qed
next
  case (AllocPool ctx pod g)
  then obtain g' where "h' = after_pool ctx pod g'" using step by (auto split: option.splits)
  then show ?thesis using AllocPool pod_of_targets(4) [of ctx pod g'] by (auto simp del: pod_of_targets)
next
  case (FreeRecord ctx pod)
  show ?thesis
    by (rule disjI1, rule after_call_pod [OF disjI2 [OF step [unfolded FreeRecord hstep.simps, folded FreeRecord]]])
      (use FreeRecord in \<open>simp split: sum.split\<close>)
qed (use step in \<open>auto simp: calls_def moves_def split: prod.splits outcome.splits halt.splits sum.splits option.splits\<close>)

lemma end_context_same [simp]:
  "gives_up (end_context b e h) = gives_up h" "claim (end_context b e h) = claim h"
  "pod_of (end_context b e h) = pod_of h" "in_place (end_context b e h) = in_place h"
proof -
  have "acquiring (end_acquire b e g) = acquiring g" "(end_acquire b e g = AcquireDone r) = (g = AcquireDone r)" for g r
    by (cases g; simp)+
  then show "gives_up (end_context b e h) = gives_up h" "claim (end_context b e h) = claim h"
    "pod_of (end_context b e h) = pod_of h" "in_place (end_context b e h) = in_place h"
    by (cases h; simp)+
qed

lemma request_same: "is_request h \<Longrightarrow> gives_up h = {} \<and> claim h = {#} \<and> pod_of h = None \<and> in_place h"
  by (cases h) auto

text \<open>
  The invariant of serial runs: the daemon is in order, the claims are among the ports in use,
  handlers run what they are meant to run, and work for pods that leave their address.
\<close>

definition owned :: "('w \<Rightarrow> string set) \<Rightarrow> ('w, 'b) daemon \<Rightarrow> bool" where
  "owned issued c \<longleftrightarrow>
     (\<exists>z. daemon_kept issued z c) \<and> claims (snd c) (records (fst c)) \<subseteq># inuse_ids (srv_portManager (fst c)) \<and>
     (\<forall>h \<in> set (snd c). in_place h \<and> (\<forall>pod. pod_of h = Some pod \<longrightarrow> leaves_address pod)) \<and>
     one_per_pod (snd c) \<and> no_sticky_pods (srv_k8s (fst c)) \<and> deletes_work (ds_db (srv_resourceDB (fst c)))"

lemma one_per_pod_apart:
  assumes "one_per_pod hs" "i < length hs" "pod_of (hs ! i) = Some pod"
    and F: "\<forall>k \<in> F. \<exists>j < length hs. j \<noteq> i \<and> k \<in> gives_up (hs ! j)"
  shows "pod_key pod \<notin> F"
proof
  assume "pod_key pod \<in> F"
  then obtain j where j: "j < length hs" "j \<noteq> i" "pod_key pod \<in> gives_up (hs ! j)" using F by blast
  then have "key_of (hs ! j) = Some (pod_key pod)" using gives_up_pod [OF j(3)] by (auto simp: key_of_def)
  moreover have "key_of (hs ! i) = Some (pod_key pod)" using assms(3) by (simp add: key_of_def)
  ultimately show False using assms(1,2) j(1,2) unfolding one_per_pod_def by (metis option.distinct(1))
qed

lemma owned_run:
  assumes o: "owned issued (s, hs)" and i: "i < length hs" and step: "hstep (hs ! i) s = Some (h, t)"
    and one: "one_per_pod (hs[i := h])"
  shows "owned issued (t, hs[i := h])"
proof -
  note o' = o [unfolded owned_def fst_conv snd_conv]
  obtain z where z: "daemon_kept issued z (s, hs)" using o' by blast
  note d = daemon_keptD [OF z]
  have st: "daemon_step (s, hs) (t, hs[i := h])" by (rule daemon_step.run [OF i step])
  note kept = daemon_step_kept [OF st z]
  obtain n C where h: "dues hs = due (hs ! i) + n" "hands hs = in_hand (hs ! i) + C"
    using handlers_at [OF i] by metis
  have mem: "hs ! i \<in> set hs" using i by simp
  obtain F K where c: "\<forall>h. claims (hs[i := h]) (records t) = recorded (records t) (F \<union> gives_up h) + claim h + K"
    and F: "\<forall>k \<in> F. \<exists>j < length hs. j \<noteq> i \<and> k \<in> gives_up (hs ! j)"
    and c': "claims hs (records s) = recorded (records s) (F \<union> gives_up (hs ! i)) + claim (hs ! i) + K"
    using i by (rule claims_both)
  have k: "pool_kept issued (int (dues hs) + z) (in_hand (hs ! i) + C) (srv_portManager s)" using d(1) h(2) by simp
  have new: "recorded (records t) (F \<union> gives_up h) + claim h + K \<subseteq># inuse_ids (srv_portManager t) \<and> in_place h"
    by (rule hstep_claims [OF k d(3,4) _ _ _ _ _ step])
      (use o' mem c' one_per_pod_apart [OF _ i _ F] in auto)
  have pod: "leaves_address pod" if "pod_of h = Some pod" for pod
  proof -
    have "pod_of (hs ! i) = Some pod \<or>
        (\<exists>ns name w w'. pods_Get (k8s_client (srv_k8s s)) ns name w = (Returns (Inr pod), w'))"
      using hstep_pod [OF step] that by auto
    then show ?thesis using o' mem unfolding no_sticky_pods_def by blast
  qed
  have "\<forall>g \<in> set (hs[i := h]). in_place g \<and> (\<forall>pod. pod_of g = Some pod \<longrightarrow> leaves_address pod)"
    using o' new pod set_update_subset_insert [of hs i h] by blast
  then show ?thesis
    using kept o' one new c unfolding owned_def fst_conv snd_conv same_server_def by auto
qed

lemma owned_step:
  assumes "serial_step (s, hs) (t, ks)" and o: "owned issued (s, hs)"
  shows "owned issued (t, ks)"
proof -
  have one: "one_per_pod ks" and step: "daemon_step (s, hs) (t, ks)" using assms(1) by (simp_all add: serial_step_iff)
  note o' = o [unfolded owned_def fst_conv snd_conv]
  obtain z where z: "daemon_kept issued z (s, hs)" using o' by blast
  note kept = daemon_step_kept(1) [OF step z]
  from step show ?thesis
  proof (cases rule: daemon_step_cases)
    case (run i h)
    then show ?thesis using owned_run [OF o run(2,3)] one by simp
  next
    case (request h)
    have "claims ks m = claims hs m" for m
      using request_same [OF request(1)] request(3) by (simp add: claims_def given_up_def)
    then show ?thesis using o' one kept request request_same [OF request(1)]
      unfolding owned_def fst_conv snd_conv by auto
  next
    case (ends i b e)
    obtain F K where c: "\<forall>h. claims (hs[i := h]) (records s) = recorded (records s) (F \<union> gives_up h) + claim h + K"
      "claims hs (records s) = recorded (records s) (F \<union> gives_up (hs ! i)) + claim (hs ! i) + K"
      using claims_both [OF ends(1), of "records s" "records s"] by metis
    have "claims ks (records s) = claims hs (records s)" using c ends(3) by simp
    moreover have "\<forall>g \<in> set ks. in_place g \<and> (\<forall>pod. pod_of g = Some pod \<longrightarrow> leaves_address pod)"
    proof
      fix g
      assume "g \<in> set ks"
      then have "g \<in> set hs \<or> g = end_context b e (hs ! i)"
        using set_update_subset_insert [of hs i "end_context b e (hs ! i)"] ends(3) by blast
      then show "in_place g \<and> (\<forall>pod. pod_of g = Some pod \<longrightarrow> leaves_address pod)"
        using o' nth_mem [OF ends(1)] by auto
    qed
    ultimately show ?thesis using o' one kept ends(2) unfolding owned_def fst_conv snd_conv by auto
  qed
qed

lemma owned_steps:
  assumes "serial_step\<^sup>*\<^sup>* (s, hs) (t, ks)" "owned issued (s, hs)"
  shows "owned issued (t, ks)"
  using assms by (induction rule: rtranclp_induct2) (blast intro: owned_step)+

text \<open>What the invariant says about ports and pods.\<close>

lemma claims_apart:
  assumes c: "claims hs m \<subseteq># I" and one: "\<forall>x. count I x \<le> 1" and gm: "gmap_ok m"
    and a: "names m a rid" "a \<notin> given_up hs"
  shows "rid \<in># I" "names m b rid \<Longrightarrow> b \<notin> given_up hs \<Longrightarrow> b = a" "h \<in> set hs \<Longrightarrow> rid \<notin># claim h"
proof -
  define ids where "ids k = mset (map ri_ID (pr_Resources (record_of m k)))" for k
  have ids: "names m k rid \<longleftrightarrow> 0 < count (ids k) rid" for k
    unfolding names_def ids_def count_greater_zero_iff by simp
  let ?G = "given_up hs" and ?H = "sum_list (map claim hs)"
  have split: "claims hs m = recorded (gmap_delete m a) ?G + ids a + ?H"
    using recorded_split [OF gm, of ?G a] a(2) by (simp add: claims_def ids_def)
  have pos: "0 < count (ids a) rid" using a(1) ids by simp
  then have "rid \<in># claims hs m" unfolding split by (simp add: count_greater_zero_iff)
  then show "rid \<in># I" using c mset_subset_eqD by metis
  have le: "count (claims hs m) rid \<le> 1" using mset_subset_eq_count [OF c, of rid] spec [OF one, of rid] by linarith
  show "b = a" if b: "names m b rid" "b \<notin> ?G"
  proof (rule ccontr)
    assume ne: "b \<noteq> a"
    have "record_of (gmap_delete m a) b = record_of m b" using ne by (simp add: record_of_def)
    then have "recorded (gmap_delete m a) ?G = recorded (gmap_delete (gmap_delete m a) b) ?G + ids b"
      using recorded_split [of "gmap_delete m a" ?G b] gm b(2) by (simp add: ids_def)
    then have "count (ids b) rid + count (ids a) rid \<le> count (claims hs m) rid" unfolding split by simp
    moreover have "0 < count (ids b) rid" using b(1) ids by simp
    ultimately show False using le pos by linarith
  qed
  show "rid \<notin># claim h" if h: "h \<in> set hs"
  proof
    assume "rid \<in># claim h"
    then have "rid \<in># ?H" using h by (induction hs) auto
    then have "0 < count ?H rid" by (rule count_greater_zero_iff [THEN iffD2])
    moreover have "count (ids a) rid + count ?H rid \<le> count (claims hs m) rid" unfolding split by simp
    ultimately show False using le pos by linarith
  qed
qed

end
