(* ===== verification/Daemon_Alone.thy ===== *)
theory Daemon_Alone
  imports Daemon_Claims
begin

section \<open>A handler that runs alone\<close>

text \<open>
  The steps of \<open>Daemon_Concurrency\<close>, taken one after the other with nobody else moving, are the
  handlers of \<open>Daemon\<close>. The link between the two is the rest of a handler: the piece of the
  method that is left at each point. A step from a point runs the first part of its rest.
\<close>

subsection \<open>The rest of a handler\<close>

definition give_token_back :: "error \<Rightarrow> ('e SimpleObjectPool, error + NetworkResource) go" where
  "give_token_back err =
     go_seq token_send (go_return (Inl (Errorf ''error create from factory: '' (Some err))))"

definition add_created :: "NetworkResource \<Rightarrow> ('e SimpleObjectPool, error + NetworkResource) go" where
  "add_created res = go_seq (AddInuse res) (go_return (Inr res))"

definition create_for_acquire :: "('e SimpleObjectPool, error + NetworkResource) go" where
  "create_for_acquire =
     go_bind (pool_Create '''') (\<lambda>r. case r of Inl err \<Rightarrow> give_token_back err | Inr res \<Rightarrow> add_created res)"

fun acquire_rest :: "goroutine \<Rightarrow> ('e SimpleObjectPool, error + NetworkResource) go" where
  "acquire_rest (AcquireEnter ctx rid) = Acquire ctx rid"
| "acquire_rest (AcquireSelect ctx) =
     go_bind (token_select ctx) (\<lambda>got. if got then create_for_acquire else go_return (Inl ErrContextDone))"
| "acquire_rest AcquireCreate = create_for_acquire"
| "acquire_rest (AcquireReturnToken err) = give_token_back err"
| "acquire_rest (AcquireAdd res) = add_created res"
| "acquire_rest (AcquireDone r) = go_return r"
| "acquire_rest g = go_halt Blocked"

definition alloc_put :: "Context \<Rightarrow> NetworkResource \<Rightarrow> error option \<Rightarrow> (('w, 'b) server, handler) go" where
  "alloc_put ctx port err = go_return (case err of
     Some e \<Rightarrow> AllocDone (Inl (Errorf ''error put resource into store'' (Some e)))
   | None \<Rightarrow> AllocDone (alloc_reply ctx port))"

definition alloc_finish ::
    "Context \<Rightarrow> KubePod \<Rightarrow> error + NetworkResource \<Rightarrow> (('w, 'b) server, handler) go" where
  "alloc_finish ctx pod allocated = (case allocated of
     Inl err \<Rightarrow> go_return (alloc_error err)
   | Inr port \<Rightarrow>
       go_bind (srv_db (\<lambda>db. st_Put db (pod_key pod) (new_record (convertPod pod) port))) (alloc_put ctx port))"

definition static_subnet ::
    "Context \<Rightarrow> KubePod \<Rightarrow> NPort list \<Rightarrow> ('w pool, error + NetworkResource) go" where
  "static_subnet ctx pod ports =
     go_bind (\<lambda>p. pool_call (\<lambda>c. GetSubnet c (pf_subnetID (env p))) p) (\<lambda>got. case got of
       Inl e \<Rightarrow> go_return (Inl (Errorf ''failed to get subnet'' (Some e)))
     | Inr subnet \<Rightarrow>
         (case occupied_by subnet (static_ip pod) ports of
            Halts h \<Rightarrow> go_halt h
          | Returns True \<Rightarrow> acquire_occupied ctx (static_ip pod)
          | Returns False \<Rightarrow> acquire_unoccupied ctx (static_ip pod)))"

definition static_list :: "Context \<Rightarrow> KubePod \<Rightarrow> ('w pool, error + NetworkResource) go" where
  "static_list ctx pod =
     go_bind (\<lambda>p. pool_call (\<lambda>c. ListPortWithFilter c
       \<lparr>lf_NetworkID = pf_netID (env p), lf_DeviceOwner = DeviceOwner, lf_DeviceID = '''',
        lf_Tags = ''''\<rparr>) p) (\<lambda>(ports, err). case err of
       Some e \<Rightarrow> go_return (Inl (Errorf ''failed to list ports allocated by rubble'' (Some e)))
     | None \<Rightarrow> static_subnet ctx pod ports)"

definition free_finish :: "Context \<Rightarrow> error option \<Rightarrow> (('w, 'b) server, handler) go" where
  "free_finish ctx err = go_return (case err of
     Some e \<Rightarrow> FreeDone (Inl (Errorf ''failed to delete key'' (Some e)))
   | None \<Rightarrow> FreeDone (free_reply ctx))"

definition free_record :: "Context \<Rightarrow> KubePod \<Rightarrow> (('w, 'b) server, handler) go" where
  "free_record ctx pod =
     (if leaves_address pod then go_bind (srv_db (\<lambda>db. st_Delete db (pod_key pod))) (free_finish ctx)
      else go_return (FreeDone (free_reply ctx)))"

definition free_all :: "Context \<Rightarrow> KubePod \<Rightarrow> ResourceItem list \<Rightarrow> (('w, 'b) server, handler) go" where
  "free_all ctx pod items =
     go_bind (release_all (pod_context ctx pod) items) (\<lambda>rel. case rel of
       Some err \<Rightarrow> go_return (FreeDone (Inl err))
     | None \<Rightarrow> free_record ctx pod)"

fun rest :: "handler \<Rightarrow> (('w, 'b) server, handler) go" where
  "rest (AllocEnter ctx r) = go_bind (AllocateIP ctx r) (\<lambda>a. go_return (AllocDone a))"
| "rest (AllocRecord ctx pod) =
     go_bind (getPodResource (pod_key pod)) (\<lambda>old. case old of
       Inl err \<Rightarrow> go_return (AllocDone (Inl (Errorf ''failed to get pod resources from db'' (Some err))))
     | Inr oldRes \<Rightarrow> go_bind (allocatePortIP (pod_context ctx pod) oldRes) (alloc_finish ctx pod))"
| "rest (AllocList ctx pod) = go_bind (srv_manager (static_list ctx pod)) (alloc_finish ctx pod)"
| "rest (AllocSubnet ctx pod ports) = go_bind (srv_manager (static_subnet ctx pod ports)) (alloc_finish ctx pod)"
| "rest (AllocIdle ctx pod) = go_bind (srv_manager (acquire_occupied ctx (static_ip pod))) (alloc_finish ctx pod)"
| "rest (AllocCreate ctx pod) = go_bind (srv_manager (acquire_unoccupied ctx (static_ip pod))) (alloc_finish ctx pod)"
| "rest (AllocAddIdle ctx pod res) =
     go_bind (srv_manager (go_seq (AddIdle res) (Acquire ctx (GetResourceId res)))) (alloc_finish ctx pod)"
| "rest (AllocPool ctx pod g) = go_bind (srv_manager (acquire_rest g)) (alloc_finish ctx pod)"
| "rest (AllocFile ctx pod port) = alloc_finish ctx pod (Inr port)"
| "rest (AllocMemory ctx pod port) =
     go_bind (srv_disk (ds_mem (Memory_Put (pod_key pod) (new_record (convertPod pod) port)))) (alloc_put ctx port)"
| "rest (FreeEnter ctx r) = go_bind (ReleaseIP ctx r) (\<lambda>a. go_return (FreeDone a))"
| "rest (FreeRecord ctx pod) =
     go_bind (getPodResource (pod_key pod)) (\<lambda>old. case old of
       Inl err \<Rightarrow> go_return (FreeDone (Inl (Errorf ''failed to get pod resources from db'' (Some err))))
     | Inr oldRes \<Rightarrow> free_all ctx pod (pr_Resources oldRes))"
| "rest (FreePorts ctx pod items) = free_all ctx pod items"
| "rest (FreeFile ctx pod) = go_bind (srv_db (\<lambda>db. st_Delete db (pod_key pod))) (free_finish ctx)"
| "rest (FreeMemory ctx pod) = go_bind (srv_disk (ds_mem (Memory_Delete (pod_key pod)))) (free_finish ctx)"
| "rest (AllocDone r) = go_return (AllocDone r)"
| "rest (FreeDone r) = go_return (FreeDone r)"
| "rest (Ticker g) = go_halt Blocked"
| "rest (Halted h) = go_halt Panicked"

subsection \<open>A step runs the first part of the rest\<close>

lemma go_bind_cong: "(\<And>a t. m s = (Returns a, t) \<Longrightarrow> f a t = g a t) \<Longrightarrow> go_bind m f s = go_bind m g s"
  by (simp split: prod.split outcome.split)

lemma go_bind_at: "m s = (Returns a, t) \<Longrightarrow> go_bind m f s = f a t"
  by simp

lemma attempt_rest:
  assumes "attempt m next k s = Some (g, u)" "acquire_rest h s = go_bind m (\<lambda>a. acquire_rest (next a)) s"
  shows "acquire_rest h s = (Returns r, t) \<longleftrightarrow> acquire_rest g u = (Returns r, t)"
  using assms by (auto simp: attempt_def split: prod.splits outcome.splits halt.splits)

lemma call_out_rest:
  assumes "call_out m next k s = Some (g, u)" "acquire_rest h s = go_bind m (\<lambda>a. acquire_rest (next a)) s"
  shows "acquire_rest h s = (Returns r, t) \<longleftrightarrow> acquire_rest g u = (Returns r, t)"
  using assms by (auto simp: call_out_def split: prod.splits outcome.splits)

lemma attempt_none:
  assumes "attempt m next k s = None" "acquire_rest h s = go_bind m (\<lambda>a. acquire_rest (next a)) s"
  shows "acquire_rest h s \<noteq> (Returns r, t)"
  using assms by (auto simp: attempt_def split: prod.splits outcome.splits halt.splits)

text \<open>The equations of the rest of \<open>Acquire\<close>, point by point.\<close>

lemma acquire_rest_first:
  "acquire_rest (AcquireEnter ctx rid) s = go_bind (acquire_section rid) (\<lambda>a. acquire_rest (case a of
       Found res \<Rightarrow> AcquireDone (Inr res)
     | PoolFull \<Rightarrow> AcquireDone (Inl ErrNoAvailableResource)
     | Room \<Rightarrow> AcquireSelect ctx)) s"
  "acquire_rest (AcquireSelect ctx) s = go_bind (token_select ctx) (\<lambda>a. acquire_rest (
     if a then AcquireCreate else AcquireDone (Inl ErrContextDone))) s"
  "acquire_rest AcquireCreate s = go_bind (pool_Create '''') (\<lambda>a. acquire_rest (case a of
     Inl err \<Rightarrow> AcquireReturnToken err | Inr res \<Rightarrow> AcquireAdd res)) s"
  "acquire_rest (AcquireReturnToken err) s = go_bind token_send (\<lambda>a. acquire_rest (
     AcquireDone (Inl (Errorf ''error create from factory: '' (Some err))))) s"
  "acquire_rest (AcquireAdd res) s = go_bind (AddInuse res) (\<lambda>a. acquire_rest (AcquireDone (Inr res))) s"
proof -
  show "acquire_rest (AcquireEnter ctx rid) s = go_bind (acquire_section rid) (\<lambda>a. acquire_rest (case a of
       Found res \<Rightarrow> AcquireDone (Inr res)
     | PoolFull \<Rightarrow> AcquireDone (Inl ErrNoAvailableResource)
     | Room \<Rightarrow> AcquireSelect ctx)) s"
    unfolding acquire_rest.simps Acquire_sections
    by (rule go_bind_cong) (auto simp: create_for_acquire_def give_token_back_def [abs_def] add_created_def [abs_def]
        simp del: go_bind_run cong: if_cong split: acquired.split)
qed (auto simp: create_for_acquire_def give_token_back_def add_created_def go_seq_def intro!: go_bind_cong
    simp del: go_bind_run split: sum.split)

lemma acquire_rest_step:
  assumes "acquiring g" "gstep g s = Some (g', u)"
  shows "acquire_rest g s = (Returns r, t) \<longleftrightarrow> acquire_rest g' u = (Returns r, t)"
proof (cases g)
  case (AcquireEnter ctx rid)
  show ?thesis
    using attempt_rest [OF assms(2) [unfolded AcquireEnter gstep.simps] acquire_rest_first(1)] AcquireEnter by simp
next
  case (AcquireSelect ctx)
  show ?thesis
    using attempt_rest [OF assms(2) [unfolded AcquireSelect gstep.simps] acquire_rest_first(2)] AcquireSelect by simp
next
  case AcquireCreate
  show ?thesis
    using call_out_rest [OF assms(2) [unfolded AcquireCreate gstep.simps] acquire_rest_first(3)] AcquireCreate by simp
next
  case (AcquireReturnToken e)
  show ?thesis
    using attempt_rest [OF assms(2) [unfolded AcquireReturnToken gstep.simps] acquire_rest_first(4)] AcquireReturnToken
    by simp
next
  case (AcquireAdd res)
  show ?thesis
    using attempt_rest [OF assms(2) [unfolded AcquireAdd gstep.simps] acquire_rest_first(5)] AcquireAdd by simp
qed (use assms in auto)

lemma acquire_rest_stops:
  assumes "acquiring g" "gstep g s = None" "\<nexists>r. g = AcquireDone r"
  shows "acquire_rest g s \<noteq> (Returns r, t)"
proof (cases g)
  case (AcquireEnter ctx rid)
  show ?thesis
    using attempt_none [OF assms(2) [unfolded AcquireEnter gstep.simps] acquire_rest_first(1)] AcquireEnter by simp
next
  case (AcquireSelect ctx)
  show ?thesis
    using attempt_none [OF assms(2) [unfolded AcquireSelect gstep.simps] acquire_rest_first(2)] AcquireSelect by simp
next
  case AcquireCreate
  then show ?thesis using assms(2) by (simp add: call_out_def split: prod.splits outcome.splits)
next
  case (AcquireReturnToken e)
  show ?thesis
    using attempt_none [OF assms(2) [unfolded AcquireReturnToken gstep.simps] acquire_rest_first(4)] AcquireReturnToken
    by simp
next
  case (AcquireAdd res)
  show ?thesis
    using attempt_none [OF assms(2) [unfolded AcquireAdd gstep.simps] acquire_rest_first(5)] AcquireAdd by simp
qed (use assms in auto)

lemma acquiring_next:
  assumes "acquiring g" "gstep g s = Some (g', u)"
  shows "acquiring g'"
  using assms by (cases g)
    (auto dest!: attempt_next call_out_next split: acquired.splits sum.splits if_splits)

text \<open>The same for handlers.\<close>

lemma moves_rest:
  assumes "moves m next h s = Some (h', u)" "rest h s = go_bind m (\<lambda>a. rest (next a)) s"
  shows "rest h s = (Returns f, t) \<longleftrightarrow> rest h' u = (Returns f, t)"
  using assms by (auto simp: moves_def split: prod.splits outcome.splits halt.splits)

lemma calls_rest:
  assumes "calls m next h s = Some (h', u)" "rest h s = go_bind m (\<lambda>a. rest (next a)) s"
  shows "rest h s = (Returns f, t) \<longleftrightarrow> rest h' u = (Returns f, t)"
  using assms by (auto simp: calls_def split: prod.splits outcome.splits)

lemma moves_none:
  assumes "moves m next h s = None" "rest h s = go_bind m (\<lambda>a. rest (next a)) s"
  shows "rest h s \<noteq> (Returns f, t)"
  using assms by (auto simp: moves_def split: prod.splits outcome.splits halt.splits)

lemma calls_move: "calls m next h s \<noteq> None"
  by (simp add: calls_def split: prod.splits outcome.splits)

lemma srv_manager_bind:
  "srv_manager (go_bind m f) s = go_bind (srv_manager m) (\<lambda>a. srv_manager (f a)) s"
  by (simp add: srv_manager_run split: prod.split outcome.split)

lemma srv_manager_return: "srv_manager (go_return a) = go_return a"
  by (rule ext) (simp add: srv_manager_run)

lemma go_bind_assoc: "go_bind (go_bind m f) g s = go_bind m (\<lambda>a. go_bind (f a) g) s"
  by (simp split: prod.split outcome.split)

lemma manager_first:
  "go_bind (srv_manager (go_bind m f)) g s = go_bind (srv_manager m) (\<lambda>a. go_bind (srv_manager (f a)) g) s"
  by (simp add: srv_manager_run split: prod.split outcome.split)

text \<open>The equations of the rest of a handler, point by point.\<close>

lemma rest_alloc_enter:
  "rest (AllocEnter ctx r) s = go_bind (srv_kube (\<lambda>k. GetPod k (ar_K8SPodNamespace r) (ar_K8SPodName r)))
     (\<lambda>got. rest (case got of
       Inl err \<Rightarrow> AllocDone (Inl (Errorf ''error get pod info'' (Some err)))
     | Inr (podInfo, pod) \<Rightarrow> AllocRecord ctx pod)) s"
proof -
  have finish: "go_bind (case allocated of
         Inl err \<Rightarrow> go_return (Inl (Errorf ''error get allocated port'' (Some err)))
       | Inr port \<Rightarrow> go_bind (srv_db (\<lambda>db. st_Put db (pod_key pod)
           \<lparr>pr_Resources = [\<lparr>ri_Type = GetType port, ri_ID = GetResourceId port\<rparr>],
            pr_PodInfo = Some (convertPod pod)\<rparr>)) (\<lambda>put. case put of
           Some err \<Rightarrow> go_return (Inl (Errorf ''error put resource into store'' (Some err)))
         | None \<Rightarrow> (case NetConfFromPort port of
              Inl err \<Rightarrow> go_return (Inl err)
            | Inr conf \<Rightarrow> (case ctx_Err ctx of
                 Some err \<Rightarrow> go_return (Inl (Errorf ''error on grpc connection'' (Some err)))
               | None \<Rightarrow> go_return (Inr \<lparr>ap_Success = True, ap_IPType = TypeENIMultiIP, ap_IPv4 = True,
                   ap_IPv6 = False, ap_NetConfs = conf, ap_EnableTrunking = False\<rparr>)))))
       (\<lambda>a. go_return (AllocDone a)) t = alloc_finish ctx pod allocated t" for allocated pod and t :: "('a, 'b) server"
    by (simp add: alloc_finish_def alloc_error_def alloc_put_def alloc_reply_def new_record_def
        split: sum.split option.split prod.split outcome.split)
  obtain o1 w where g: "pods_Get (k8s_client (srv_k8s s)) (ar_K8SPodNamespace r) (ar_K8SPodName r)
      (pf_world (env (srv_portManager s))) = (o1, w)" by fastforce
  show ?thesis
  proof (cases "\<exists>pod. o1 = Returns (Inr pod)")
    case False
    then show ?thesis using g by (auto simp: AllocateIP_def srv_GetPod_run split: outcome.split sum.split)
  next
    case True
    then obtain pod where pod: "o1 = Returns (Inr pod)" by blast
    let ?get = "srv_kube (\<lambda>k. GetPod k (ar_K8SPodNamespace r) (ar_K8SPodName r))"
    have k: "?get s =
        (Returns (Inr (convertPod pod, pod)), at_world w s)"
      using g pod by (simp add: srv_GetPod_run)
    show ?thesis
      unfolding rest.simps AllocateIP_def go_bind_assoc go_bind_at [of ?get s, OF k] sum.case prod.case
    proof (rule go_bind_cong, goal_cases)
      case (1 old t)
      show ?case
      proof (cases old)
        case (Inr oldRes)
        show ?thesis unfolding Inr sum.case go_bind_assoc pod_context_def by (rule go_bind_cong) (rule finish)
      qed simp
    qed
  qed
qed

lemma rest_free_enter:
  "rest (FreeEnter ctx r) s = go_bind (srv_kube (\<lambda>k. GetPod k (rr_K8SPodNamespace r) (rr_K8SPodName r)))
     (\<lambda>got. rest (case got of
       Inl err \<Rightarrow> FreeDone (Inl (Errorf ''error get pod info'' (Some err)))
     | Inr (podInfo, pod) \<Rightarrow> FreeRecord ctx pod)) s"
proof -
  have finish: "go_bind (case rel of
         Some err \<Rightarrow> go_return (Inl err)
       | None \<Rightarrow> go_bind (if pi_IpStickTime (convertPod pod) = 0
                       then srv_db (\<lambda>db. st_Delete db (pod_key pod)) else go_return None) (\<lambda>del. case del of
           Some err \<Rightarrow> go_return (Inl (Errorf ''failed to delete key'' (Some err)))
         | None \<Rightarrow> (case ctx_Err ctx of
              Some err \<Rightarrow> go_return (Inl (Errorf ''error on grpc connection'' (Some err)))
            | None \<Rightarrow> go_return (Inr \<lparr>rl_Success = True, rl_IPv4Addr = None, rl_DeviceNumber = 0,
                rl_IPv4 = False, rl_IPv6 = False\<rparr>))))
       (\<lambda>a. go_return (FreeDone a)) t =
     (case rel of Some err \<Rightarrow> go_return (FreeDone (Inl err)) | None \<Rightarrow> free_record ctx pod) t"
    for rel pod and t :: "('a, 'b) server"
    by (simp add: free_record_def free_finish_def free_reply_def leaves_address_def
        split: option.split prod.split outcome.split)
  obtain o1 w where g: "pods_Get (k8s_client (srv_k8s s)) (rr_K8SPodNamespace r) (rr_K8SPodName r)
      (pf_world (env (srv_portManager s))) = (o1, w)" by fastforce
  show ?thesis
  proof (cases "\<exists>pod. o1 = Returns (Inr pod)")
    case False
    then show ?thesis using g by (auto simp: ReleaseIP_def srv_GetPod_run split: outcome.split sum.split)
  next
    case True
    then obtain pod where pod: "o1 = Returns (Inr pod)" by blast
    let ?get = "srv_kube (\<lambda>k. GetPod k (rr_K8SPodNamespace r) (rr_K8SPodName r))"
    have k: "?get s = (Returns (Inr (convertPod pod, pod)), at_world w s)"
      using g pod by (simp add: srv_GetPod_run)
    show ?thesis
      unfolding rest.simps ReleaseIP_def go_bind_assoc go_bind_at [of ?get s, OF k] sum.case prod.case
    proof (rule go_bind_cong, goal_cases)
      case (1 old t)
      show ?case
      proof (cases old)
        case (Inr oldRes)
        show ?thesis unfolding Inr sum.case go_bind_assoc free_all_def pod_context_def
          by (rule go_bind_cong) (rule finish)
      qed simp
    qed
  qed
qed

lemma rest_alloc_error [simp]: "rest (alloc_error e) = go_return (alloc_error e)"
  by (simp add: alloc_error_def)

lemma rest_start_allocate:
  fixes s :: "('w, 'b) server"
  shows "go_bind (allocatePortIP (pod_context ctx pod) oldRes) (alloc_finish ctx pod) s =
   rest (start_allocate (srv_ParseIP s) ctx pod oldRes) s"
proof -
  have "(Manager_Allocate (srv_ParseIP s) (pod_context ctx pod) rid :: ('w pool, error + NetworkResource) go) =
     (if \<not> requireStaticIP (pod_context ctx pod) then Acquire ctx rid
      else if static_ip pod = '''' then go_return (Inl (Errorf ''IP address is not valid'' None))
      else if \<not> srv_ParseIP s (static_ip pod)
      then go_return (Inl (Errorf ''failed to parse ip with annotation'' None))
      else static_list ctx pod)" for rid
    unfolding Manager_Allocate_def acquireStaticAddress_def static_list_def static_subnet_def pod_context_def
      static_ip_def Let_def ResourceContext.select_convs by simp
  then show ?thesis
    by (simp add: allocatePortIP_def start_allocate_def alloc_finish_def srv_manager_return)
qed

lemma occupied_by_panics: "occupied_by subnet ip ports = Halts h \<Longrightarrow> h = Panicked"
  by (induction ports) (auto simp: ConvertPort_def split: outcome.splits if_splits list.splits)

lemma srv_manager_halt: "srv_manager (go_halt h) = go_halt h"
  by (rule ext) (simp add: srv_manager_run)

lemma rest_manager:
  "rest (AllocList ctx pod) s = go_bind (srv_manager (\<lambda>p. pool_call (\<lambda>c. ListPortWithFilter c
       \<lparr>lf_NetworkID = pf_netID (env p), lf_DeviceOwner = DeviceOwner, lf_DeviceID = '''',
        lf_Tags = ''''\<rparr>) p)) (\<lambda>a. rest ((\<lambda>(ports, err). case err of
       Some e \<Rightarrow> alloc_error (Errorf ''failed to list ports allocated by rubble'' (Some e))
     | None \<Rightarrow> AllocSubnet ctx pod ports) a)) s"
  "rest (AllocSubnet ctx pod ports) s =
     go_bind (srv_manager (\<lambda>p. pool_call (\<lambda>c. GetSubnet c (pf_subnetID (env p))) p)) (\<lambda>a. rest (case a of
       Inl e \<Rightarrow> alloc_error (Errorf ''failed to get subnet'' (Some e))
     | Inr subnet \<Rightarrow> after_subnet ctx pod ports subnet)) s"
  "rest (AllocIdle ctx pod) s =
     go_bind (srv_manager (\<lambda>p. go_deref (GetIdle p) p)) (\<lambda>a. rest (case idle_with_ip (static_ip pod) a of
       Some res \<Rightarrow> AllocPool ctx pod (AcquireEnter ctx (GetResourceId res))
     | None \<Rightarrow> alloc_error (Errorf ''IP address is occupied by port but not in pool idle queue'' None))) s"
  "rest (AllocCreate ctx pod) s =
     go_bind (srv_manager (pool_Create (static_ip pod))) (\<lambda>a. rest (case a of
       Inl e \<Rightarrow> alloc_error (Errorf ''IP address is not valid'' None)
     | Inr res \<Rightarrow> AllocAddIdle ctx pod res)) s"
  "rest (AllocAddIdle ctx pod res) s =
     go_bind (srv_manager (AddIdle res)) (\<lambda>a. rest (AllocPool ctx pod (AcquireEnter ctx (GetResourceId res)))) s"
proof -
  have err: "go_bind (srv_manager (go_return (Inl e))) (alloc_finish ctx pod) t = rest (alloc_error e) t" for e t
    by (simp add: srv_manager_return alloc_finish_def alloc_error_def)
  show "rest (AllocList ctx pod) s = go_bind (srv_manager (\<lambda>p. pool_call (\<lambda>c. ListPortWithFilter c
       \<lparr>lf_NetworkID = pf_netID (env p), lf_DeviceOwner = DeviceOwner, lf_DeviceID = '''',
        lf_Tags = ''''\<rparr>) p)) (\<lambda>a. rest ((\<lambda>(ports, err). case err of
       Some e \<Rightarrow> alloc_error (Errorf ''failed to list ports allocated by rubble'' (Some e))
     | None \<Rightarrow> AllocSubnet ctx pod ports) a)) s"
    unfolding rest.simps static_list_def manager_first
    by (rule go_bind_cong) (auto simp: err simp del: go_bind_run split: option.split)
  show "rest (AllocSubnet ctx pod ports) s =
     go_bind (srv_manager (\<lambda>p. pool_call (\<lambda>c. GetSubnet c (pf_subnetID (env p))) p)) (\<lambda>a. rest (case a of
       Inl e \<Rightarrow> alloc_error (Errorf ''failed to get subnet'' (Some e))
     | Inr subnet \<Rightarrow> after_subnet ctx pod ports subnet)) s"
    unfolding rest.simps static_subnet_def manager_first
  proof (rule go_bind_cong, goal_cases)
    case (1 got t)
    show ?case
    proof (cases got)
      case (Inr subnet)
      then show ?thesis
        using occupied_by_panics [of subnet "static_ip pod" ports]
        by (auto simp: after_subnet_def srv_manager_halt simp del: go_bind_run split: outcome.split bool.split)
          (simp_all add: srv_manager_halt)
    qed (simp add: err del: go_bind_run)
  qed
  show "rest (AllocIdle ctx pod) s =
     go_bind (srv_manager (\<lambda>p. go_deref (GetIdle p) p)) (\<lambda>a. rest (case idle_with_ip (static_ip pod) a of
       Some res \<Rightarrow> AllocPool ctx pod (AcquireEnter ctx (GetResourceId res))
     | None \<Rightarrow> alloc_error (Errorf ''IP address is occupied by port but not in pool idle queue'' None))) s"
    unfolding rest.simps acquire_occupied_def manager_first
    by (rule go_bind_cong) (auto simp: err simp del: go_bind_run split: option.split)
  show "rest (AllocCreate ctx pod) s =
     go_bind (srv_manager (pool_Create (static_ip pod))) (\<lambda>a. rest (case a of
       Inl e \<Rightarrow> alloc_error (Errorf ''IP address is not valid'' None)
     | Inr res \<Rightarrow> AllocAddIdle ctx pod res)) s"
    unfolding rest.simps acquire_unoccupied_def manager_first
    by (rule go_bind_cong) (auto simp: err simp del: go_bind_run split: sum.split)
  show "rest (AllocAddIdle ctx pod res) s =
     go_bind (srv_manager (AddIdle res)) (\<lambda>a. rest (AllocPool ctx pod (AcquireEnter ctx (GetResourceId res)))) s"
    unfolding rest.simps go_seq_def manager_first by simp
qed

lemma rest_pool:
  assumes "acquiring g" "gstep g (srv_portManager s) = Some (g', p)"
  shows "rest (AllocPool ctx pod g) s = (Returns f, t) \<longleftrightarrow>
    rest (after_pool ctx pod g') (s\<lparr>srv_portManager := p\<rparr>) = (Returns f, t)"
proof -
  have run: "go_bind (srv_manager m) k s = (Returns f, t) \<longleftrightarrow>
      (\<exists>r q. m (srv_portManager s) = (Returns r, q) \<and> k r (s\<lparr>srv_portManager := q\<rparr>) = (Returns f, t))"
    for m :: "('a pool, error + NetworkResource) go" and k and s :: "('a, 'b) server"
    by (simp add: srv_manager_run split: prod.split outcome.split)
  have after: "rest (after_pool ctx pod g') u = go_bind (srv_manager (acquire_rest g')) (alloc_finish ctx pod) u"
    for u :: "('a, 'b) server"
    by (auto simp: after_pool_def srv_manager_return alloc_finish_def split: goroutine.split sum.split)
  show ?thesis
    unfolding after rest.simps run acquire_rest_step [OF assms] by simp
qed

lemma rest_disk:
  assumes "srv_storage s = disk_storage"
  shows "rest (AllocFile ctx pod port) s =
      go_bind (srv_disk (disk_write (pod_key pod) (new_record (convertPod pod) port))) (\<lambda>err. rest (case err of
        Some e \<Rightarrow> AllocDone (Inl (Errorf ''error put resource into store'' (Some e)))
      | None \<Rightarrow> AllocMemory ctx pod port)) s"
    "rest (FreeFile ctx pod) s = go_bind (srv_disk (disk_erase (pod_key pod))) (\<lambda>err. rest (case err of
       Some e \<Rightarrow> FreeDone (Inl (Errorf ''failed to delete key'' (Some e)))
     | None \<Rightarrow> FreeMemory ctx pod)) s"
    "rest (AllocMemory ctx pod port) s =
      go_bind (srv_disk (ds_mem (Memory_Put (pod_key pod) (new_record (convertPod pod) port)))) (\<lambda>err. rest (case err of
        Some e \<Rightarrow> AllocDone (Inl (Errorf ''error put resource into store'' (Some e)))
      | None \<Rightarrow> AllocDone (alloc_reply ctx port))) s"
    "rest (FreeMemory ctx pod) s = go_bind (srv_disk (ds_mem (Memory_Delete (pod_key pod)))) (\<lambda>err. rest (case err of
       Some e \<Rightarrow> FreeDone (Inl (Errorf ''failed to delete key'' (Some e)))
     | None \<Rightarrow> FreeDone (free_reply ctx))) s"
  using assms
  by (auto simp: alloc_finish_def alloc_put_def free_finish_def srv_db_run srv_disk_run disk_storage_def
      Disk_Put_halves Disk_Delete_halves split: prod.split outcome.split option.split)

lemma rest_free_ports:
  "rest (free_ports ctx pod items) s = free_all ctx pod items s"
  by (cases items) (simp_all add: free_ports_def free_all_def free_record_def leaves_address_def)

lemma rest_free_first:
  "rest (FreePorts ctx pod (i # items)) s =
     go_bind (srv_manager (Manager_Release (Some (pod_context ctx pod)) (ri_ID i))) (\<lambda>err. rest (case err of
       Some e \<Rightarrow> FreeDone (Inl e) | None \<Rightarrow> free_ports ctx pod items)) s"
  unfolding rest.simps free_all_def release_all.simps go_bind_assoc
  by (rule go_bind_cong) (auto simp: rest_free_ports free_all_def go_bind_at [OF go_return_run] simp del: go_bind_run split: option.split)

lemma rest_record:
  assumes "srv_storage s = disk_storage" "memory_ok (srv_resourceDB s)"
  shows "rest (AllocRecord ctx pod) s = go_bind (getPodResource (pod_key pod)) (\<lambda>old. rest (case old of
       Inl err \<Rightarrow> AllocDone (Inl (Errorf ''failed to get pod resources from db'' (Some err)))
     | Inr oldRes \<Rightarrow> start_allocate (srv_ParseIP s) ctx pod oldRes)) s"
    "rest (FreeRecord ctx pod) s = go_bind (getPodResource (pod_key pod)) (\<lambda>old. rest (case old of
       Inl err \<Rightarrow> FreeDone (Inl (Errorf ''failed to get pod resources from db'' (Some err)))
     | Inr oldRes \<Rightarrow> free_ports ctx pod (pr_Resources oldRes))) s"
  unfolding rest.simps go_bind_at [of "getPodResource (pod_key pod)" s, OF getPodResource_memory [OF assms]] sum.case
  by (rule rest_start_allocate, simp only: rest_free_ports)

lemma rest_step:
  assumes st: "srv_storage s = disk_storage" "memory_ok (srv_resourceDB s)"
    and pl: "in_place h" and step: "hstep h s = Some (h', u)"
  shows "rest h s = (Returns f, t) \<longleftrightarrow> rest h' u = (Returns f, t)"
proof (cases h)
  case (AllocEnter ctx r)
  show ?thesis
    unfolding AllocEnter by (rule calls_rest [OF step [unfolded AllocEnter hstep.simps]]) (rule rest_alloc_enter)
next
  case (FreeEnter ctx r)
  show ?thesis
    unfolding FreeEnter by (rule calls_rest [OF step [unfolded FreeEnter hstep.simps]]) (rule rest_free_enter)
next
  case (AllocRecord ctx pod)
  show ?thesis
    unfolding AllocRecord by (rule moves_rest [OF step [unfolded AllocRecord hstep.simps]]) (rule rest_record(1) [OF st])
next
  case (FreeRecord ctx pod)
  show ?thesis
    unfolding FreeRecord by (rule moves_rest [OF step [unfolded FreeRecord hstep.simps]]) (rule rest_record(2) [OF st])
next
  case (AllocList ctx pod)
  show ?thesis
    unfolding AllocList by (rule calls_rest [OF step [unfolded AllocList hstep.simps]]) (rule rest_manager(1))
next
  case (AllocSubnet ctx pod ports)
  show ?thesis
    unfolding AllocSubnet by (rule calls_rest [OF step [unfolded AllocSubnet hstep.simps]]) (rule rest_manager(2))
next
  case (AllocIdle ctx pod)
  show ?thesis
    unfolding AllocIdle by (rule moves_rest [OF step [unfolded AllocIdle hstep.simps]]) (rule rest_manager(3))
next
  case (AllocCreate ctx pod)
  show ?thesis
    unfolding AllocCreate by (rule calls_rest [OF step [unfolded AllocCreate hstep.simps]]) (rule rest_manager(4))
next
  case (AllocAddIdle ctx pod res)
  show ?thesis
    unfolding AllocAddIdle by (rule moves_rest [OF step [unfolded AllocAddIdle hstep.simps]]) (rule rest_manager(5))
next
  case (AllocPool ctx pod g)
  obtain g' p where g: "gstep g (srv_portManager s) = Some (g', p)" "h' = after_pool ctx pod g'"
    "u = s\<lparr>srv_portManager := p\<rparr>"
    using step AllocPool by (auto split: option.splits)
  have "acquiring g" using pl AllocPool by simp
  from rest_pool [OF this g(1)] show ?thesis by (simp only: AllocPool g)
next
  case (AllocFile ctx pod port)
  show ?thesis
    unfolding AllocFile by (rule calls_rest [OF step [unfolded AllocFile hstep.simps]]) (rule rest_disk(1) [OF st(1)])
next
  case (FreeFile ctx pod)
  show ?thesis
    unfolding FreeFile by (rule calls_rest [OF step [unfolded FreeFile hstep.simps]]) (rule rest_disk(2) [OF st(1)])
next
  case (AllocMemory ctx pod port)
  show ?thesis
    unfolding AllocMemory by (rule moves_rest [OF step [unfolded AllocMemory hstep.simps]]) (rule rest_disk(3) [OF st(1)])
next
  case (FreeMemory ctx pod)
  show ?thesis
    unfolding FreeMemory by (rule moves_rest [OF step [unfolded FreeMemory hstep.simps]]) (rule rest_disk(4) [OF st(1)])
next
  case (FreePorts ctx pod items)
  show ?thesis
  proof (cases items)
    case Nil
    then show ?thesis using step FreePorts rest_free_ports [of ctx pod "[]" s] by (auto simp del: go_bind_run)
  next
    case (Cons i items')
    show ?thesis
      unfolding FreePorts Cons
      by (rule moves_rest [OF step [unfolded FreePorts Cons hstep.simps]]) (rule rest_free_first)
  qed
next
  case (Ticker g)
  then show ?thesis using step by (auto split: option.splits)
qed (use step in auto)

subsection \<open>Running alone\<close>

fun finished :: "handler \<Rightarrow> bool" where
  "finished (AllocDone r) = True"
| "finished (FreeDone r) = True"
| "finished h = False"

fun alone :: "nat \<Rightarrow> handler \<Rightarrow> ('w, 'b) server \<Rightarrow> handler \<times> ('w, 'b) server" where
  "alone 0 h s = (h, s)"
| "alone (Suc n) h s = (case hstep h s of None \<Rightarrow> (h, s) | Some (h', t) \<Rightarrow> alone n h' t)"

lemma rest_finished: "finished h \<Longrightarrow> rest h s = (Returns h, s) \<and> hstep h s = None"
  by (cases h) auto

text \<open>A point with no step and no answer has a rest that does not return.\<close>

lemma rest_stops:
  assumes st: "srv_storage s = disk_storage" "memory_ok (srv_resourceDB s)"
    and pl: "in_place h" and step: "hstep h s = None" and nf: "\<not> finished h"
  shows "rest h s \<noteq> (Returns f, t)"
proof (cases h)
  case (AllocRecord ctx pod)
  show ?thesis
    unfolding AllocRecord by (rule moves_none [OF step [unfolded AllocRecord hstep.simps]]) (rule rest_record(1) [OF st])
next
  case (FreeRecord ctx pod)
  show ?thesis
    unfolding FreeRecord by (rule moves_none [OF step [unfolded FreeRecord hstep.simps]]) (rule rest_record(2) [OF st])
next
  case (AllocIdle ctx pod)
  show ?thesis
    unfolding AllocIdle by (rule moves_none [OF step [unfolded AllocIdle hstep.simps]]) (rule rest_manager(3))
next
  case (AllocAddIdle ctx pod res)
  show ?thesis
    unfolding AllocAddIdle by (rule moves_none [OF step [unfolded AllocAddIdle hstep.simps]]) (rule rest_manager(5))
next
  case (AllocPool ctx pod g)
  have g: "acquiring g" "gstep g (srv_portManager s) = None" "\<nexists>r. g = AcquireDone r"
    using pl step AllocPool by (auto split: option.splits)
  have "acquire_rest g (srv_portManager s) \<noteq> (Returns r, p)" for r p
    by (rule acquire_rest_stops [OF g])
  then show ?thesis by (auto simp: AllocPool srv_manager_run split: prod.split outcome.split)
next
  case (AllocMemory ctx pod port)
  show ?thesis
    unfolding AllocMemory by (rule moves_none [OF step [unfolded AllocMemory hstep.simps]]) (rule rest_disk(3) [OF st(1)])
next
  case (FreeMemory ctx pod)
  show ?thesis
    unfolding FreeMemory by (rule moves_none [OF step [unfolded FreeMemory hstep.simps]]) (rule rest_disk(4) [OF st(1)])
next
  case (FreePorts ctx pod items)
  show ?thesis
  proof (cases items)
    case Nil
    then show ?thesis using step FreePorts by simp
  next
    case (Cons i items')
    show ?thesis
      unfolding FreePorts Cons
      by (rule moves_none [OF step [unfolded FreePorts Cons hstep.simps]]) (rule rest_free_first)
  qed
qed (use step nf in \<open>auto simp del: go_bind_run not_None_eq simp: calls_move\<close>)

text \<open>How far a handler is from its answer.\<close>

fun acquire_togo :: "goroutine \<Rightarrow> nat" where
  "acquire_togo (AcquireEnter ctx rid) = 4"
| "acquire_togo (AcquireSelect ctx) = 3"
| "acquire_togo AcquireCreate = 2"
| "acquire_togo (AcquireReturnToken e) = 1"
| "acquire_togo (AcquireAdd res) = 1"
| "acquire_togo g = 0"

fun togo :: "handler \<Rightarrow> nat \<times> nat" where
  "togo (AllocEnter ctx r) = (2, 0)"
| "togo (AllocRecord ctx pod) = (1, 0)"
| "togo (AllocList ctx pod) = (0, 10)"
| "togo (AllocSubnet ctx pod ports) = (0, 9)"
| "togo (AllocIdle ctx pod) = (0, 8)"
| "togo (AllocCreate ctx pod) = (0, 8)"
| "togo (AllocAddIdle ctx pod res) = (0, 7)"
| "togo (AllocPool ctx pod g) = (0, acquire_togo g + 2)"
| "togo (AllocFile ctx pod port) = (0, 2)"
| "togo (AllocMemory ctx pod port) = (0, 1)"
| "togo (FreeEnter ctx r) = (2, 0)"
| "togo (FreeRecord ctx pod) = (1, 0)"
| "togo (FreePorts ctx pod items) = (0, length items + 3)"
| "togo (FreeFile ctx pod) = (0, 2)"
| "togo (FreeMemory ctx pod) = (0, 1)"
| "togo h = (0, 0)"

abbreviation nearer :: "((nat \<times> nat) \<times> (nat \<times> nat)) set" where
  "nearer \<equiv> less_than <*lex*> less_than"

lemma acquire_nearer:
  assumes "acquiring g" "gstep g s = Some (g', t)"
  shows "acquire_togo g' < acquire_togo g"
  using assms by (cases g)
    (auto dest!: attempt_next call_out_next split: acquired.splits sum.splits if_splits)

lemma targets_nearer:
  "togo (alloc_error e) = (0, 0)" "fst (togo (start_allocate P ctx pod old)) = 0"
  "togo (after_subnet ctx pod ports subnet) \<in> {(0, 0), (0, 8)}"
  "togo (after_pool ctx pod g) = (0, acquire_togo g + 2) \<or> togo (after_pool ctx pod g) \<in> {(0, 0), (0, 2)}"
  "togo (free_ports ctx pod items) = (0, length items + 3) \<and> items \<noteq> [] \<or> togo (free_ports ctx pod items) \<in> {(0, 0), (0, 2)}"
  by (auto simp: alloc_error_def start_allocate_def after_subnet_def after_pool_def free_ports_def
      split: outcome.split bool.split goroutine.split sum.split)

lemma nearer_step:
  assumes "calls m next h s = Some (h', t) \<or> moves m next h s = Some (h', t)"
    and "\<And>a. (togo (next a), togo h) \<in> nearer" "((0, 0), togo h) \<in> nearer"
  shows "(togo h', togo h) \<in> nearer"
proof -
  from assms(1) obtain out where "(\<exists>a. h' = next a) \<or> h' = Halted h" by (metis calls_cases moves_cases)
  then show ?thesis using assms(2,3) by auto
qed

lemma in_nearer: "((a, b), (c, d)) \<in> nearer \<longleftrightarrow> a < c \<or> a = c \<and> b < d"
  by simp

lemma hstep_nearer:
  assumes pl: "in_place h" and nt: "\<nexists>g. h = Ticker g" and step: "hstep h s = Some (h', t)"
  shows "(togo h', togo h) \<in> nearer"
proof (cases h)
  case (AllocEnter ctx r)
  show ?thesis
    by (rule nearer_step [OF disjI1 [OF step [unfolded AllocEnter hstep.simps, folded AllocEnter]]])
      (use AllocEnter in \<open>auto split: sum.split\<close>)
next
  case (FreeEnter ctx r)
  show ?thesis
    by (rule nearer_step [OF disjI1 [OF step [unfolded FreeEnter hstep.simps, folded FreeEnter]]])
      (use FreeEnter in \<open>auto split: sum.split\<close>)
next
  case (AllocRecord ctx pod)
  have "(togo (start_allocate P ctx pod old), togo h) \<in> nearer" for P old
    using targets_nearer(2) [of P ctx pod old] AllocRecord by (cases "togo (start_allocate P ctx pod old)") auto
  then show ?thesis
    by (intro nearer_step [OF disjI2 [OF step [unfolded AllocRecord hstep.simps, folded AllocRecord]]])
      (use AllocRecord in \<open>auto split: sum.split\<close>)
next
  case (AllocList ctx pod)
  show ?thesis
    by (rule nearer_step [OF disjI1 [OF step [unfolded AllocList hstep.simps, folded AllocList]]])
      (use AllocList targets_nearer(1) in \<open>auto split: option.split\<close>)
next
  case (AllocSubnet ctx pod ports)
  have "(togo (after_subnet ctx pod ports subnet), togo h) \<in> nearer" for subnet
    using targets_nearer(3) [of ctx pod ports subnet] AllocSubnet by auto
  then show ?thesis
    by (intro nearer_step [OF disjI1 [OF step [unfolded AllocSubnet hstep.simps, folded AllocSubnet]]])
      (use AllocSubnet targets_nearer(1) in \<open>auto split: sum.split\<close>)
next
  case (AllocIdle ctx pod)
  show ?thesis
    by (rule nearer_step [OF disjI2 [OF step [unfolded AllocIdle hstep.simps, folded AllocIdle]]])
      (use AllocIdle targets_nearer(1) in \<open>auto split: option.split\<close>)
next
  case (AllocCreate ctx pod)
  show ?thesis
    by (rule nearer_step [OF disjI1 [OF step [unfolded AllocCreate hstep.simps, folded AllocCreate]]])
      (use AllocCreate targets_nearer(1) in \<open>auto split: sum.split\<close>)
next
  case (AllocAddIdle ctx pod res)
  show ?thesis
    by (rule nearer_step [OF disjI2 [OF step [unfolded AllocAddIdle hstep.simps, folded AllocAddIdle]]])
      (use AllocAddIdle in auto)
next
  case (AllocPool ctx pod g)
  obtain g' where g: "gstep g (srv_portManager s) = Some (g', srv_portManager t)" "h' = after_pool ctx pod g'"
    using step AllocPool by (auto split: option.splits)
  have "acquire_togo g' < acquire_togo g" using acquire_nearer [OF _ g(1)] pl AllocPool by simp
  then show ?thesis using targets_nearer(4) [of ctx pod g'] g(2) AllocPool by auto
next
  case (AllocFile ctx pod port)
  show ?thesis
    by (rule nearer_step [OF disjI1 [OF step [unfolded AllocFile hstep.simps, folded AllocFile]]])
      (use AllocFile in \<open>auto split: option.split\<close>)
next
  case (AllocMemory ctx pod port)
  show ?thesis
    by (rule nearer_step [OF disjI2 [OF step [unfolded AllocMemory hstep.simps, folded AllocMemory]]])
      (use AllocMemory in \<open>auto split: option.split\<close>)
next
  case (FreeRecord ctx pod)
  have "(togo (free_ports ctx pod items), togo h) \<in> nearer" for items
    using targets_nearer(5) [of ctx pod items] FreeRecord by auto
  then show ?thesis
    by (intro nearer_step [OF disjI2 [OF step [unfolded FreeRecord hstep.simps, folded FreeRecord]]])
      (use FreeRecord in \<open>auto split: sum.split\<close>)
next
  case (FreePorts ctx pod items)
  show ?thesis
  proof (cases items)
    case Nil
    then show ?thesis using step FreePorts targets_nearer(5) [of ctx pod "[]"] by auto
  next
    case (Cons i items')
    have "(togo (free_ports ctx pod items'), togo h) \<in> nearer"
      using targets_nearer(5) [of ctx pod items'] FreePorts Cons by auto
    then show ?thesis
      by (intro nearer_step [OF disjI2 [OF step [unfolded FreePorts Cons hstep.simps, folded Cons, folded FreePorts]]])
        (use FreePorts in \<open>auto split: option.split\<close>)
  qed
next
  case (FreeFile ctx pod)
  show ?thesis
    by (rule nearer_step [OF disjI1 [OF step [unfolded FreeFile hstep.simps, folded FreeFile]]])
      (use FreeFile in \<open>auto split: option.split\<close>)
next
  case (FreeMemory ctx pod)
  show ?thesis
    by (rule nearer_step [OF disjI2 [OF step [unfolded FreeMemory hstep.simps, folded FreeMemory]]])
      (use FreeMemory in \<open>auto split: option.split\<close>)
qed (use step nt in auto)

lemma hstep_in_place:
  assumes pl: "in_place h" and nt: "\<nexists>g. h = Ticker g" and step: "hstep h s = Some (h', t)"
  shows "in_place h'"
proof (cases "early h")
  case True
  then show ?thesis using hstep_quiet [OF step] by blast
next
  case False
  have quiet: "in_place h'" if "calls m next h s = Some (h', t) \<or> moves m next h s = Some (h', t)" "\<And>a. in_place (next a)"
    for m :: "(('a, 'b) server, 'c) go" and "next" :: "'c \<Rightarrow> handler"
    using that pl by (metis calls_cases in_place.simps(3) moves_cases)
  show ?thesis
  proof (cases h)
    case (AllocPool ctx pod g)
    obtain g' where g: "gstep g (srv_portManager s) = Some (g', srv_portManager t)" "h' = after_pool ctx pod g'"
      using step AllocPool by (auto split: option.splits)
    have "acquiring g'" using acquiring_next [OF _ g(1)] pl AllocPool by simp
    then show ?thesis using g(2) by (cases g') (auto simp: after_pool_def alloc_error_def split: sum.split)
  next
    case (FreePorts ctx pod items)
    show ?thesis
    proof (cases items)
      case Nil
      then show ?thesis using step FreePorts by auto
    next
      case (Cons i items')
      show ?thesis
        by (rule quiet [OF disjI2 [OF step [unfolded FreePorts Cons hstep.simps, folded Cons, folded FreePorts]]])
          (simp split: option.split)
    qed
  next
    case (AllocFile ctx pod port)
    show ?thesis
      by (rule quiet [OF disjI1 [OF step [unfolded AllocFile hstep.simps, folded AllocFile]]]) (simp split: option.split)
  next
    case (AllocMemory ctx pod port)
    show ?thesis
      by (rule quiet [OF disjI2 [OF step [unfolded AllocMemory hstep.simps, folded AllocMemory]]]) (simp split: option.split)
  next
    case (FreeRecord ctx pod)
    show ?thesis
      by (rule quiet [OF disjI2 [OF step [unfolded FreeRecord hstep.simps, folded FreeRecord]]]) (simp split: sum.split)
  next
    case (FreeFile ctx pod)
    show ?thesis
      by (rule quiet [OF disjI1 [OF step [unfolded FreeFile hstep.simps, folded FreeFile]]]) (simp split: option.split)
  next
    case (FreeMemory ctx pod)
    show ?thesis
      by (rule quiet [OF disjI2 [OF step [unfolded FreeMemory hstep.simps, folded FreeMemory]]]) (simp split: option.split)
  qed (use step nt False in auto)
qed

lemma alone_stays: "hstep h s = None \<Longrightarrow> alone n h s = (h, s)"
  by (cases n) simp_all

lemma alone_ticker: "\<exists>g'. fst (alone n (Ticker g) s) = Ticker g'"
  by (induction n arbitrary: g s) (auto split: option.split)

lemma alone_rest:
  assumes "srv_storage s = disk_storage" "memory_ok (srv_resourceDB s)" "in_place h"
  shows "rest h s = (Returns f, t) \<longleftrightarrow> finished f \<and> (\<exists>n. alone n h s = (f, t))"
  using assms
proof (induction "togo h" arbitrary: h s rule: wf_induct_rule [of nearer, OF wf_lex_prod [OF wf_less_than wf_less_than]])
  case (1 h s)
  note st = 1(2,3) and pl = 1(4)
  consider g where "h = Ticker g" | "finished h" | "hstep h s = None" "\<not> finished h"
    | h' u where "\<nexists>g. h = Ticker g" "hstep h s = Some (h', u)" by fastforce
  then show ?case
  proof cases
    case 1
    have "\<not> finished f" if "alone n h s = (f, t)" for n
      using alone_ticker [of n g s] that 1 by auto
    then show ?thesis using 1 by auto
  next
    case 2
    then show ?thesis using rest_finished [OF 2, of s] alone_stays [of h s] by auto
  next
    case 3
    then show ?thesis using rest_stops [OF st pl 3] alone_stays [OF 3(1)] by auto
  next
    case 4
    note parts = hstep_records(2,3) [OF st 4(2)]
    have st': "srv_storage u = disk_storage" "memory_ok (srv_resourceDB u)"
      using parts st(1) by (simp_all add: same_server_def)
    have IH: "rest h' u = (Returns f, t) \<longleftrightarrow> finished f \<and> (\<exists>n. alone n h' u = (f, t))"
      by (rule "1.hyps" [OF hstep_nearer [OF pl 4] st' hstep_in_place [OF pl 4]])
    have nf: "\<not> finished h" using 4(2) rest_finished [of h s] by auto
    have "(\<exists>n. alone n h s = (f, t)) \<longleftrightarrow> (f = h \<and> t = s) \<or> (\<exists>n. alone n h' u = (f, t))"
    proof
      assume "\<exists>n. alone n h s = (f, t)"
      then obtain n where "alone n h s = (f, t)" ..
      then show "(f = h \<and> t = s) \<or> (\<exists>n. alone n h' u = (f, t))" using 4(2) by (cases n) auto
    next
      assume "(f = h \<and> t = s) \<or> (\<exists>n. alone n h' u = (f, t))"
      then show "\<exists>n. alone n h s = (f, t)"
      proof
        assume "f = h \<and> t = s"
        then show ?thesis by (intro exI [of _ 0]) simp
      next
        assume "\<exists>n. alone n h' u = (f, t)"
        then obtain n where "alone n h' u = (f, t)" ..
        then show ?thesis using 4(2) by (intro exI [of _ "Suc n"]) simp
      qed
    qed
    then show ?thesis using rest_step [OF st pl 4(2), of f t] IH nf by auto
  qed
qed

end
