(* ===== verification/Handler_Properties.thy ===== *)
theory Handler_Properties
  imports Daemon_Alone Daemon_Properties Pool_Properties
begin

section \<open>Properties of interleaved requests\<close>

text \<open>
  The properties of the manifest about request handlers that run at the same time: what every
  interleaving keeps, what a run with one request per pod keeps besides, two races that break it
  otherwise, and the agreement of the interleaved handlers with the ones of \<open>Daemon\<close>.
\<close>

subsection \<open>Runs\<close>

lemma moves_on:
  assumes "i < length hs" "hstep (hs ! i) s = Some (h, t)" "daemon_step\<^sup>*\<^sup>* (t, hs[i := h]) d"
  shows "daemon_step\<^sup>*\<^sup>* (s, hs) d"
  by (rule converse_rtranclp_into_rtranclp [OF daemon_step.run [OF assms(1,2)] assms(3)])

lemma moves_at:
  assumes "hstep h s = Some (h', t)" "daemon_step\<^sup>*\<^sup>* (t, xs @ h' # ys) d"
  shows "daemon_step\<^sup>*\<^sup>* (s, xs @ h # ys) d"
  using moves_on [of "length xs" "xs @ h # ys" s h' t d] assms by simp

lemma moves_first: "hstep h s = Some (h', t) \<Longrightarrow> daemon_step\<^sup>*\<^sup>* (t, h' # ys) d \<Longrightarrow> daemon_step\<^sup>*\<^sup>* (s, h # ys) d"
  using moves_at [of h s h' t "[]"] by simp

lemma moves_second:
  "hstep h s = Some (h', t) \<Longrightarrow> daemon_step\<^sup>*\<^sup>* (t, x # h' # ys) d \<Longrightarrow> daemon_step\<^sup>*\<^sup>* (s, x # h # ys) d"
  using moves_at [of h s h' t "[x]"] by simp

lemma moves_third:
  "hstep h s = Some (h', t) \<Longrightarrow> daemon_step\<^sup>*\<^sup>* (t, x # y # h' # ys) d \<Longrightarrow> daemon_step\<^sup>*\<^sup>* (s, x # y # h # ys) d"
  using moves_at [of h s h' t "[x, y]"] by simp

lemma arrives:
  assumes "is_request h" "daemon_step\<^sup>*\<^sup>* (s, hs @ [h]) d"
  shows "daemon_step\<^sup>*\<^sup>* (s, hs) d"
  by (rule converse_rtranclp_into_rtranclp [OF daemon_step.request [OF assms(1)] assms(2)])

text \<open>The steps of a handler, one by one.\<close>

lemma served_parts:
  assumes "served_ok issued contents s"
  shows "manager_safe issued (srv_portManager s)" "srv_storage s = disk_storage" "memory_ok (srv_resourceDB s)"
    "kube_ok issued (srv_k8s s)" "gmap_ok (records s)"
  using assms by (auto simp: served_ok_def daemon_ok_def disk_ok_def memory_ok_def records_def)

lemma served_manager:
  assumes "served_ok issued contents s" "manager_safe issued p"
  shows "served_ok issued contents (s\<lparr>srv_portManager := p\<rparr>)"
  using assms by (simp add: served_ok_def daemon_ok_def)

lemma safe_kept: "manager_safe issued p \<Longrightarrow> pool_kept issued (slack p) {#} p"
  by (auto simp: kept_def manager_safe_def pool_safe_def exclusive_def)

text \<open>The first steps of an allocation without a static address, when something is idle.\<close>

lemma allocation_steps:
  assumes ok: "served_ok issued contents s" and pod: "has_pod (srv_k8s s) (ar_K8SPodNamespace r) (ar_K8SPodName r) pod"
    and st: "\<not> requireStaticIP (pod_context ctx pod)"
    and free: "\<not> locked (srv_portManager s)" and ne: "idle_ids (srv_portManager s) \<noteq> {#}"
  obtains u rid item t where "hstep (AllocEnter ctx r) s = Some (AllocRecord ctx pod, u)"
    "hstep (AllocRecord ctx pod) u = Some (AllocPool ctx pod (AcquireEnter ctx rid), u)"
    "hstep (AllocPool ctx pod (AcquireEnter ctx rid)) u = Some (AllocFile ctx pod (item_res item), t)"
    "served_ok issued contents t" "srv_resourceDB t = srv_resourceDB s" "srv_k8s t = srv_k8s s"
    "\<not> locked (srv_portManager t)"
    "inuse (srv_portManager t) = gmap_put (inuse (srv_portManager s)) (item_id item) (item_res item)"
    "mset (queue_items (idle (srv_portManager s))) = add_mset item (mset (queue_items (idle (srv_portManager t))))"
proof -
  obtain w where g: "pods_Get (k8s_client (srv_k8s s)) (ar_K8SPodNamespace r) (ar_K8SPodName r)
      (pf_world (env (srv_portManager s))) = (Returns (Inr pod), w)"
    using pod unfolding has_pod_def by blast
  let ?u = "at_world w s" and ?rid = "old_resource_id (record_of (records s) (pod_key pod))"
  have h1: "hstep (AllocEnter ctx r) s = Some (AllocRecord ctx pod, ?u)"
    using g by (simp add: calls_def srv_GetPod_run)
  have oku: "served_ok issued contents ?u"
    using at_world_ok [OF ok [unfolded served_ok_def] g] by (simp add: served_ok_def)
  note u = served_parts [OF oku]
  have h2: "hstep (AllocRecord ctx pod) ?u = Some (AllocPool ctx pod (AcquireEnter ctx ?rid), ?u)"
    using getPodResource_memory [OF u(2,3), of "pod_key pod"] st
    by (simp add: moves_def start_allocate_def records_def)
  obtain item q where q: "acquire_section ?rid (srv_portManager ?u) = (Returns (Found (item_res item)),
       (srv_portManager ?u)\<lparr>idle := q, inuse := gmap_put (inuse (srv_portManager ?u)) (item_id item) (item_res item)\<rparr>)"
    "queue_wf q" "mset (queue_items (idle (srv_portManager ?u))) = add_mset item (mset (queue_items q))"
    using acquire_section_found [of "srv_portManager ?u" ?rid] free ne manager_safeD(1) [OF u(1)]
    by (metis at_world_simps(7,9))
  let ?m = "(srv_portManager ?u)\<lparr>idle := q, inuse := gmap_put (inuse (srv_portManager ?u)) (item_id item) (item_res item)\<rparr>"
  have h3: "hstep (AllocPool ctx pod (AcquireEnter ctx ?rid)) ?u =
      Some (AllocFile ctx pod (item_res item), ?u\<lparr>srv_portManager := ?m\<rparr>)"
    using q(1) by (simp add: attempt_def after_pool_def)
  have "pool_kept issued (slack (srv_portManager ?u)) {#} ?m"
    using ports.acquire_section_kept [OF safe_kept [OF u(1)] q(1)] by simp
  from served_manager [OF oku pool_kept_safe [OF this]] show ?thesis
    by (intro that [OF h1 h2 h3]) (use free q(3) in simp_all)
qed

text \<open>The first steps of a release, and the step that gives a port back.\<close>

lemma release_steps:
  assumes ok: "served_ok issued contents s" and pod: "has_pod (srv_k8s s) (rr_K8SPodNamespace r) (rr_K8SPodName r) pod"
  obtains u where "hstep (FreeEnter ctx r) s = Some (FreeRecord ctx pod, u)"
    "hstep (FreeRecord ctx pod) u = Some (free_ports ctx pod (pr_Resources (record_of (records s) (pod_key pod))), u)"
    "served_ok issued contents u" "srv_resourceDB u = srv_resourceDB s" "srv_k8s u = srv_k8s s"
    "locked (srv_portManager u) = locked (srv_portManager s)"
    "inuse (srv_portManager u) = inuse (srv_portManager s)" "idle (srv_portManager u) = idle (srv_portManager s)"
proof -
  obtain w where g: "pods_Get (k8s_client (srv_k8s s)) (rr_K8SPodNamespace r) (rr_K8SPodName r)
      (pf_world (env (srv_portManager s))) = (Returns (Inr pod), w)"
    using pod unfolding has_pod_def by blast
  let ?u = "at_world w s"
  have h1: "hstep (FreeEnter ctx r) s = Some (FreeRecord ctx pod, ?u)"
    using g by (simp add: calls_def srv_GetPod_run)
  have oku: "served_ok issued contents ?u"
    using at_world_ok [OF ok [unfolded served_ok_def] g] by (simp add: served_ok_def)
  note u = served_parts [OF oku]
  have h2: "hstep (FreeRecord ctx pod) ?u =
      Some (free_ports ctx pod (pr_Resources (record_of (records s) (pod_key pod))), ?u)"
    using getPodResource_memory [OF u(2,3), of "pod_key pod"] by (simp add: moves_def records_def)
  show ?thesis by (rule that [OF h1 h2 oku]) simp_all
qed

lemma gives_back:
  assumes safe: "manager_safe issued (srv_portManager s)" and free: "\<not> locked (srv_portManager s)"
    and use: "port_of s rid = Some port"
  obtains m where "hstep (FreePorts ctx pod [\<lparr>ri_Type = ty, ri_ID = rid\<rparr>]) s =
      Some (free_ports ctx pod [], s\<lparr>srv_portManager := m\<rparr>)"
    "manager_safe issued m" "\<not> locked m" "inuse m = gmap_delete (inuse (srv_portManager s)) rid"
    "idle_ids m = add_mset rid (idle_ids (srv_portManager s))" "port \<in> item_res ` set (queue_items (idle m))"
proof -
  obtain out m where m: "Manager_Release (Some (pod_context ctx pod)) rid (srv_portManager s) = (out, m)" by fastforce
  note r = Manager_Release_safe [OF safe m]
  have out: "out = Returns None" using r free use by (cases "out = Returns None") auto
  have h: "hstep (FreePorts ctx pod [\<lparr>ri_Type = ty, ri_ID = rid\<rparr>]) s =
      Some (free_ports ctx pod [], s\<lparr>srv_portManager := m\<rparr>)"
    using m out by (simp add: moves_def srv_manager_run)
  show ?thesis by (rule that [OF h]) (use r out free use in auto)
qed

text \<open>What the database takes: the record of the pod, whatever its port.\<close>

definition takes_record :: "KubePod \<Rightarrow> ('b, PodResources) DiskStorage \<Rightarrow> bool" where
  "takes_record pod d \<longleftrightarrow>
     (\<forall>port. \<exists>e. ds_serializer d (new_record (convertPod pod) port) = Inr e) \<and>
     (\<forall>x w. \<exists>w'. bolt_Put (ds_db d) (ds_name d) (pod_key pod) x w = (Returns None, w'))"

lemma writes_file:
  assumes "takes_record pod (srv_resourceDB s)"
  obtains e f u where "ds_serializer (srv_resourceDB s) (new_record (convertPod pod) port) = Inr e"
    "bolt_Put (ds_db (srv_resourceDB s)) (ds_name (srv_resourceDB s)) (pod_key pod) e (ds_file (srv_resourceDB s)) =
       (Returns None, f)"
    "hstep (AllocFile ctx pod port) s = Some (AllocMemory ctx pod port, u)"
    "srv_resourceDB u = (srv_resourceDB s)\<lparr>ds_file := f\<rparr>" "srv_portManager u = srv_portManager s"
    "srv_k8s u = srv_k8s s" "srv_storage u = srv_storage s" "records u = records s"
proof -
  obtain e where e: "ds_serializer (srv_resourceDB s) (new_record (convertPod pod) port) = Inr e"
    using assms unfolding takes_record_def by blast
  obtain f where f: "bolt_Put (ds_db (srv_resourceDB s)) (ds_name (srv_resourceDB s)) (pod_key pod) e
      (ds_file (srv_resourceDB s)) = (Returns None, f)"
    using assms unfolding takes_record_def by blast
  have "hstep (AllocFile ctx pod port) s = Some (AllocMemory ctx pod port,
       s\<lparr>srv_resourceDB := (srv_resourceDB s)\<lparr>ds_file := f\<rparr>\<rparr>)"
    using e f by (simp add: calls_def srv_disk_run disk_write_def ds_tx_run)
  then show ?thesis by (rule that [OF e f]) (simp_all add: records_def)
qed

lemma writes_memory:
  assumes "memory_ok (srv_resourceDB s)"
  obtains u where "hstep (AllocMemory ctx pod port) s = Some (AllocDone (alloc_reply ctx port), u)"
    "srv_portManager u = srv_portManager s" "srv_k8s u = srv_k8s s" "srv_storage u = srv_storage s"
    "records u = gmap_put (records s) (pod_key pod) (new_record (convertPod pod) port)"
    "memory_ok (srv_resourceDB u)" "ds_file (srv_resourceDB u) = ds_file (srv_resourceDB s)"
    "ds_db (srv_resourceDB u) = ds_db (srv_resourceDB s)" "ds_name (srv_resourceDB u) = ds_name (srv_resourceDB s)"
    "ds_deserializer (srv_resourceDB u) = ds_deserializer (srv_resourceDB s)"
    "ds_serializer (srv_resourceDB u) = ds_serializer (srv_resourceDB s)"
proof -
  let ?d = "srv_resourceDB s"
  let ?u = "s\<lparr>srv_resourceDB := ?d\<lparr>ds_memory := (ds_memory ?d)\<lparr>ms_store :=
    gmap_put (ms_store (ds_memory ?d)) (pod_key pod) (new_record (convertPod pod) port)\<rparr>\<rparr>\<rparr>"
  have "hstep (AllocMemory ctx pod port) s = Some (AllocDone (alloc_reply ctx port), ?u)"
    using assms by (simp add: moves_def srv_disk_run ds_mem_run Memory_runs memory_ok_def)
  then show ?thesis by (rule that) (insert assms, simp_all add: records_def memory_ok_def)
qed

subsection \<open>Every interleaving\<close>

text \<open>
  C1. Start the daemon's background goroutine on a server in order and let any requests arrive
  at any time, connections end at any time, and all handlers take their steps in any interleaving,
  each call to the outside and each critical section a step of its own. At every moment each port is
  in use, idle or in the hands of one handler, at most once; it is a port the service has issued;
  the tokens, the ports and what the handlers under way still owe are no less than the capacity; and
  the records are a map.
\<close>

theorem concurrent_requests_safe:
  assumes "served_ok issued contents s" "balanced (srv_portManager s)"
    and "daemon_step\<^sup>*\<^sup>* (s, [Ticker (CheckIdle True)]) (t, hs)"
  shows "pool_wf (srv_portManager t) \<and>
     (\<forall>x. count (inuse_ids (srv_portManager t) + idle_ids (srv_portManager t) + hands hs) x \<le> 1) \<and>
     set_mset (inuse_ids (srv_portManager t) + idle_ids (srv_portManager t) + hands hs) \<subseteq>
       issued (pf_world (env (srv_portManager t))) \<and>
     capacity (srv_portManager s) \<le>
       int (tokens (srv_portManager t)) + pool_size (srv_portManager t) + int (dues hs) \<and>
     gmap_ok (records t)"
proof -
  have "daemon_kept issued 0 (s, [Ticker (CheckIdle True)])" by (rule served_kept [OF assms(1,2)]) simp
  from daemon_steps_kept [OF assms(3) this] obtain y where y: "y \<le> 0" "daemon_kept issued y (t, hs)"
    and cap: "capacity (srv_portManager t) = capacity (srv_portManager s)" by blast
  note k = daemon_keptD [OF y(2)]
  have "\<forall>x. count (inuse_ids (srv_portManager t) + idle_ids (srv_portManager t) + hands hs) x \<le> 1"
    using keptD(2) [OF k(1)] by (simp add: held_def add_ac)
  moreover have "set_mset (inuse_ids (srv_portManager t) + idle_ids (srv_portManager t) + hands hs) \<subseteq>
      issued (pf_world (env (srv_portManager t)))"
    using keptD(3) [OF k(1)] manager_safeD(6) [OF k(5)] by (simp add: held_def)
  moreover have "capacity (srv_portManager s) \<le>
      int (tokens (srv_portManager t)) + pool_size (srv_portManager t) + int (dues hs)"
    using keptD(4) [OF k(1)] y(1) cap by (simp add: slack_def)
  moreover have "gmap_ok (records t)" using k(4) by (simp add: memory_ok_def records_def)
  ultimately show ?thesis using manager_safeD(1) [OF k(5)] by blast
qed

text \<open>A handler's run on the simulated server, and the same server with pods that all leave their address.\<close>

lemma sim_balanced: "balanced (srv_portManager (sim_server sim_pool))"
  by (simp add: sim_pool_balanced)

lemma sim_pool_unlocked: "\<not> locked (srv_portManager (sim_server sim_pool))" "pool_wf (srv_portManager (sim_server sim_pool))"
  "idle_ids (srv_portManager (sim_server sim_pool)) \<noteq> {#}"
  by simp_all

lemma sim_not_static: "\<not> requireStaticIP (pod_context ctx (sim_kpod name))"
  by (simp add: requireStaticIP_def pod_context_def)

lemma held_once:
  assumes "count (M + N + H) x \<le> 1" "x \<in># M"
  shows "x \<notin># N"
proof -
  have "0 < count M x" using assms(2) by (rule count_greater_zero_iff [THEN iffD2])
  then show ?thesis using assms(1) unfolding not_in_iff count_union by linarith
qed

theorem concurrent_requests_safe_witness:
  "\<exists>t port. daemon_step\<^sup>*\<^sup>* (sim_server sim_pool, [Ticker (CheckIdle True)])
       (t, [Ticker (CheckIdle True), AllocFile sim_ctx (sim_kpod ''web'') port]) \<and>
     port_of t (GetResourceId port) = Some port \<and> GetResourceId port \<notin># idle_ids (srv_portManager t)"
proof -
  let ?s = "sim_server sim_pool" and ?pod = "sim_kpod ''web''" and ?T = "Ticker (CheckIdle True)"
  obtain u rid item t where w: "hstep (AllocEnter sim_ctx (sim_alloc ''web'')) ?s = Some (AllocRecord sim_ctx ?pod, u)"
    "hstep (AllocRecord sim_ctx ?pod) u = Some (AllocPool sim_ctx ?pod (AcquireEnter sim_ctx rid), u)"
    "hstep (AllocPool sim_ctx ?pod (AcquireEnter sim_ctx rid)) u = Some (AllocFile sim_ctx ?pod (item_res item), t)"
    "inuse (srv_portManager t) = gmap_put (inuse (srv_portManager ?s)) (item_id item) (item_res item)"
    by (rule allocation_steps [OF sim_servers(1), of "sim_alloc ''web''" ?pod sim_ctx])
      (simp_all del: hstep.simps add: sim_not_static)
  let ?h = "AllocFile sim_ctx ?pod (item_res item)"
  have run: "daemon_step\<^sup>*\<^sup>* (?s, [?T]) (t, [?T, ?h])"
  proof (rule arrives [of "AllocEnter sim_ctx (sim_alloc ''web'')"])
    have "daemon_step\<^sup>*\<^sup>* (?s, [?T] @ AllocEnter sim_ctx (sim_alloc ''web'') # []) (t, [?T] @ ?h # [])"
      by (rule moves_at [OF w(1)], rule moves_at [OF w(2)], rule moves_at [OF w(3)], rule rtranclp.rtrancl_refl)
    then show "daemon_step\<^sup>*\<^sup>* (?s, [?T] @ [AllocEnter sim_ctx (sim_alloc ''web'')]) (t, [?T, ?h])" by simp
  qed simp
  note safe = concurrent_requests_safe [OF sim_servers(1) sim_balanced run]
  have use: "port_of t (GetResourceId (item_res item)) = Some (item_res item)" using w(4) by (simp add: item_id_def)
  then have "GetResourceId (item_res item) \<in># inuse_ids (srv_portManager t)"
    using not_inuse_iff [of "GetResourceId (item_res item)" "srv_portManager t"] by auto
  moreover have "count (inuse_ids (srv_portManager t) + idle_ids (srv_portManager t) + hands [?T, ?h])
      (GetResourceId (item_res item)) \<le> 1" using safe by blast
  ultimately have "GetResourceId (item_res item) \<notin># idle_ids (srv_portManager t)" using held_once by metis
  then show ?thesis using run use by blast
qed

subsection \<open>One request per pod\<close>

text \<open>
  C2. No two pods share a port. Let no pod keep its address after its release, no deletion in the
  database fail, and the records at the start name ports in use, none twice. In every
  interleaving in which at most one request per pod is under way at any moment, the ports
  named by records, or held by a handler that has not written its record yet, are in use and
  all different: a record that is not being given up names ports in use, which no other such record
  names and no handler holds.
\<close>

theorem ports_owned_once:
  assumes "served_ok issued contents s" "balanced (srv_portManager s)" "no_sticky_pods (srv_k8s s)"
    and "deletes_work (ds_db (srv_resourceDB s))"
    and "recorded (records s) {} \<subseteq># inuse_ids (srv_portManager s)"
    and "serial_step\<^sup>*\<^sup>* (s, [Ticker (CheckIdle True)]) (t, hs)"
  shows "claims hs (records t) \<subseteq># inuse_ids (srv_portManager t) \<and>
     (\<forall>k rid. names (records t) k rid \<and> k \<notin> given_up hs \<longrightarrow>
        port_of t rid \<noteq> None \<and> (\<forall>j. names (records t) j rid \<and> j \<notin> given_up hs \<longrightarrow> j = k) \<and>
        (\<forall>h \<in> set hs. rid \<notin># claim h))"
proof -
  have "daemon_kept issued 0 (s, [Ticker (CheckIdle True)])" by (rule served_kept [OF assms(1,2)]) simp
  then have "owned issued (s, [Ticker (CheckIdle True)])"
    using assms(3-5) by (auto simp: owned_def claims_def given_up_def one_per_pod_def)
  from owned_steps [OF assms(6) this] obtain z where z: "daemon_kept issued z (t, hs)"
    and c: "claims hs (records t) \<subseteq># inuse_ids (srv_portManager t)" by (auto simp: owned_def)
  note k = daemon_keptD [OF z]
  have one: "\<forall>x. count (inuse_ids (srv_portManager t)) x \<le> 1"
  proof
    show "count (inuse_ids (srv_portManager t)) x \<le> 1" for x
      using spec [OF keptD(2) [OF k(1)], of x] by (simp add: held_def)
  qed
  have gm: "gmap_ok (records t)" using k(4) by (simp add: memory_ok_def records_def)
  note apart = claims_apart [OF c one gm]
  show ?thesis using c apart not_inuse_iff by metis
qed

text \<open>The simulated server with pods that leave their address, and the port in use recorded for one of them.\<close>

definition calm_pod :: "string \<Rightarrow> KubePod" where
  "calm_pod name = (sim_kpod name)\<lparr>pod_OwnerKinds := []\<rparr>"

definition calm_k8s :: "sim K8s" where
  "calm_k8s = \<lparr>k8s_client = \<lparr>pods_Get = (\<lambda>ns name w. (Returns (Inr (calm_pod name)), w)),
     pods_List = (\<lambda>l n w. (Returns (Inr [calm_pod ''web'']), w))\<rparr>, k8s_nodeName = ''node''\<rparr>"

definition calm_server :: "(sim, string \<Rightarrow> (string, string) gmap) server" where
  "calm_server = (sim_server sim_pool)\<lparr>srv_k8s := calm_k8s, srv_resourceDB := sim_store\<lparr>
     ds_memory := \<lparr>ms_lock = False, ms_store = [(''ns/web'', new_record (convertPod (sim_kpod ''web'')) sim_port0)]\<rparr>,
     ds_file := (\<lambda>n. [(''ns/web'', CHR ''w'' # sim_id 0)])\<rparr>\<rparr>"

lemma calm_server_simps [simp]:
  "srv_k8s calm_server = calm_k8s" "srv_portManager calm_server = sim_pool"
  "records calm_server = [(''ns/web'', new_record (convertPod (sim_kpod ''web'')) sim_port0)]"
  by (simp_all add: calm_server_def records_def)

lemma calm_server_ok: "served_ok sim_issued sim_contents calm_server"
proof -
  have "disk_ok sim_contents (srv_resourceDB calm_server)"
    using sim_bolt_ok sim_ser_deser
    by (auto simp: calm_server_def disk_ok_def sim_store_def gmap_ok_def mirrors_def mirror_at_def sim_contents_def
        gmap_get_def sim_deser_def new_record_def sim_port0_def)
  moreover have "srv_storage calm_server = disk_storage" by (simp add: calm_server_def sim_server_def)
  moreover have "manager_safe sim_issued sim_pool" using served_parts(1) [OF sim_servers(1)] by simp
  ultimately show ?thesis
    by (simp add: served_ok_def daemon_ok_def kube_ok_def grows_def) (simp add: calm_k8s_def)
qed

lemma calm_leaves [simp]: "leaves_address (calm_pod name)"
  by (simp add: leaves_address_def calm_pod_def convertPod_def annotation_def parseBool_def sim_kpod_def
      sticks_for_owner_eq)

lemma calm_no_sticky: "no_sticky_pods calm_k8s"
  by (auto simp: no_sticky_pods_def calm_k8s_def)

lemma calm_deletes: "deletes_work (ds_db (srv_resourceDB calm_server))"
  by (auto simp: deletes_work_def calm_server_def sim_store_def sim_bolt_def)

lemma calm_has_pod: "has_pod calm_k8s ns name (calm_pod name)"
  by (simp add: has_pod_def calm_k8s_def)

lemma calm_not_static: "\<not> requireStaticIP (pod_context ctx (calm_pod name))"
  by (simp add: requireStaticIP_def pod_context_def annotation_def calm_pod_def sim_kpod_def)

lemma calm_alloc: "has_pod (srv_k8s calm_server) (ar_K8SPodNamespace (sim_alloc name)) (ar_K8SPodName (sim_alloc name))
    (calm_pod name)"
  by (simp add: calm_has_pod)

lemma calm_pool: "\<not> locked (srv_portManager calm_server)" "idle_ids (srv_portManager calm_server) \<noteq> {#}"
  by simp_all

lemma serial_at:
  assumes "hstep h s = Some (h', t)" "one_per_pod [g, h']" "serial_step\<^sup>*\<^sup>* (t, [g, h']) d"
  shows "serial_step\<^sup>*\<^sup>* (s, [g, h]) d"
proof -
  have "daemon_step (s, [g, h]) (t, [g, h'])" using daemon_step.run [of 1 "[g, h]" s h' t] assms(1) by simp
  then show ?thesis using assms(2,3) by (metis converse_rtranclp_into_rtranclp serial_step_iff)
qed

lemma one_beside_ticker: "one_per_pod [Ticker g, h]"
  by (auto simp: one_per_pod_def key_of_def less_Suc_eq)

theorem ports_owned_once_witness:
  "\<exists>t port. serial_step\<^sup>*\<^sup>* (calm_server, [Ticker (CheckIdle True)])
       (t, [Ticker (CheckIdle True), AllocFile sim_ctx (calm_pod ''web'') port]) \<and>
     port_of t (sim_id 0) \<noteq> None \<and> GetResourceId port \<noteq> sim_id 0"
proof -
  let ?s = calm_server and ?pod = "calm_pod ''web''" and ?T = "Ticker (CheckIdle True)"
  obtain u rid and item :: poolItem and t where w: "hstep (AllocEnter sim_ctx (sim_alloc ''web'')) ?s = Some (AllocRecord sim_ctx ?pod, u)"
    "hstep (AllocRecord sim_ctx ?pod) u = Some (AllocPool sim_ctx ?pod (AcquireEnter sim_ctx rid), u)"
    "hstep (AllocPool sim_ctx ?pod (AcquireEnter sim_ctx rid)) u = Some (AllocFile sim_ctx ?pod (item_res item), t)"
    "srv_resourceDB t = srv_resourceDB ?s"
    by (rule allocation_steps [OF calm_server_ok calm_alloc [of "''web''"] calm_not_static calm_pool, of sim_ctx]) (rule that)
  let ?h = "AllocFile sim_ctx ?pod (item_res item)"
  have "serial_step (?s, [?T]) (?s, [?T, AllocEnter sim_ctx (sim_alloc ''web'')])"
    using daemon_step.request [of "AllocEnter sim_ctx (sim_alloc ''web'')" ?s "[?T]"] one_beside_ticker
    by (simp add: serial_step_iff)
  moreover have "serial_step\<^sup>*\<^sup>* (?s, [?T, AllocEnter sim_ctx (sim_alloc ''web'')]) (t, [?T, ?h])"
    by (rule serial_at [OF w(1) one_beside_ticker], rule serial_at [OF w(2) one_beside_ticker],
        rule serial_at [OF w(3) one_beside_ticker], rule rtranclp.rtrancl_refl)
  ultimately have run: "serial_step\<^sup>*\<^sup>* (?s, [?T]) (t, [?T, ?h])" by (rule converse_rtranclp_into_rtranclp)
  have start: "recorded (records ?s) {} \<subseteq># inuse_ids (srv_portManager ?s)"
    by (simp add: recorded_def new_record_def)
  have bal: "balanced (srv_portManager ?s)" by (simp add: sim_pool_balanced)
  have kube: "no_sticky_pods (srv_k8s ?s)" using calm_no_sticky by simp
  note o = ports_owned_once [OF calm_server_ok bal kube calm_deletes start run]
  have named: "names (records t) ''ns/web'' (sim_id 0)" "''ns/web'' \<notin> given_up [?T, ?h]"
    using w(4) calm_server_simps(3) by (simp_all add: names_def record_of_def gmap_get_def new_record_def given_up_def records_def)
  have "sim_id 0 \<notin># claim ?h" and use: "port_of t (sim_id 0) \<noteq> None" using o named by (meson list.set_intros)+
  then have "GetResourceId (item_res item) \<noteq> sim_id 0" by auto
  then show ?thesis using run use by blast
qed


subsection \<open>One handler with nobody beside it\<close>

text \<open>
  The interleaved handlers are the methods of \<open>Daemon\<close>: on a server in order, \<open>AllocateIP\<close> and
  \<open>ReleaseIP\<close> return an answer and leave a server if and only if the handler of the request, taking
  its steps with nobody beside it, ends after some number of them with this answer and this
  server. Nothing a method does is missing from the steps, and no step does more than the method.
\<close>

theorem handlers_alone:
  assumes "served_ok issued contents s"
  shows "(AllocateIP ctx r s = (Returns a, t) \<longleftrightarrow> (\<exists>n. alone n (AllocEnter ctx r) s = (AllocDone a, t))) \<and>
     (ReleaseIP ctx r' s = (Returns b, u) \<longleftrightarrow> (\<exists>n. alone n (FreeEnter ctx r') s = (FreeDone b, u)))"
proof -
  note parts = served_parts(2,3) [OF assms]
  have "rest (AllocEnter ctx r) s = (Returns (AllocDone a), t) \<longleftrightarrow> AllocateIP ctx r s = (Returns a, t)"
    "rest (FreeEnter ctx r') s = (Returns (FreeDone b), u) \<longleftrightarrow> ReleaseIP ctx r' s = (Returns b, u)"
    by (simp_all add: go_bind_def split: prod.split outcome.split)
  then show ?thesis
    using alone_rest [OF parts, of "AllocEnter ctx r" "AllocDone a" t] alone_rest [OF parts, of "FreeEnter ctx r'" "FreeDone b" u]
    by simp
qed

theorem handlers_alone_witness:
  "\<exists>n reply t. alone n (AllocEnter sim_ctx (sim_alloc ''web'')) (sim_server sim_pool) = (AllocDone (Inr reply), t)"
proof -
  obtain reply t where "AllocateIP sim_ctx (sim_alloc ''web'') (sim_server sim_pool) = (Returns (Inr reply), t)"
    using sim_pool_allocates [of "''web''"] by blast
  then show ?thesis using handlers_alone [OF sim_servers(1)] by blast
qed

subsection \<open>Two requests for one pod at the same time\<close>

lemma only_item:
  assumes "mset (queue_items q) = add_mset item M" "image_mset item_id (mset (queue_items q)) = {#rid#}"
    and "port \<in> item_res ` set (queue_items q)"
  shows "item_res item = port" "item_id item = rid"
proof -
  have "size (queue_items q) = 1" using arg_cong [OF assms(2), of size] by simp
  moreover have "item \<in> set (queue_items q)" using assms(1) by (metis set_mset_mset union_single_eq_member)
  ultimately show "item_res item = port" using assms(3) by (cases "queue_items q") auto
  show "item_id item = rid" using assms(2) unfolding assms(1) by simp
qed

text \<open>
  C19. Two release requests for one pod that run at the same time take another pod's address away,
  even if the pod does not keep its address. Nothing is idle, and the record of the pod names a
  port in use. There is a run in which both requests read the record before either deletes it; the
  first gives the port back; an allocation for another pod takes the port, records it and replies
  with its configuration; and then the second gives it back again: the port is idle and not in
  use, while the record of the other pod, whose request has succeeded, names it.
\<close>

theorem double_release_frees_other_pod:
  assumes "served_ok issued contents s" "\<not> locked (srv_portManager s)" "idle_ids (srv_portManager s) = {#}"
    and "has_pod (srv_k8s s) (rr_K8SPodNamespace r) (rr_K8SPodName r) pod"
    and "has_pod (srv_k8s s) (ar_K8SPodNamespace a) (ar_K8SPodName a) other" "pod_key other \<noteq> pod_key pod"
    and "record_of (records s) (pod_key pod) = new_record info p0" "port_of s (GetResourceId p0) = Some port"
    and "\<not> requireStaticIP (pod_context ctx' other)" "takes_record other (srv_resourceDB s)"
    and "NetConfFromPort port = Inr conf" "ctx_Err ctx' = None"
  shows "\<exists>t reply. daemon_step\<^sup>*\<^sup>* (s, [FreeEnter ctx r, FreeEnter ctx r, AllocEnter ctx' a])
       (t, [free_ports ctx pod [], free_ports ctx pod [], AllocDone (Inr reply)]) \<and>
     ap_NetConfs reply = conf \<and> names (records t) (pod_key other) (GetResourceId p0) \<and>
     port_of t (GetResourceId p0) = None \<and> GetResourceId p0 \<in># idle_ids (srv_portManager t)"
proof -
  let ?rid = "GetResourceId p0" and ?R = "[\<lparr>ri_Type = GetType p0, ri_ID = GetResourceId p0\<rparr>]"
  have goes: "free_ports ctx pod (pr_Resources (new_record info p0)) = FreePorts ctx pod ?R"
    by (simp add: free_ports_def new_record_def)
  obtain u1 where f1: "hstep (FreeEnter ctx r) s = Some (FreeRecord ctx pod, u1)"
    "hstep (FreeRecord ctx pod) u1 = Some (FreePorts ctx pod ?R, u1)" "served_ok issued contents u1"
    "srv_resourceDB u1 = srv_resourceDB s" "srv_k8s u1 = srv_k8s s"
    "locked (srv_portManager u1) = locked (srv_portManager s)" "inuse (srv_portManager u1) = inuse (srv_portManager s)"
    "idle (srv_portManager u1) = idle (srv_portManager s)"
    by (rule release_steps [OF assms(1,4), of ctx]) (use assms(7) goes in simp)
  have pod1: "has_pod (srv_k8s u1) (rr_K8SPodNamespace r) (rr_K8SPodName r) pod" using assms(4) f1(5) by simp
  have rec1: "record_of (records u1) (pod_key pod) = new_record info p0" using assms(7) f1(4) by (simp add: records_def)
  obtain u2 where f2: "hstep (FreeEnter ctx r) u1 = Some (FreeRecord ctx pod, u2)"
    "hstep (FreeRecord ctx pod) u2 = Some (FreePorts ctx pod ?R, u2)" "served_ok issued contents u2"
    "srv_resourceDB u2 = srv_resourceDB u1" "srv_k8s u2 = srv_k8s u1"
    "locked (srv_portManager u2) = locked (srv_portManager u1)" "inuse (srv_portManager u2) = inuse (srv_portManager u1)"
    "idle (srv_portManager u2) = idle (srv_portManager u1)"
    by (rule release_steps [OF f1(3) pod1, of ctx]) (use rec1 goes in simp)
  note safe2 = served_parts(1) [OF f2(3)]
  have two: "\<not> locked (srv_portManager u2)" "port_of u2 ?rid = Some port" "idle_ids (srv_portManager u2) = {#}"
    using assms(2,3,8) f1(6-8) f2(6-8) by (simp_all add: idle_ids_def)
  obtain m where m: "hstep (FreePorts ctx pod ?R) u2 = Some (free_ports ctx pod [], u2\<lparr>srv_portManager := m\<rparr>)"
    "manager_safe issued m" "\<not> locked m" "inuse m = gmap_delete (inuse (srv_portManager u2)) ?rid"
    "idle_ids m = add_mset ?rid (idle_ids (srv_portManager u2))" "port \<in> item_res ` set (queue_items (idle m))"
    by (rule gives_back [OF safe2 two(1,2)])
  let ?u3 = "u2\<lparr>srv_portManager := m\<rparr>"
  have pod3: "has_pod (srv_k8s ?u3) (ar_K8SPodNamespace a) (ar_K8SPodName a) other" using assms(5) f1(5) f2(5) by simp
  obtain v rid item t1 where a: "hstep (AllocEnter ctx' a) ?u3 = Some (AllocRecord ctx' other, v)"
    "hstep (AllocRecord ctx' other) v = Some (AllocPool ctx' other (AcquireEnter ctx' rid), v)"
    "hstep (AllocPool ctx' other (AcquireEnter ctx' rid)) v = Some (AllocFile ctx' other (item_res item), t1)"
    "served_ok issued contents t1" "srv_resourceDB t1 = srv_resourceDB ?u3" "srv_k8s t1 = srv_k8s ?u3"
    "\<not> locked (srv_portManager t1)"
    "inuse (srv_portManager t1) = gmap_put (inuse (srv_portManager ?u3)) (item_id item) (item_res item)"
    "mset (queue_items (idle (srv_portManager ?u3))) = add_mset item (mset (queue_items (idle (srv_portManager t1))))"
    by (rule allocation_steps [OF served_manager [OF f2(3) m(2)] pod3 assms(9)]) (use m(3,5) in simp_all)
  have one: "image_mset item_id (mset (queue_items (idle m))) = {#?rid#}" using m(5) two(3) by (simp add: idle_ids_def)
  have "mset (queue_items (idle m)) = add_mset item (mset (queue_items (idle (srv_portManager t1))))" using a(9) by simp
  note item = only_item [OF this one m(6)]
  have takes: "takes_record other (srv_resourceDB t1)" using assms(10) a(5) f2(4) f1(4) by simp
  obtain e f t2 where w: "hstep (AllocFile ctx' other port) t1 = Some (AllocMemory ctx' other port, t2)"
    "srv_resourceDB t2 = (srv_resourceDB t1)\<lparr>ds_file := f\<rparr>" "srv_portManager t2 = srv_portManager t1"
    by (rule writes_file [OF takes])
  have "memory_ok (srv_resourceDB t2)" using served_parts(3) [OF a(4)] w(2) by (simp add: memory_ok_def)
  then obtain t3 where p: "hstep (AllocMemory ctx' other port) t2 = Some (AllocDone (alloc_reply ctx' port), t3)"
    "srv_portManager t3 = srv_portManager t2"
    "records t3 = gmap_put (records t2) (pod_key other) (new_record (convertPod other) port)"
    by (rule writes_memory)
  have port: "GetResourceId port = ?rid"
    by (rule pool_wfD(3) [OF manager_safeD(1) [OF served_okD [OF assms(1)]] assms(8)])
  have three: "manager_safe issued (srv_portManager t3)" "\<not> locked (srv_portManager t3)" "port_of t3 ?rid = Some port"
    using served_parts(1) [OF a(4)] a(7,8) item w(3) p(2) by simp_all
  obtain n where n: "hstep (FreePorts ctx pod ?R) t3 = Some (free_ports ctx pod [], t3\<lparr>srv_portManager := n\<rparr>)"
    "manager_safe issued n" "inuse n = gmap_delete (inuse (srv_portManager t3)) ?rid"
    "idle_ids n = add_mset ?rid (idle_ids (srv_portManager t3))"
    by (rule gives_back [OF three])
  let ?t = "t3\<lparr>srv_portManager := n\<rparr>" and ?F = "free_ports ctx pod []" and ?A = "AllocDone (alloc_reply ctx' port)"
  obtain reply where reply: "alloc_reply ctx' port = Inr reply" "ap_NetConfs reply = conf"
    using assms(11,12) by (simp add: alloc_reply_def)
  have "daemon_step\<^sup>*\<^sup>* (s, [FreeEnter ctx r, FreeEnter ctx r, AllocEnter ctx' a]) (?t, [?F, ?F, AllocDone (Inr reply)])"
    by (rule moves_first [OF f1(1)], rule moves_first [OF f1(2)], rule moves_second [OF f2(1)],
        rule moves_second [OF f2(2)], rule moves_first [OF m(1)], rule moves_third [OF a(1)],
        rule moves_third [OF a(2)], rule moves_third [OF a(3) [unfolded item]], rule moves_third [OF w(1)],
        rule moves_third [OF p(1) [unfolded reply]], rule moves_second [OF n(1)], rule rtranclp.rtrancl_refl)
  moreover have "names (records ?t) (pod_key other) ?rid"
    using p(3) port by (simp add: names_def record_of_def records_def new_record_def)
  ultimately show ?thesis using reply(2) n(3,4) by (intro exI conjI) (assumption | simp)+
qed

text \<open>The same records, on a server where the pods are those of \<open>sim_k8s\<close> and nothing is idle.\<close>

definition race_server :: "(sim, string \<Rightarrow> (string, string) gmap) server" where
  "race_server = calm_server\<lparr>srv_k8s := sim_k8s, srv_portManager := sim_busy\<rparr>"

lemma race_server_simps [simp]:
  "srv_k8s race_server = sim_k8s" "srv_portManager race_server = sim_busy"
  "srv_resourceDB race_server = srv_resourceDB calm_server" "records race_server = records calm_server"
  by (simp_all add: race_server_def records_def)

lemma race_server_ok: "served_ok sim_issued sim_contents race_server"
  using calm_server_ok served_parts [OF sim_servers(2)]
  by (simp add: served_ok_def daemon_ok_def) (simp add: race_server_def)

lemma sim_takes: "name \<in> {''db'', ''web''} \<Longrightarrow> takes_record (sim_kpod name) (srv_resourceDB calm_server)"
  using sim_ser_record [of name] by (auto simp: takes_record_def calm_server_def sim_store_def sim_bolt_def)

lemma sim_busy_free: "\<not> locked sim_busy" "idle_ids sim_busy = {#}"
  using NewPriorityQueue_wf(2) by (simp_all add: idle_ids_def sim_busy_def sim_pool_def)

theorem double_release_frees_other_pod_witness:
  "pi_IpStickTime (convertPod (sim_kpod ''web'')) = 0 \<and>
   (\<exists>t reply. daemon_step\<^sup>*\<^sup>* (race_server,
        [FreeEnter sim_ctx (sim_release ''web''), FreeEnter sim_ctx (sim_release ''web''), AllocEnter sim_ctx (sim_alloc ''db'')])
      (t, [FreeFile sim_ctx (sim_kpod ''web''), FreeFile sim_ctx (sim_kpod ''web''), AllocDone (Inr reply)]) \<and>
     names (records t) ''ns/db'' (sim_id 0) \<and> sim_id 0 \<in># idle_ids (srv_portManager t))"
proof -
  obtain conf where conf: "NetConfFromPort sim_port0 = Inr conf" using sim_port0_conf unfolding sim_port0_def by blast
  have rec: "record_of (records race_server) ''ns/web'' = new_record (convertPod (sim_kpod ''web'')) sim_port0"
    by (simp add: record_of_def gmap_get_def)
  have stick: "pi_IpStickTime (convertPod (sim_kpod ''web'')) = 0" by (simp add: sim_kpod_info)
  then have "free_ports sim_ctx (sim_kpod ''web'') [] = FreeFile sim_ctx (sim_kpod ''web'')" by (simp add: free_ports_def)
  then show ?thesis
    using double_release_frees_other_pod [OF race_server_ok, of "sim_release ''web''" "sim_kpod ''web''" "sim_alloc ''db''"
        "sim_kpod ''db''" "convertPod (sim_kpod ''web'')" sim_port0 sim_port0 sim_ctx conf sim_ctx]
      sim_busy_free sim_port0_use(2) sim_takes [of "''db''"] conf rec stick sim_not_static [of sim_ctx "''db''"]
    by auto
qed

text \<open>
  C20. Two allocation requests for one pod that run at the same time leave the database in two
  minds. When two resources are idle there is a run in which each request takes one, the second
  writes its record to the file after the first and to the memory before it: both succeed, both
  ports are in use, the daemon's memory names the first one's port, and the file names the second
  one's, which is the record a restarted daemon would load.
\<close>

theorem concurrent_puts_diverge:
  assumes "served_ok issued contents s" "\<not> locked (srv_portManager s)" "2 \<le> size (idle_ids (srv_portManager s))"
    and "has_pod (srv_k8s s) (ar_K8SPodNamespace a) (ar_K8SPodName a) pod"
    and "\<not> requireStaticIP (pod_context ctx pod)" "takes_record pod (srv_resourceDB s)"
  shows "\<exists>t port other. daemon_step\<^sup>*\<^sup>* (s, [AllocEnter ctx a, AllocEnter ctx a])
       (t, [AllocDone (alloc_reply ctx port), AllocDone (alloc_reply ctx other)]) \<and>
     GetResourceId port \<noteq> GetResourceId other \<and>
     port_of t (GetResourceId port) = Some port \<and> port_of t (GetResourceId other) = Some other \<and>
     record_of (records t) (pod_key pod) = new_record (convertPod pod) port \<and>
     (\<exists>e. contents (ds_file (srv_resourceDB t)) (ds_name (srv_resourceDB t)) (pod_key pod) = Some e \<and>
        ds_deserializer (srv_resourceDB t) e = Inr (new_record (convertPod pod) other))"
proof -
  have "idle_ids (srv_portManager s) \<noteq> {#}" using assms(3) by auto
  from allocation_steps [OF assms(1,4,5,2) this] obtain u1 rid1 and i1 :: poolItem and t1
    where a1: "hstep (AllocEnter ctx a) s = Some (AllocRecord ctx pod, u1)"
      "hstep (AllocRecord ctx pod) u1 = Some (AllocPool ctx pod (AcquireEnter ctx rid1), u1)"
      "hstep (AllocPool ctx pod (AcquireEnter ctx rid1)) u1 = Some (AllocFile ctx pod (item_res i1), t1)"
      "served_ok issued contents t1" "srv_resourceDB t1 = srv_resourceDB s" "srv_k8s t1 = srv_k8s s"
      "\<not> locked (srv_portManager t1)"
      "inuse (srv_portManager t1) = gmap_put (inuse (srv_portManager s)) (item_id i1) (item_res i1)"
      "mset (queue_items (idle (srv_portManager s))) = add_mset i1 (mset (queue_items (idle (srv_portManager t1))))"
    by metis
  have pod1: "has_pod (srv_k8s t1) (ar_K8SPodNamespace a) (ar_K8SPodName a) pod" using assms(4) a1(6) by simp
  have "idle_ids (srv_portManager t1) \<noteq> {#}" using assms(3) a1(9) by (auto simp: idle_ids_def)
  from allocation_steps [OF a1(4) pod1 assms(5) a1(7) this] obtain u2 rid2 and i2 :: poolItem and t2
    where a2: "hstep (AllocEnter ctx a) t1 = Some (AllocRecord ctx pod, u2)"
      "hstep (AllocRecord ctx pod) u2 = Some (AllocPool ctx pod (AcquireEnter ctx rid2), u2)"
      "hstep (AllocPool ctx pod (AcquireEnter ctx rid2)) u2 = Some (AllocFile ctx pod (item_res i2), t2)"
      "served_ok issued contents t2" "srv_resourceDB t2 = srv_resourceDB t1"
      "inuse (srv_portManager t2) = gmap_put (inuse (srv_portManager t1)) (item_id i2) (item_res i2)"
      "mset (queue_items (idle (srv_portManager t1))) = add_mset i2 (mset (queue_items (idle (srv_portManager t2))))"
    by metis
  let ?r1 = "item_res i1" and ?r2 = "item_res i2" and ?d = "srv_resourceDB s"
  have disk: "bolt_ok contents (ds_db ?d)" "\<And>v e. ds_serializer ?d v = Inr e \<Longrightarrow> ds_deserializer ?d e = Inr v"
    using assms(1) by (simp_all add: served_ok_def daemon_ok_def disk_ok_def)
  have apart: "GetResourceId ?r1 \<noteq> GetResourceId ?r2"
  proof
    assume eq: "GetResourceId ?r1 = GetResourceId ?r2"
    have "item_id i1 \<in># inuse_ids (srv_portManager t1)"
      using not_inuse_iff [of "item_id i1" "srv_portManager t1"] a1(8) by auto
    moreover have "count (inuse_ids (srv_portManager t1) + idle_ids (srv_portManager t1) + {#}) (item_id i1) \<le> 1"
      using manager_safeD(2) [OF served_parts(1) [OF a1(4)]] by (simp add: held_def add_ac)
    ultimately have "item_id i1 \<notin># idle_ids (srv_portManager t1)" using held_once by metis
    then show False using eq a2(7) by (simp add: idle_ids_def item_id_def)
  qed
  obtain e1 f1 t3 where w1: "hstep (AllocFile ctx pod ?r1) t2 = Some (AllocMemory ctx pod ?r1, t3)"
    "srv_resourceDB t3 = ?d\<lparr>ds_file := f1\<rparr>" "srv_portManager t3 = srv_portManager t2"
    by (rule writes_file [of pod t2 ?r1 ctx]) (use assms(6) a1(5) a2(5) in simp_all)
  have "takes_record pod (srv_resourceDB t3)" using assms(6) w1(2) by (simp add: takes_record_def)
  then obtain e2 f2 t4 where w2: "ds_serializer ?d (new_record (convertPod pod) ?r2) = Inr e2"
    "bolt_Put (ds_db ?d) (ds_name ?d) (pod_key pod) e2 f1 = (Returns None, f2)"
    "hstep (AllocFile ctx pod ?r2) t3 = Some (AllocMemory ctx pod ?r2, t4)"
    "srv_resourceDB t4 = ?d\<lparr>ds_file := f2\<rparr>" "srv_portManager t4 = srv_portManager t3" "records t4 = records t3"
    by (rule writes_file [of pod t3 ?r2 ctx]) (use w1(2) in simp_all)
  have mem4: "memory_ok (srv_resourceDB t4)" using w2(4) served_parts(3) [OF assms(1)] by (simp add: memory_ok_def)
  obtain t5 where p2: "hstep (AllocMemory ctx pod ?r2) t4 = Some (AllocDone (alloc_reply ctx ?r2), t5)"
    "srv_portManager t5 = srv_portManager t4" "memory_ok (srv_resourceDB t5)"
    "ds_file (srv_resourceDB t5) = f2" "ds_db (srv_resourceDB t5) = ds_db ?d" "ds_name (srv_resourceDB t5) = ds_name ?d"
    "ds_deserializer (srv_resourceDB t5) = ds_deserializer ?d" "ds_serializer (srv_resourceDB t5) = ds_serializer ?d"
    by (rule writes_memory [OF mem4, of ctx pod ?r2]) (use w2(4) in simp_all)
  obtain t where p1: "hstep (AllocMemory ctx pod ?r1) t5 = Some (AllocDone (alloc_reply ctx ?r1), t)"
    "srv_portManager t = srv_portManager t5"
    "records t = gmap_put (records t5) (pod_key pod) (new_record (convertPod pod) ?r1)"
    "ds_file (srv_resourceDB t) = f2" "ds_db (srv_resourceDB t) = ds_db ?d" "ds_name (srv_resourceDB t) = ds_name ?d"
    "ds_deserializer (srv_resourceDB t) = ds_deserializer ?d" "ds_serializer (srv_resourceDB t) = ds_serializer ?d"
    by (rule writes_memory [OF p2(3), of ctx pod ?r1]) (use p2(4-8) in simp_all)
  have "daemon_step\<^sup>*\<^sup>* (s, [AllocEnter ctx a, AllocEnter ctx a])
      (t, [AllocDone (alloc_reply ctx ?r1), AllocDone (alloc_reply ctx ?r2)])"
    by (rule moves_first [OF a1(1)], rule moves_first [OF a1(2)], rule moves_first [OF a1(3)],
        rule moves_second [OF a2(1)], rule moves_second [OF a2(2)], rule moves_second [OF a2(3)],
        rule moves_first [OF w1(1)], rule moves_second [OF w2(3)], rule moves_second [OF p2(1)],
        rule moves_first [OF p1(1)], rule rtranclp.rtrancl_refl)
  moreover have "port_of t (GetResourceId ?r1) = Some ?r1" "port_of t (GetResourceId ?r2) = Some ?r2"
    using apart a1(8) a2(6) w1(3) w2(5) p2(2) p1(2) by (simp_all add: item_id_def)
  moreover have "record_of (records t) (pod_key pod) = new_record (convertPod pod) ?r1"
    using p1(3) by (simp add: record_of_def)
  moreover have "contents (ds_file (srv_resourceDB t)) (ds_name (srv_resourceDB t)) (pod_key pod) = Some e2"
    using bolt_okD(1) [OF disk(1) w2(2)] p1(4,6) by simp
  moreover have "ds_deserializer (srv_resourceDB t) e2 = Inr (new_record (convertPod pod) ?r2)"
    using disk(2) [OF w2(1)] p1(7) by simp
  ultimately show ?thesis using apart by blast
qed

theorem concurrent_puts_diverge_witness:
  "\<exists>t port other. daemon_step\<^sup>*\<^sup>* (sim_server sim_pool,
       [AllocEnter sim_ctx (sim_alloc ''web''), AllocEnter sim_ctx (sim_alloc ''web'')])
     (t, [AllocDone (alloc_reply sim_ctx port), AllocDone (alloc_reply sim_ctx other)]) \<and>
     GetResourceId port \<noteq> GetResourceId other \<and>
     record_of (records t) ''ns/web'' = new_record (convertPod (sim_kpod ''web'')) port \<and>
     (\<exists>e. sim_contents (ds_file (srv_resourceDB t)) (ds_name (srv_resourceDB t)) ''ns/web'' = Some e \<and>
        ds_deserializer (srv_resourceDB t) e = Inr (new_record (convertPod (sim_kpod ''web'')) other))"
proof -
  have takes: "takes_record (sim_kpod ''web'') sim_store"
    using sim_takes [of "''web''"] by (simp add: takes_record_def calm_server_def)
  have two: "2 \<le> size (idle_ids sim_pool)" by simp
  show ?thesis
    using concurrent_puts_diverge [OF sim_servers(1), of "sim_alloc ''web''" "sim_kpod ''web''" sim_ctx]
      takes two sim_pool_unlocked(1) sim_not_static [of sim_ctx "''web''"]
    by (simp add: sim_has_pod) blast
qed

end
