(* ===== verification/Handler_Progress.thy ===== *)
theory Handler_Progress
  imports Handler_Properties
begin

section \<open>Requests come to an end\<close>

text \<open>
  No request is served forever: a handler takes finitely many steps, whatever others do between
  them, and it stands still for one of four reasons only.
\<close>

subsection \<open>What a handler can wait for\<close>

text \<open>
  A handler that stands still because a call has not returned or panicked; one that waits for a
  token while its context is alive; one that cannot return its token.
\<close>

fun halted :: "handler \<Rightarrow> bool" where
  "halted (Halted h) = True"
| "halted (AllocPool ctx pod (Stuck n)) = True"
| "halted h = False"

fun waits :: "handler \<Rightarrow> 'w pool \<Rightarrow> bool" where
  "waits (AllocPool ctx pod (AcquireSelect c)) p \<longleftrightarrow> tokens p = 0 \<and> \<not> ctx_done c"
| "waits (AllocPool ctx pod (AcquireReturnToken e)) p \<longleftrightarrow> tokenCap p \<le> tokens p"
| "waits h p \<longleftrightarrow> False"

lemma moves_None: "moves m next h s = None \<longleftrightarrow> (\<exists>t. m s = (Halts Blocked, t))"
  by (auto simp: moves_def split: prod.splits outcome.splits halt.splits)

lemma attempt_None: "attempt m next k s = None \<longleftrightarrow> (\<exists>t. m s = (Halts Blocked, t))"
  by (auto simp: attempt_def split: prod.splits outcome.splits halt.splits)

lemma section_returns:
  assumes "\<not> locked p" "pool_wf p"
  shows "\<exists>r q. acquire_section rid p = (Returns r, q)"
proof (cases "idle_ids p = {#}")
  case True
  then show ?thesis using acquire_section_empty [OF assms(1) pool_wfD(1) [OF assms(2)]] by blast
next
  case False
  then show ?thesis using acquire_section_found [OF assms(1,2) False] by metis
qed

lemma acquiring_waits:
  assumes "acquiring g" "\<nexists>r. g = AcquireDone r" "gstep g p = None" "pool_wf p"
  shows "halted (AllocPool ctx pod g) \<or> locked p \<or> waits (AllocPool ctx pod g) p"
proof (cases "locked p")
  case False
  note free = this
  show ?thesis
  proof (cases g)
    case (AcquireEnter c rid)
    then show ?thesis
      using section_returns [OF free assms(4), of rid] assms(3) by (auto simp: attempt_None)
  next
    case (AcquireSelect c)
    then show ?thesis using assms(3) by (auto simp: attempt_None token_select_def split: if_splits)
  next
    case (AcquireReturnToken e)
    then show ?thesis using assms(3) by (auto simp: attempt_None token_send_def split: if_splits)
  next
    case AcquireCreate
    then show ?thesis using assms(3) by (simp add: call_out_def split: prod.splits outcome.splits)
  next
    case (AcquireAdd res)
    then show ?thesis using AddInuse_run [OF free, of res] assms(3) by (simp add: attempt_None)
  qed (use assms in auto)
qed simp

lemma manager_release_returns:
  assumes "\<not> locked p" "pool_wf p"
  shows "\<exists>r q. Manager_Release (Some (pod_context ctx pod)) rid p = (Returns r, q)"
proof (cases "gmap_get (inuse p) rid")
  case None
  then show ?thesis
    using Release_missing_run [OF assms(1), of rid] not_inuse [of rid p] by (auto simp: Manager_Release_def pod_context_def)
next
  case (Some r)
  show ?thesis by (rule Release_run [OF assms Some, of "pi_IpStickTime (convertPod pod)"]) (simp add: Manager_Release_def pod_context_def)
qed

lemma handler_waits:
  assumes "hstep h s = None" "in_place h" "\<nexists>g. h = Ticker g"
    and st: "srv_storage s = disk_storage" "memory_ok (srv_resourceDB s)" and safe: "manager_safe issued (srv_portManager s)"
  shows "finished h \<or> halted h \<or> locked (srv_portManager s) \<or> waits h (srv_portManager s)"
proof (cases "locked (srv_portManager s)")
  case False
  note wf = manager_safeD(1) [OF safe] and step = assms(1)
  show ?thesis
  proof (cases h)
    case (AllocPool ctx pod g)
    then show ?thesis using acquiring_waits [OF _ _ _ wf, of g] assms(1,2) by (auto split: option.splits)
  next
    case (AllocRecord ctx pod)
    show ?thesis using step getPodResource_memory [OF st] unfolding AllocRecord hstep.simps moves_None by simp
  next
    case (FreeRecord ctx pod)
    show ?thesis using step getPodResource_memory [OF st] unfolding FreeRecord hstep.simps moves_None by simp
  next
    case (AllocIdle ctx pod)
    show ?thesis using step unfolding AllocIdle hstep.simps moves_None srv_manager_run
      by (cases "GetIdle (srv_portManager s)") simp_all
  next
    case (AllocAddIdle ctx pod res)
    show ?thesis using step AddIdle_run [OF False pool_wfD(1) [OF wf], of res]
      unfolding AllocAddIdle hstep.simps moves_None srv_manager_run by (metis (no_types, lifting) fst_conv case_prod_conv outcome.distinct(1))
  next
    case (AllocMemory ctx pod port)
    show ?thesis using step st(2) unfolding AllocMemory hstep.simps moves_None srv_disk_run ds_mem_run memory_ok_def
      by (simp add: Memory_runs)
  next
    case (FreeMemory ctx pod)
    show ?thesis using step st(2) unfolding FreeMemory hstep.simps moves_None srv_disk_run ds_mem_run memory_ok_def
      by (simp add: Memory_runs)
  next
    case (FreePorts ctx pod items)
    show ?thesis
    proof (cases items)
      case Nil
      then show ?thesis using step unfolding FreePorts by simp
    next
      case (Cons i rest)
      obtain r q where "Manager_Release (Some (pod_context ctx pod)) (ri_ID i) (srv_portManager s) = (Returns r, q)"
        using manager_release_returns [OF False wf] by blast
      then show ?thesis using step unfolding FreePorts Cons hstep.simps moves_None srv_manager_run by simp
    qed
  qed (use assms(1,3) in \<open>auto simp del: go_bind_run not_None_eq simp: calls_move\<close>)
qed simp

subsection \<open>How many steps it takes\<close>

text \<open>The handlers of requests stay at their points: the end of a connection does not move them.\<close>

definition placed :: "handler list \<Rightarrow> bool" where
  "placed hs \<longleftrightarrow> (\<forall>h \<in> set hs. (\<exists>g. h = Ticker g) \<or> in_place h)"

lemma end_context_place:
  "in_place (end_context b e h) = in_place h" "togo (end_context b e h) = togo h"
  "(\<exists>g. end_context b e h = Ticker g) \<longleftrightarrow> (\<exists>g. h = Ticker g)"
proof -
  have g: "acquiring (end_acquire b e g) = acquiring g" "acquire_togo (end_acquire b e g) = acquire_togo g"
    "(\<forall>r. end_acquire b e g \<noteq> AcquireDone r) \<longleftrightarrow> (\<forall>r. g \<noteq> AcquireDone r)" for g by (cases g; simp)+
  then show "in_place (end_context b e h) = in_place h" "togo (end_context b e h) = togo h"
    "(\<exists>g. end_context b e h = Ticker g) \<longleftrightarrow> (\<exists>g. h = Ticker g)" by (cases h; simp)+
qed

lemma request_place: "is_request h \<Longrightarrow> in_place h \<and> (\<nexists>g. h = Ticker g)"
  by (cases h) auto

lemma ticker_moves: "hstep (Ticker g) s = Some (h, t) \<Longrightarrow> \<exists>g'. h = Ticker g'"
  by (auto split: option.splits)

lemma no_ticker_targets:
  "alloc_error e \<noteq> Ticker g" "start_allocate P ctx pod old \<noteq> Ticker g" "after_subnet ctx pod ports subnet \<noteq> Ticker g"
  "after_pool ctx pod k \<noteq> Ticker g" "free_ports ctx pod items \<noteq> Ticker g"
  by (auto simp: alloc_error_def start_allocate_def after_subnet_def after_pool_def free_ports_def
      split: outcome.splits bool.splits goroutine.splits sum.splits)

lemma hstep_stays_request:
  assumes "\<nexists>g. h = Ticker g" "hstep h s = Some (h', t)"
  shows "\<nexists>g. h' = Ticker g"
proof -
  have via: "\<nexists>g. h' = Ticker g" if "moves m f h s = Some (h', t) \<or> calls m f h s = Some (h', t)" "\<And>a g. f a \<noteq> Ticker g"
    for m f
  proof -
    have "(\<exists>a. h' = f a) \<or> h' = Halted h" using that(1) by (auto elim!: moves_cases calls_cases)
    moreover have "Ticker g \<noteq> f a" for a g using that(2) [of a g] by (rule not_sym)
    ultimately show ?thesis by auto
  qed
  show ?thesis
  proof (cases h)
    case (FreePorts ctx pod items)
    show ?thesis
    proof (cases items)
      case (Cons i more)
      show ?thesis
        by (rule via [OF disjI1 [OF assms(2) [unfolded FreePorts Cons hstep.simps, folded FreePorts [unfolded Cons]]]])
          (simp add: no_ticker_targets split: option.split)
    qed (use assms(2) FreePorts no_ticker_targets in auto)
  next
    case (AllocPool ctx pod k)
    then show ?thesis using assms(2) no_ticker_targets by (auto split: option.splits)
  qed (use assms in \<open>auto elim!: moves_cases calls_cases simp: no_ticker_targets no_ticker_targets [symmetric]
      simp del: go_bind_run split: sum.splits option.splits prod.splits\<close>)
qed

lemma placed_update:
  "placed hs \<Longrightarrow> (\<exists>g. h = Ticker g) \<or> in_place h \<Longrightarrow> placed (hs[i := h])"
  unfolding placed_def using set_update_subset_insert [of hs i h] by blast

lemma placed_step:
  assumes "daemon_step (s, hs) (t, ks)" "placed hs"
  shows "placed ks"
  using assms(1)
proof (cases rule: daemon_step_cases)
  case (run i h)
  have "(\<exists>g. h = Ticker g) \<or> in_place h"
  proof (cases "\<exists>g. hs ! i = Ticker g")
    case True
    then show ?thesis using ticker_moves run(3) by metis
  next
    case False
    then have "in_place (hs ! i)" using assms(2) nth_mem [OF run(2)] unfolding placed_def by blast
    then show ?thesis using hstep_in_place [OF _ False run(3)] by blast
  qed
  then show ?thesis unfolding run(1) by (rule placed_update [OF assms(2)])
next
  case (request h)
  then show ?thesis using assms(2) request_place by (auto simp: placed_def)
next
  case (ends i b e)
  have "(\<exists>g. hs ! i = Ticker g) \<or> in_place (hs ! i)" using assms(2) nth_mem [OF ends(1)] unfolding placed_def by blast
  then show ?thesis unfolding ends(3) using end_context_place(1,3) by (intro placed_update [OF assms(2)]) metis
qed

lemma placed_steps: "daemon_step\<^sup>*\<^sup>* (s, hs) (t, ks) \<Longrightarrow> placed hs \<Longrightarrow> placed ks"
  by (induction "(t, ks)" arbitrary: t ks rule: rtranclp_induct) (auto intro: placed_step)

text \<open>An endless sequence of steps would descend forever in a well-founded order.\<close>

lemma steps_end:
  fixes f :: "nat \<Rightarrow> handler" and T :: "('w, 'b) server itself"
  assumes "in_place (f 0)" "\<nexists>g. f 0 = Ticker g"
    and "\<forall>n. \<exists>(u :: ('w, 'b) server) v k. hstep (f n) u = Some (k, v) \<and>
      (f (Suc n) = k \<or> (\<exists>b e. f (Suc n) = end_context b e k))"
  shows False
proof -
  have st: "in_place (f n) \<and> (\<nexists>g. f n = Ticker g)" for n
  proof (induction n)
    case (Suc n)
    obtain u v :: "('w, 'b) server" and k where k: "hstep (f n) u = Some (k, v)"
      "f (Suc n) = k \<or> (\<exists>b e. f (Suc n) = end_context b e k)" using assms(3) by blast
    have "in_place k" using hstep_in_place [OF _ _ k(1)] Suc by blast
    moreover have "\<nexists>g. k = Ticker g" using hstep_stays_request [OF _ k(1)] Suc by blast
    ultimately show ?case using k(2) end_context_place by metis
  qed (use assms(1,2) in blast)
  have "(togo (f (Suc n)), togo (f n)) \<in> nearer" for n
  proof -
    obtain u v :: "('w, 'b) server" and k where k: "hstep (f n) u = Some (k, v)"
      "f (Suc n) = k \<or> (\<exists>b e. f (Suc n) = end_context b e k)" using assms(3) by blast
    have "togo (f (Suc n)) = togo k" using k(2) end_context_place(2) by metis
    then show ?thesis using hstep_nearer [OF _ _ k(1)] st by metis
  qed
  then have "\<exists>g. \<forall>n. (g (Suc n), g n) \<in> nearer" by (intro exI [of _ "\<lambda>n. togo (f n)"]) blast
  then show False using wf_lex_prod [OF wf_less_than wf_less_than] unfolding wf_iff_no_infinite_down_chain by blast
qed

text \<open>
  C3. Every request comes to an end. In any interleaving, a request's handler takes finitely many
  steps: there is no endless sequence of them, whatever the state of the server is at each and
  whether or not the connection ends in between. And when a handler does not move, it has its
  answer, or a call of it has not returned or has panicked, or the pool's mutex is held, or it
  waits for a token while its context is alive, or it has a token to return and the channel is full.
\<close>

theorem requests_come_to_an_end:
  fixes s t :: "('w, 'b) server"
  assumes "served_ok issued contents s" "balanced (srv_portManager s)"
    and "daemon_step\<^sup>*\<^sup>* (s, [Ticker (CheckIdle True)]) (t, hs)" "h \<in> set hs" "\<nexists>g. h = Ticker g"
  shows "(\<nexists>f. f 0 = h \<and> (\<forall>n. \<exists>(u :: ('w, 'b) server) v k. hstep (f n) u = Some (k, v) \<and>
        (f (Suc n) = k \<or> (\<exists>b e. f (Suc n) = end_context b e k)))) \<and>
     (hstep h t = None \<longrightarrow>
        finished h \<or> halted h \<or> locked (srv_portManager t) \<or> waits h (srv_portManager t))"
proof -
  have "placed [Ticker (CheckIdle True)]" by (simp add: placed_def)
  then have place: "in_place h" using placed_steps [OF assms(3)] assms(4,5) by (auto simp: placed_def)
  have "daemon_kept issued 0 (s, [Ticker (CheckIdle True)])" by (rule served_kept [OF assms(1,2)]) simp
  from daemon_steps_kept [OF assms(3) this] obtain y where y: "daemon_kept issued y (t, hs)" by blast
  note k = daemon_keptD(3,4,5) [OF y]
  have "\<not> (f 0 = h \<and> (\<forall>n. \<exists>(u :: ('w, 'b) server) v k. hstep (f n) u = Some (k, v) \<and>
        (f (Suc n) = k \<or> (\<exists>b e. f (Suc n) = end_context b e k))))" for f
    using steps_end [of f] place assms(5) by blast
  then show ?thesis using handler_waits [OF _ place assms(5) k] by blast
qed

theorem requests_come_to_an_end_witness:
  "\<nexists>f. f 0 = AllocEnter sim_ctx (sim_alloc ''web'') \<and>
     (\<forall>n. \<exists>(u :: (sim, string \<Rightarrow> (string, string) gmap) server) v k. hstep (f n) u = Some (k, v) \<and>
        (f (Suc n) = k \<or> (\<exists>b e. f (Suc n) = end_context b e k)))"
proof -
  let ?h = "AllocEnter sim_ctx (sim_alloc ''web'')"
  have "daemon_step\<^sup>*\<^sup>* (sim_server sim_pool, [Ticker (CheckIdle True)])
      (sim_server sim_pool, [Ticker (CheckIdle True), ?h])"
    by (rule arrives [of ?h]) simp_all
  from requests_come_to_an_end [OF sim_servers(1) sim_balanced this, of ?h] show ?thesis by simp
qed

end
