(* ===== verification/Net_Addresses.thy ===== *)
theory Net_Addresses
  imports Go_Strings "HOL-Library.Word"
begin

section \<open>Addresses of Go's net package\<close>

text \<open>
  What the plugins use of package \<open>net\<close>: addresses and masks are byte slices, where the empty
  list is also nil. An IPv4 address is parsed into its sixteen byte form. The parser of IPv6
  addresses is an argument; everything about IPv4 is computed.
\<close>

unbundle bit_operations_syntax

type_synonym IP = "8 word list"

record IPNet =
  in_IP :: IP
  in_Mask :: "8 word list"

definition v4InV6Prefix :: "8 word list" where
  "v4InV6Prefix = replicate 10 0 @ [255, 255]"

definition decimal_value :: "string \<Rightarrow> nat" where
  "decimal_value s = foldl (\<lambda>n c. 10 * n + (of_char c - 48)) 0 s"

definition is_digit :: "char \<Rightarrow> bool" where
  "is_digit c \<longleftrightarrow> c \<in> set ''0123456789''"

text \<open>One of the four numbers of an address: no leading zeros, at most 255.\<close>

definition octet :: "string \<Rightarrow> 8 word option" where
  "octet s =
     (if s \<noteq> [] \<and> list_all is_digit s \<and> (length s = 1 \<or> hd s \<noteq> CHR ''0'') \<and> decimal_value s \<le> 255
      then Some (of_nat (decimal_value s)) else None)"

definition parseIPv4 :: "string \<Rightarrow> IP" where
  "parseIPv4 s =
     (case map octet (Split (CHR ''.'') s) of
        [Some a, Some b, Some c, Some d] \<Rightarrow> v4InV6Prefix @ [a, b, c, d]
      | _ \<Rightarrow> [])"

definition ParseIP :: "(string \<Rightarrow> IP) \<Rightarrow> string \<Rightarrow> IP" where
  "ParseIP parseIPv6 s =
     (case find (\<lambda>c. c = CHR ''.'' \<or> c = CHR '':'') s of
        None \<Rightarrow> []
      | Some c \<Rightarrow> if c = CHR ''.'' then parseIPv4 s else parseIPv6 s)"

text \<open>Byte by byte: ones as long as there are any left, then the rest of them, then zeros.\<close>

definition mask_byte :: "nat \<Rightarrow> 8 word" where
  "mask_byte n = (if 8 \<le> n then 255 else NOT (drop_bit n 255))"

definition CIDRMask :: "nat \<Rightarrow> nat \<Rightarrow> 8 word list" where
  "CIDRMask ones bits =
     (if (bits = 32 \<or> bits = 128) \<and> ones \<le> bits
      then map (\<lambda>i. mask_byte (ones - 8 * i)) [0..<bits div 8]
      else [])"

definition IP_Mask :: "IP \<Rightarrow> 8 word list \<Rightarrow> IP" where
  "IP_Mask addr m =
     (let addr' = (if length m = 4 \<and> length addr = 16 \<and> take 12 addr = v4InV6Prefix
                   then drop 12 addr else addr)
      in if length addr' = length m then map2 (AND) addr' m else [])"

definition ParseCIDR :: "(string \<Rightarrow> IP) \<Rightarrow> string \<Rightarrow> (IP \<times> IPNet) option" where
  "ParseCIDR parseIPv6 s =
     (case Split (CHR ''/'') s of
        addr # m # ms \<Rightarrow>
          (let v4 = parseIPv4 addr;
               addr' = (if v4 = [] then parseIPv6 addr else v4);
               bits = (if v4 = [] then 128 else 32);
               n = decimal_value m
           in if addr' = [] \<or> ms \<noteq> [] \<or> m = [] \<or> \<not> list_all is_digit m \<or> bits < n then None
              else Some (addr', \<lparr>in_IP = IP_Mask addr' (CIDRMask n bits), in_Mask = CIDRMask n bits\<rparr>))
      | _ \<Rightarrow> None)"

definition To4 :: "IP \<Rightarrow> IP" where
  "To4 addr =
     (if length addr = 4 then addr
      else if length addr = 16 \<and> take 12 addr = v4InV6Prefix then drop 12 addr
      else [])"

definition IsLoopback :: "IP \<Rightarrow> bool" where
  "IsLoopback addr =
     (if To4 addr \<noteq> [] then hd (To4 addr) = 127 else addr = replicate 15 0 @ [1])"

definition hex_digits :: "8 word \<Rightarrow> string" where
  "hex_digits b = [''0123456789abcdef'' ! (unat b div 16), ''0123456789abcdef'' ! (unat b mod 16)]"

definition HardwareAddr_String :: "8 word list \<Rightarrow> string" where
  "HardwareAddr_String a = Join (CHR '':'') (map hex_digits a)"

subsection \<open>Laws\<close>

lemma length_parseIPv4: "parseIPv4 s \<noteq> [] \<Longrightarrow> length (parseIPv4 s) = 16 \<and> take 12 (parseIPv4 s) = v4InV6Prefix"
  by (auto simp: parseIPv4_def v4InV6Prefix_def split: list.splits option.splits)

lemma length_CIDRMask:
  "ones \<le> 32 \<Longrightarrow> length (CIDRMask ones 32) = 4" "ones \<le> 128 \<Longrightarrow> length (CIDRMask ones 128) = 16"
  by (simp_all add: CIDRMask_def)

text \<open>An IPv4 network: both the masked address and the mask have four bytes.\<close>

lemma ParseCIDR_v4:
  assumes "ParseCIDR p6 s = Some (addr, net)" "parseIPv4 (hd (Split (CHR ''/'') s)) \<noteq> []"
  shows "addr = parseIPv4 (hd (Split (CHR ''/'') s))" "length (in_Mask net) = 4" "length (in_IP net) = 4"
proof -
  obtain a m where sp: "Split (CHR ''/'') s = [a, m]"
    using assms(1) by (auto simp: ParseCIDR_def Let_def split: list.splits if_splits)
  then show "addr = parseIPv4 (hd (Split (CHR ''/'') s))"
    using assms by (auto simp: ParseCIDR_def Let_def split: if_splits)
  have n: "decimal_value m \<le> 32" "in_Mask net = CIDRMask (decimal_value m) 32"
    "in_IP net = IP_Mask (parseIPv4 a) (CIDRMask (decimal_value m) 32)"
    using assms sp by (auto simp: ParseCIDR_def Let_def split: if_splits)
  then show "length (in_Mask net) = 4" by (simp add: length_CIDRMask)
  show "length (in_IP net) = 4"
    using n length_parseIPv4 [of a] assms(2) sp by (simp add: IP_Mask_def length_CIDRMask)
qed

lemma ParseCIDR_default: "ParseCIDR p6 ''0.0.0.0/0'' =
   Some (v4InV6Prefix @ [0, 0, 0, 0], \<lparr>in_IP = [0, 0, 0, 0], in_Mask = [0, 0, 0, 0]\<rparr>)"
  by (simp add: ParseCIDR_def parseIPv4_def octet_def is_digit_def decimal_value_def CIDRMask_def
      mask_byte_def IP_Mask_def v4InV6Prefix_def upt_rec Let_def)

lemma CIDRMask_host: "CIDRMask 32 32 = [255, 255, 255, 255]"
  by (simp add: CIDRMask_def mask_byte_def upt_rec)

end
