(* ===== verification/Net_Devices.thy ===== *)
theory Net_Devices
  imports Prelude Net_Addresses Utils
begin

section \<open>Network devices and namespaces\<close>

text \<open>
  What the two plugins share: the CNI library's result records, the link and route records they
  hand to the netlink library, and the operations they call. The operations come from libraries
  and change the machine's network, so they are a record of functions on the state of the
  outside world; the drivers take it as an argument.
\<close>

subsection \<open>Statements\<close>

text \<open>\<open>x, err := m; if err != nil { return nil, wrap(err) }\<close>, for calls with and without a value.\<close>

definition go_try :: "(error \<Rightarrow> error) \<Rightarrow> ('s, error + 'a) go \<Rightarrow> ('a \<Rightarrow> ('s, error + 'b) go) \<Rightarrow>
    ('s, error + 'b) go" where
  "go_try wrap m f =
     go_bind m (\<lambda>r. case r of Inl e \<Rightarrow> go_return (Inl (wrap e)) | Inr a \<Rightarrow> f a)"

definition go_check :: "(error \<Rightarrow> error) \<Rightarrow> ('s, error option) go \<Rightarrow> ('s, error + 'b) go \<Rightarrow>
    ('s, error + 'b) go" where
  "go_check wrap m k =
     go_bind m (\<lambda>r. case r of Some e \<Rightarrow> go_return (Inl (wrap e)) | None \<Rightarrow> k)"

text \<open>A deferred call runs when the body returns or panics; its own result is dropped.\<close>

definition go_defer :: "('s, 'd) go \<Rightarrow> ('s, 'a) go \<Rightarrow> ('s, 'a) go" where
  "go_defer later body = (\<lambda>s.
     case body s of
       (Returns a, t) \<Rightarrow>
         (case later t of (Returns _, u) \<Rightarrow> (Returns a, u) | (Halts h, u) \<Rightarrow> (Halts h, u))
     | (Halts Panicked, t) \<Rightarrow> (Halts Panicked, snd (later t))
     | (Halts h, t) \<Rightarrow> (Halts h, t))"

subsection \<open>Records\<close>

record Interface =
  if_Name :: string
  if_Mac :: string
  if_Sandbox :: string

definition no_interface :: Interface where
  "no_interface = \<lparr>if_Name = '''', if_Mac = '''', if_Sandbox = ''''\<rparr>"

record IPConfig =
  ipc_Interface :: "int option"
  ipc_Address :: IPNet
  ipc_Gateway :: IP

record Route =
  rt_Dst :: IPNet
  rt_GW :: IP

record Result =
  rs_CNIVersion :: string
  rs_Interfaces :: "Interface list"
  rs_IPs :: "IPConfig list"
  rs_Routes :: "Route list"

record NetNS =
  ns_Path :: string
  ns_Fd :: int

text \<open>Attributes of a link, and an interface as package \<open>net\<close> has it.\<close>

record Link =
  lk_Name :: string
  lk_Index :: int
  lk_HardwareAddr :: "8 word list"

datatype IPVlanMode = IPVLAN_MODE_L2 | IPVLAN_MODE_L3 | IPVLAN_MODE_L3S

record IPVlan =
  iv_MTU :: int
  iv_Name :: string
  iv_ParentIndex :: int
  iv_Namespace :: int
  iv_Mode :: IPVlanMode

datatype Scope = ScopeUniverse | ScopeLink

record NRoute =
  nr_LinkIndex :: int
  nr_Dst :: "IPNet option"
  nr_Gw :: IP
  nr_Scope :: Scope

datatype Addr = IPNetAddr IPNet | OtherAddr string

subsection \<open>What the libraries provide\<close>

text \<open>
  \<open>NS_Do\<close> runs a closure in a namespace, with the namespace it came from as argument. The
  closures of the plugins assign to variables of the enclosing function; the closure's result
  holds the interfaces it has assigned, beside its error.
\<close>

record 'w Host =
  GetNS :: "string \<Rightarrow> ('w, error + NetNS) go"
  CloseNS :: "NetNS \<Rightarrow> ('w, error option) go"
  NS_Do :: "NetNS \<Rightarrow> (NetNS \<Rightarrow> ('w, error + Interface list) go) \<Rightarrow> ('w, error + Interface list) go"
  WithNetNSPath :: "string \<Rightarrow> (NetNS \<Rightarrow> ('w, error option) go) \<Rightarrow> ('w, error option) go"
  LinkByName :: "string \<Rightarrow> ('w, error + Link) go"
  LinkAdd :: "IPVlan \<Rightarrow> ('w, error option) go"
  LinkSetUp :: "Link \<Rightarrow> ('w, error option) go"
  RouteAdd :: "NRoute \<Rightarrow> ('w, error option) go"
  RandomVethName :: "('w, error + string) go"
  RenameLink :: "string \<Rightarrow> string \<Rightarrow> ('w, error option) go"
  SetupVeth :: "string \<Rightarrow> int \<Rightarrow> string \<Rightarrow> NetNS \<Rightarrow> ('w, error + Link \<times> Link) go"
  DelLinkByName :: "string \<Rightarrow> ('w, error option) go"
  ConfigureIface :: "string \<Rightarrow> Result \<Rightarrow> ('w, error option) go"
  InterfaceByName :: "string \<Rightarrow> ('w, error + Link) go"
  Addrs :: "Link \<Rightarrow> ('w, error + Addr list) go"
  ErrLinkNotFound :: error
  NSPathNotExistErr :: "string \<Rightarrow> bool"
  ParseIPNet :: "string \<Rightarrow> IPNet option"
  parseIPv6 :: "string \<Rightarrow> IP"
  ImplementedSpecVersion :: string
  NewResultFromResult :: "Result \<Rightarrow> Result option"

text \<open>A type assertion on an error looks at the error itself, not at what it wraps.\<close>

definition is_path_error :: "'w Host \<Rightarrow> error \<Rightarrow> bool" where
  "is_path_error host err = (case err of Foreign msg \<Rightarrow> NSPathNotExistErr host msg | _ \<Rightarrow> False)"

subsection \<open>Removing a device\<close>

text \<open>
  Both drivers tear down in the same way, each with its own device: the closure that tolerates
  a missing device, and the method around it.
\<close>

definition del_link :: "'w Host \<Rightarrow> string \<Rightarrow> ('w, error option) go" where
  "del_link host name =
     go_bind (DelLinkByName host name) (\<lambda>r.
     go_return (case r of
       None \<Rightarrow> None
     | Some err \<Rightarrow> if err \<noteq> ErrLinkNotFound host then Some err else None))"

definition tear_down :: "'w Host \<Rightarrow> string \<Rightarrow> string \<Rightarrow> ('w, error option) go" where
  "tear_down host path name =
     go_bind (GetNS host path) (\<lambda>got.
     case got of
       Inl err \<Rightarrow> go_return (Some (Errorf ''failed to open netns'' (Some err)))
     | Inr netNs \<Rightarrow>
         go_defer (CloseNS host netNs) (
         go_bind (WithNetNSPath host path (\<lambda>_. del_link host name)) (\<lambda>r.
         go_return (case r of
           None \<Rightarrow> None
         | Some err \<Rightarrow> if is_path_error host err then None else Some err))))"

subsection \<open>Laws\<close>

lemma go_try_run [go_run]:
  "go_try wrap m f s = (case m s of (r, t) \<Rightarrow> (case r of
     Returns (Inl e) \<Rightarrow> (Returns (Inl (wrap e)), t) | Returns (Inr a) \<Rightarrow> f a t | Halts h \<Rightarrow> (Halts h, t)))"
  by (simp add: go_try_def split: prod.split outcome.split sum.split)

lemma go_check_run [go_run]:
  "go_check wrap m k s = (case m s of (r, t) \<Rightarrow> (case r of
     Returns (Some e) \<Rightarrow> (Returns (Inl (wrap e)), t) | Returns None \<Rightarrow> k t | Halts h \<Rightarrow> (Halts h, t)))"
  by (simp add: go_check_def split: prod.split outcome.split option.split)

lemma go_defer_Returns:
  assumes "go_defer later body s = (Returns a, u)"
  obtains t d where "body s = (Returns a, t)" "later t = (Returns d, u)"
  using assms by (auto simp: go_defer_def split: prod.splits outcome.splits halt.splits)

lemma go_try_Inr:
  assumes "go_try wrap m f s = (Returns (Inr b), u)"
  obtains a t where "m s = (Returns (Inr a), t)" "f a t = (Returns (Inr b), u)"
  using assms by (auto simp: go_try_run split: prod.splits outcome.splits sum.splits)

lemma go_check_Inr:
  assumes "go_check wrap m k s = (Returns (Inr b), u)"
  obtains t where "m s = (Returns None, t)" "k t = (Returns (Inr b), u)"
  using assms by (auto simp: go_check_run split: prod.splits outcome.splits option.splits)

lemma keeps_try [keeps_rules]: "keeps I m \<Longrightarrow> (\<And>a. keeps I (f a)) \<Longrightarrow> keeps I (go_try wrap m f)"
  unfolding go_try_def by (auto intro!: keeps_rules split: sum.split)

lemma keeps_check [keeps_rules]: "keeps I m \<Longrightarrow> keeps I k \<Longrightarrow> keeps I (go_check wrap m k)"
  unfolding go_check_def by (auto intro!: keeps_rules split: option.split)

lemma keeps_defer [keeps_rules]:
  assumes "keeps I later" "keeps I body"
  shows "keeps I (go_defer later body)"
proof (rule keepsI)
  fix s
  assume "I s"
  then have "I (snd (body s))" using assms(2) by (simp add: keeps_def)
  then have "I (snd (later (snd (body s))))" using assms(1) by (simp add: keeps_def)
  with \<open>I (snd (body s))\<close> show "I (snd (go_defer later body s))"
    by (auto simp: go_defer_def split: prod.split outcome.split halt.split)
qed

end
