(* ===== verification/Plugin_Ipvlan.thy ===== *)
theory Plugin_Ipvlan
  imports Net_Devices Rpc
begin

section \<open>The ipvlan driver (pkg/plugin/ipvlan.go)\<close>

text \<open>
  \<open>Setup\<close> creates an ipvlan device on the node's master interface, moves it into the pod's
  namespace under the requested name, and configures it with the address the daemon allocated.
  \<open>TearDown\<close> deletes it again.
\<close>

definition modeFromString :: "string \<Rightarrow> error + IPVlanMode" where
  "modeFromString s =
     (if s = '''' \<or> s = ''l2'' then Inr IPVLAN_MODE_L2
      else if s = ''l3'' then Inr IPVLAN_MODE_L3
      else if s = ''l3s'' then Inr IPVLAN_MODE_L3S
      else Inl (Errorf ''unknown ipvlan mode'' None))"

definition rename_and_fetch :: "'w Host \<Rightarrow> CniCmdArgs \<Rightarrow> NetNS \<Rightarrow> string \<Rightarrow> ('w, error + Interface list) go" where
  "rename_and_fetch host args netns tmpName =
     go_check (\<lambda>e. Errorf ''failed to rename ipvlan'' (Some e))
       (RenameLink host tmpName (ca_IfName (cc_RawArgs args))) (
     go_try (\<lambda>e. Errorf ''failed to refetch ipvlan'' (Some e))
       (LinkByName host (ca_IfName (cc_RawArgs args))) (\<lambda>contIPVlan.
     go_return (Inr [\<lparr>if_Name = ca_IfName (cc_RawArgs args),
                      if_Mac = HardwareAddr_String (lk_HardwareAddr contIPVlan),
                      if_Sandbox = ns_Path netns\<rparr>])))"

definition createIPVlan :: "'w Host \<Rightarrow> CniCmdArgs \<Rightarrow> NetNS \<Rightarrow> ('w, error + Interface) go" where
  "createIPVlan host args netns =
     (case modeFromString (GetIpVlanMode (cc_NetConf args)) of
        Inl err \<Rightarrow> go_return (Inl err)
      | Inr mode \<Rightarrow>
          go_try (\<lambda>e. Errorf ''failed to lookup master'' (Some e))
            (LinkByName host (GetIpVlanMaster (cc_NetConf args))) (\<lambda>m.
          go_try (\<lambda>e. e) (RandomVethName host) (\<lambda>tmpName.
          go_check (\<lambda>e. Errorf ''failed to create ipvlan'' (Some e))
            (LinkAdd host \<lparr>iv_MTU = nc_MTU (cc_NetConf args), iv_Name = tmpName,
               iv_ParentIndex = lk_Index m, iv_Namespace = ns_Fd netns, iv_Mode = mode\<rparr>) (
          go_try (\<lambda>e. e) (NS_Do host netns (\<lambda>_. rename_and_fetch host args netns tmpName)) (\<lambda>assigned.
          go_return (Inr (case assigned of [] \<Rightarrow> no_interface | slave # _ \<Rightarrow> slave)))))))"

text \<open>The address, gateway and network of the reply's first configuration; \<open>None\<close> is a panic.\<close>

definition reply_addresses :: "AllocateIPReply \<Rightarrow> (string \<times> string \<times> string) option" where
  "reply_addresses reply =
     (case ap_NetConfs reply of
        [] \<Rightarrow> None
      | conf # _ \<Rightarrow>
          (case rnc_BasicInfo conf of
             None \<Rightarrow> None
           | Some info \<Rightarrow>
               (case (bi_PodIP info, bi_GatewayIP info, bi_PodCIDR info) of
                  (Some ipaddr, Some gwaddr, Some cidr) \<Rightarrow>
                    Some (ips_IPv4 ipaddr, ips_IPv4 gwaddr, ips_IPv4 cidr)
                | _ \<Rightarrow> None)))"

definition ipvlan_result :: "'w Host \<Rightarrow> Interface \<Rightarrow> string \<Rightarrow> string \<Rightarrow> IPNet \<Rightarrow> Result" where
  "ipvlan_result host slave ipaddr gwaddr ipv4Net =
     \<lparr>rs_CNIVersion = ImplementedSpecVersion host,
      rs_Interfaces = [slave],
      rs_IPs = [\<lparr>ipc_Interface = Some 0,
                 ipc_Address = \<lparr>in_IP = ParseIP (parseIPv6 host) ipaddr, in_Mask = in_Mask ipv4Net\<rparr>,
                 ipc_Gateway = ParseIP (parseIPv6 host) gwaddr\<rparr>],
      rs_Routes = []\<rparr>"

definition with_default_route :: "'w Host \<Rightarrow> NetConf \<Rightarrow> string \<Rightarrow> Result \<Rightarrow> error + Result" where
  "with_default_route host conf gwaddr result =
     (if GetIpVlanDefaultRoute conf then
        (case ParseCIDR (parseIPv6 host) DefaultDst of
           None \<Rightarrow> Inl (Errorf ''failed to add default route with error'' None)
         | Some (dst, net) \<Rightarrow>
             Inr (result\<lparr>rs_Routes := [\<lparr>rt_Dst = \<lparr>in_IP = dst, in_Mask = in_Mask net\<rparr>,
                                       rt_GW = ParseIP (parseIPv6 host) gwaddr\<rparr>]\<rparr>))
      else Inr result)"

definition configure :: "'w Host \<Rightarrow> CniCmdArgs \<Rightarrow> Result \<Rightarrow> ('w, error + Interface list) go" where
  "configure host args result =
     go_check (\<lambda>e. e) (ConfigureIface host (ca_IfName (cc_RawArgs args)) result) (go_return (Inr []))"

definition IPVlan_Setup :: "'w Host \<Rightarrow> AllocateIPReply \<Rightarrow> CniCmdArgs \<Rightarrow> ('w, error + Result) go" where
  "IPVlan_Setup host allocateResult args =
     go_try (\<lambda>e. Errorf ''failed to open netns'' (Some e)) (GetNS host (cc_NetNS args)) (\<lambda>netNs.
     go_defer (CloseNS host netNs) (
     go_try (\<lambda>e. e) (createIPVlan host args netNs) (\<lambda>ipVlanSlave.
     go_bind (go_deref (reply_addresses allocateResult)) (\<lambda>(ipaddr, gwaddr, cidr).
     go_bind (go_deref (ParseCIDR (parseIPv6 host) cidr)) (\<lambda>(_, ipv4Net).
     case with_default_route host (cc_NetConf args) gwaddr
            (ipvlan_result host ipVlanSlave ipaddr gwaddr ipv4Net) of
       Inl err \<Rightarrow> go_return (Inl err)
     | Inr result \<Rightarrow>
         go_try (\<lambda>e. Errorf ''failed to configure ip address for ipvlan interface with error'' (Some e))
           (NS_Do host netNs (\<lambda>_. configure host args result)) (\<lambda>_.
         go_return (Inr result)))))))"

definition IPVlan_TearDown :: "'w Host \<Rightarrow> CniCmdArgs \<Rightarrow> ('w, error option) go" where
  "IPVlan_TearDown host args = tear_down host (cc_NetNS args) (ca_IfName (cc_RawArgs args))"

end
