(* ===== verification/Plugin_Ptp.thy ===== *)
theory Plugin_Ptp
  imports Net_Devices
begin

section \<open>The point-to-point driver (pkg/plugin/ptp.go)\<close>

text \<open>
  A pair of virtual Ethernet devices between the pod and the node, because an ipvlan device
  cannot reach its own master: in the pod a route to the node's address and, through it, one to
  the services' network; on the node a route to the pod's address.
\<close>

definition usable_addr :: "Addr \<Rightarrow> IPNet option" where
  "usable_addr addr =
     (case addr of
        IPNetAddr ipnet \<Rightarrow> if \<not> IsLoopback (in_IP ipnet) \<and> To4 (in_IP ipnet) \<noteq> [] then Some ipnet else None
      | OtherAddr _ \<Rightarrow> None)"

fun first_usable :: "Addr list \<Rightarrow> error + IPNet" where
  "first_usable [] = Inl (Errorf ''no ipaddress found for interface'' None)"
| "first_usable (addr # addrs) =
     (case usable_addr addr of Some ipnet \<Rightarrow> Inr ipnet | None \<Rightarrow> first_usable addrs)"

definition getLinkIpAddrs :: "'w Host \<Rightarrow> string \<Rightarrow> ('w, error + IPNet) go" where
  "getLinkIpAddrs host name =
     go_try (\<lambda>e. Errorf ''failed to get ip vlan master'' (Some e)) (InterfaceByName host name) (\<lambda>iface.
     go_try (\<lambda>e. Errorf ''failed to get addresses for interface'' (Some e)) (Addrs host iface) (\<lambda>addrs.
     go_return (first_usable addrs)))"

fun add_routes :: "'w Host \<Rightarrow> NRoute list \<Rightarrow> ('w, error option) go" where
  "add_routes host [] = go_return None"
| "add_routes host (route # routes) =
     go_bind (RouteAdd host route) (\<lambda>r.
     case r of Some err \<Rightarrow> go_return (Some (Errorf ''failed to add route'' (Some err)))
     | None \<Rightarrow> add_routes host routes)"

definition container_routes :: "'w Host \<Rightarrow> CniCmdArgs \<Rightarrow> int \<Rightarrow> IP \<Rightarrow> NRoute list" where
  "container_routes host args index nodeGw =
     [\<lparr>nr_LinkIndex = index, nr_Dst = Some \<lparr>in_IP = nodeGw, in_Mask = CIDRMask 32 32\<rparr>,
       nr_Gw = [], nr_Scope = ScopeLink\<rparr>,
      \<lparr>nr_LinkIndex = index, nr_Dst = ParseIPNet host (GetServiceCidr (cc_K8sArgs args)),
       nr_Gw = nodeGw, nr_Scope = ScopeUniverse\<rparr>]"

text \<open>The closure that runs in the pod's namespace: host side first, container side second.\<close>

definition connect_container :: "'w Host \<Rightarrow> NetNS \<Rightarrow> string \<Rightarrow> CniCmdArgs \<Rightarrow> IP \<Rightarrow> NetNS \<Rightarrow>
    ('w, error + Interface list) go" where
  "connect_container host netns ifName args nodeGw hostNS =
     go_try (\<lambda>e. e) (SetupVeth host ifName (nc_MTU (cc_NetConf args)) '''' hostNS) (\<lambda>(hostVeth, contVeth0).
     go_try (\<lambda>e. Errorf ''failed to get link'' (Some e)) (LinkByName host ifName) (\<lambda>contVeth.
     go_check (\<lambda>e. Errorf ''failed to set link up with error'' (Some e)) (LinkSetUp host contVeth) (
     go_check (\<lambda>e. e) (add_routes host (container_routes host args (lk_Index contVeth) nodeGw)) (
     go_return (Inr
       [\<lparr>if_Name = lk_Name hostVeth, if_Mac = HardwareAddr_String (lk_HardwareAddr hostVeth),
         if_Sandbox = ''''\<rparr>,
        \<lparr>if_Name = lk_Name contVeth0, if_Mac = HardwareAddr_String (lk_HardwareAddr contVeth0),
         if_Sandbox = ns_Path netns\<rparr>])))))"

definition setupContainerVeth :: "'w Host \<Rightarrow> NetNS \<Rightarrow> string \<Rightarrow> CniCmdArgs \<Rightarrow>
    ('w, error + Interface \<times> Interface) go" where
  "setupContainerVeth host netns ifName args =
     go_try (\<lambda>e. Errorf ''failed to get node gateway with error'' (Some e))
       (getLinkIpAddrs host (GetIpVlanMaster (cc_NetConf args))) (\<lambda>nodeGw.
     go_try (\<lambda>e. e) (NS_Do host netns (connect_container host netns ifName args (in_IP nodeGw))) (\<lambda>assigned.
     go_return (Inr (case assigned of
         hostInterface # containerInterface # _ \<Rightarrow> (hostInterface, containerInterface)
       | _ \<Rightarrow> (no_interface, no_interface)))))"

definition setupHostVeth :: "'w Host \<Rightarrow> string \<Rightarrow> Result \<Rightarrow> ('w, error option) go" where
  "setupHostVeth host vethName result =
     go_bind (LinkByName host vethName) (\<lambda>got.
     case got of
       Inl err \<Rightarrow> go_return (Some (Errorf ''failed to get link'' (Some err)))
     | Inr hostVeth \<Rightarrow>
         go_bind (go_deref (case rs_IPs result of [] \<Rightarrow> None | c # _ \<Rightarrow> Some c)) (\<lambda>c.
         go_bind (RouteAdd host
           \<lparr>nr_LinkIndex = lk_Index hostVeth,
            nr_Dst = Some \<lparr>in_IP = in_IP (ipc_Address c), in_Mask = CIDRMask 32 32\<rparr>,
            nr_Gw = [], nr_Scope = ScopeLink\<rparr>) (\<lambda>r.
         go_return (case r of
           None \<Rightarrow> None
         | Some err \<Rightarrow> Some (Errorf ''failed to add route on host with error'' (Some err))))))"

text \<open>The error of the conversion is dropped; the log line after it dereferences the result.\<close>

definition PTP_Setup :: "'w Host \<Rightarrow> Result \<Rightarrow> CniCmdArgs \<Rightarrow> ('w, error + Result) go" where
  "PTP_Setup host pre args =
     go_bind (go_deref (NewResultFromResult host pre)) (\<lambda>result.
     if rs_IPs result = [] then go_return (Inl (Errorf ''missing IP config'' None))
     else
       go_try (\<lambda>e. Errorf ''failed to open netns'' (Some e)) (GetNS host (cc_NetNS args)) (\<lambda>netNs.
       go_defer (CloseNS host netNs) (
       go_try (\<lambda>e. Errorf ''failed to create veth with error'' (Some e))
         (setupContainerVeth host netNs DefaultContainerVethName args) (\<lambda>(hostInterface, _).
       go_check (\<lambda>e. Errorf ''failed to setup veth pair on host with error'' (Some e))
         (setupHostVeth host (if_Name hostInterface) result) (
       go_return (Inr result))))))"

definition PTP_TearDown :: "'w Host \<Rightarrow> CniCmdArgs \<Rightarrow> ('w, error option) go" where
  "PTP_TearDown host args = tear_down host (cc_NetNS args) DefaultContainerVethName"

end
