(* ===== verification/Cni.thy ===== *)
theory Cni
  imports Plugin_Ipvlan Plugin_Ptp Object_Pool
begin

section \<open>The CNI plugin (cmd/cni/rubble.go)\<close>

text \<open>
  The executable that the container runtime calls to add a pod to the network and to remove it:
  it parses its arguments, talks to the daemon over a socket and drives the two plugins. The
  state is the outside world with everything in it, the daemon included. Library calls, among
  them the JSON decoder and the gRPC client, are a record of functions on it. The context that
  \<open>context.WithTimeout\<close> makes is an argument.
\<close>

record 'w RubbleBackendClient =
  rb_AllocateIP :: "Context \<Rightarrow> AllocateIPRequest \<Rightarrow> ('w, error + AllocateIPReply) go"
  rb_ReleaseIP :: "Context \<Rightarrow> ReleaseIPRequest \<Rightarrow> ('w, error + ReleaseIPReply) go"

record 'w CniLibrary =
  lib_host :: "'w Host"
  lib_OpenFile :: "string \<Rightarrow> ('w, error option) go"
  lib_Unmarshal :: "string \<Rightarrow> error + NetConf"
  lib_DialContext :: "Context \<Rightarrow> string \<Rightarrow> ('w, error option) go"
  lib_client :: "'w RubbleBackendClient"
  lib_Close :: "('w, error option) go"
  lib_PrintResult :: "Result \<Rightarrow> string \<Rightarrow> ('w, error option) go"

subsection \<open>Arguments\<close>

text \<open>The loop of \<open>parseValueFromArgs\<close>: the first argument with the key and a value that is not empty.\<close>

fun find_value :: "string \<Rightarrow> string list \<Rightarrow> error + string" where
  "find_value key [] = Inl (Errorf ''is required in CNI_ARGS'' None)"
| "find_value key (arg # args) =
     (if HasPrefix arg (key @ ''='') \<and> 0 < length (TrimPrefix arg (key @ ''=''))
      then Inr (TrimPrefix arg (key @ ''='')) else find_value key args)"

definition parseValueFromArgs :: "string \<Rightarrow> string \<Rightarrow> error + string" where
  "parseValueFromArgs key argString =
     (if argString = '''' then Inl (Errorf ''CNI_ARGS is required'' None)
      else find_value key (Split (CHR '';'') argString))"

definition getK8sArgs :: "CmdArgs \<Rightarrow> error + K8sArgs" where
  "getK8sArgs args =
     (case parseValueFromArgs ''K8S_POD_NAMESPACE'' (ca_Args args) of
        Inl err \<Rightarrow> Inl err
      | Inr podNamespace \<Rightarrow>
          (case parseValueFromArgs ''K8S_POD_NAME'' (ca_Args args) of
             Inl err \<Rightarrow> Inl err
           | Inr podName \<Rightarrow> Inr
               \<lparr>K8sPodName = podName, K8sPodNameSpace = podNamespace,
                K8sInfraContainerID = ca_ContainerID args, K8sServiceCidr = ''''\<rparr>))"

definition loadNetConf :: "'w CniLibrary \<Rightarrow> string \<Rightarrow> error + NetConf" where
  "loadNetConf lib bytes =
     (case lib_Unmarshal lib bytes of
        Inl err \<Rightarrow> Inl (Errorf ''failed to load netconf'' (Some err))
      | Inr nc \<Rightarrow> Inr nc)"

definition getCmdArgs :: "'w CniLibrary \<Rightarrow> CmdArgs \<Rightarrow> error + CniCmdArgs" where
  "getCmdArgs lib args =
     (case loadNetConf lib (ca_StdinData args) of
        Inl err \<Rightarrow> Inl err
      | Inr netConf \<Rightarrow>
          (case getK8sArgs args of
             Inl err \<Rightarrow> Inl err
           | Inr k8sArgs \<Rightarrow> Inr
               \<lparr>cc_NetConf = netConf, cc_K8sArgs = k8sArgs, cc_RawArgs = args, cc_NetNS = ca_Netns args\<rparr>))"

subsection \<open>The daemon's client\<close>

definition getRubbleClient :: "'w CniLibrary \<Rightarrow> Context \<Rightarrow> ('w, error + 'w RubbleBackendClient) go" where
  "getRubbleClient lib ctx =
     go_check (\<lambda>e. Errorf ''error dial to rubble server'' (Some e))
       (lib_DialContext lib ctx DefaultSocketPath) (go_return (Inr (lib_client lib)))"

definition allocate_request :: "CniCmdArgs \<Rightarrow> AllocateIPRequest" where
  "allocate_request cmdArgs =
     \<lparr>ar_K8SPodName = K8sPodName (cc_K8sArgs cmdArgs),
      ar_K8SPodNamespace = K8sPodNameSpace (cc_K8sArgs cmdArgs),
      ar_K8SPodInfraContainerId = K8sInfraContainerID (cc_K8sArgs cmdArgs),
      ar_Netns = cc_NetNS cmdArgs,
      ar_IfName = ca_IfName (cc_RawArgs cmdArgs)\<rparr>"

definition release_request :: "CniCmdArgs \<Rightarrow> ReleaseIPRequest" where
  "release_request delArgs =
     \<lparr>rr_K8SPodName = K8sPodName (cc_K8sArgs delArgs),
      rr_K8SPodNamespace = K8sPodNameSpace (cc_K8sArgs delArgs),
      rr_K8SPodInfraContainerId = K8sInfraContainerID (cc_K8sArgs delArgs),
      rr_IPType = TypeVPCIP, rr_IPv4Addr = None, rr_MacAddr = '''', rr_Reason = ''''\<rparr>"

subsection \<open>Commands\<close>

text \<open>
  \<open>SetLogOutput\<close> of \<open>pkg/log\<close>, which panics when the log file cannot be opened; where the
  log goes to is not part of the state.
\<close>

definition SetLogOutput :: "'w CniLibrary \<Rightarrow> string \<Rightarrow> ('w, unit) go" where
  "SetLogOutput lib path =
     go_bind (lib_OpenFile lib path) (\<lambda>r.
     case r of Some err \<Rightarrow> go_halt Panicked | None \<Rightarrow> go_return ())"

text \<open>
  A reply without success is only turned into an error value that the next assignment
  overwrites, so \<open>doCmdAdd\<close> goes on with whatever the reply holds.
\<close>

definition doCmdAdd :: "'w CniLibrary \<Rightarrow> Context \<Rightarrow> 'w RubbleBackendClient \<Rightarrow> CniCmdArgs \<Rightarrow>
    ('w, error + Result) go" where
  "doCmdAdd lib ctx client cmdArgs =
     go_try (\<lambda>e. Errorf ''cmdAdd: error allocate ip'' (Some e))
       (rb_AllocateIP client ctx (allocate_request cmdArgs)) (\<lambda>allocResult.
     go_try (\<lambda>e. Errorf ''failed to setup ipvlan device with error'' (Some e))
       (IPVlan_Setup (lib_host lib) allocResult cmdArgs) (\<lambda>tmpResult.
     go_try (\<lambda>e. Errorf ''failed to setup ptp veth pair with error'' (Some e))
       (PTP_Setup (lib_host lib) tmpResult cmdArgs) (\<lambda>result.
     go_return (Inr result))))"

definition cmdAdd :: "'w CniLibrary \<Rightarrow> Context \<Rightarrow> CmdArgs \<Rightarrow> ('w, error option) go" where
  "cmdAdd lib ctx args =
     go_seq (SetLogOutput lib DefaultCNILogPath) (
     case getCmdArgs lib args of
       Inl err \<Rightarrow> go_return (Some err)
     | Inr addArgs \<Rightarrow>
         go_bind (getRubbleClient lib ctx) (\<lambda>got.
         case got of
           Inl err \<Rightarrow> go_return (Some (Errorf ''error create grpc client'' (Some err)))
         | Inr client \<Rightarrow>
             go_defer (lib_Close lib) (
             go_bind (doCmdAdd lib ctx client addArgs) (\<lambda>r.
             case r of
               Inl err \<Rightarrow> go_return (Some err)
             | Inr result \<Rightarrow>
                 lib_PrintResult lib (result\<lparr>rs_CNIVersion := nc_CNIVersion (cc_NetConf addArgs)\<rparr>)
                   (nc_CNIVersion (cc_NetConf addArgs))))))"

text \<open>The two teardowns come first; the daemon is called only if both return no error.\<close>

definition release_address :: "'w CniLibrary \<Rightarrow> Context \<Rightarrow> CniCmdArgs \<Rightarrow> ('w, error option) go" where
  "release_address lib ctx delArgs =
     go_bind (getRubbleClient lib ctx) (\<lambda>got.
     case got of
       Inl err \<Rightarrow> go_return (Some (Errorf ''error create grpc client'' (Some err)))
     | Inr client \<Rightarrow>
         go_defer (lib_Close lib) (
         go_bind (rb_ReleaseIP client ctx (release_request delArgs)) (\<lambda>r.
         go_return (case r of
             Inl err \<Rightarrow> Some (Errorf ''cmdDel: error release ip'' (Some err))
           | Inr reply \<Rightarrow> None))))"

definition cmdDel :: "'w CniLibrary \<Rightarrow> Context \<Rightarrow> CmdArgs \<Rightarrow> ('w, error option) go" where
  "cmdDel lib ctx args =
     (case getCmdArgs lib args of
        Inl err \<Rightarrow> go_return (Some err)
      | Inr delArgs \<Rightarrow>
          go_bind (PTP_TearDown (lib_host lib) delArgs) (\<lambda>r.
          case r of
            Some err \<Rightarrow> go_return (Some (Errorf ''failed to teardown ptp veth with error'' (Some err)))
          | None \<Rightarrow>
              go_bind (IPVlan_TearDown (lib_host lib) delArgs) (\<lambda>r.
              case r of
                Some err \<Rightarrow> go_return (Some (Errorf ''failed to teardown ipvlan device with error'' (Some err)))
              | None \<Rightarrow> release_address lib ctx delArgs)))"

definition cmdCheck :: "CmdArgs \<Rightarrow> ('w, error option) go" where
  "cmdCheck args = go_return None"

text \<open>\<open>main\<close> hands the commands to the CNI library, which calls the one the runtime has asked for.\<close>

definition cni_main ::
    "((Context \<Rightarrow> CmdArgs \<Rightarrow> ('w, error option) go) \<Rightarrow> (CmdArgs \<Rightarrow> ('w, error option) go) \<Rightarrow>
      (Context \<Rightarrow> CmdArgs \<Rightarrow> ('w, error option) go) \<Rightarrow> string \<Rightarrow> ('w, unit) go) \<Rightarrow>
     'w CniLibrary \<Rightarrow> ('w, unit) go" where
  "cni_main PluginMain lib = PluginMain (cmdAdd lib) cmdCheck (cmdDel lib) ''easystack vpc cni plugin''"

end
