(* ===== verification/Cni_Laws.thy ===== *)
theory Cni_Laws
  imports Cni
begin

section \<open>Laws of the plugins and the commands\<close>

text \<open>
  What the commands do to a part of the world that the network libraries do not touch, and what
  a successful set-up has done. Two documented facts about the namespace library are named as
  predicates: an operation on network devices keeps whatever is not a network device, and
  running a closure in a namespace succeeds only if the closure ran and succeeded.
\<close>

subsection \<open>What the libraries leave alone\<close>

definition host_keeps :: "('w \<Rightarrow> bool) \<Rightarrow> 'w Host \<Rightarrow> bool" where
  "host_keeps I host \<longleftrightarrow>
     (\<forall>path. keeps I (GetNS host path)) \<and> (\<forall>ns. keeps I (CloseNS host ns)) \<and>
     (\<forall>ns f. (\<forall>h. keeps I (f h)) \<longrightarrow> keeps I (NS_Do host ns f)) \<and>
     (\<forall>path f. (\<forall>h. keeps I (f h)) \<longrightarrow> keeps I (WithNetNSPath host path f)) \<and>
     (\<forall>name. keeps I (LinkByName host name)) \<and> (\<forall>l. keeps I (LinkAdd host l)) \<and>
     (\<forall>l. keeps I (LinkSetUp host l)) \<and> (\<forall>r. keeps I (RouteAdd host r)) \<and>
     keeps I (RandomVethName host) \<and> (\<forall>a b. keeps I (RenameLink host a b)) \<and>
     (\<forall>a b c d. keeps I (SetupVeth host a b c d)) \<and> (\<forall>name. keeps I (DelLinkByName host name)) \<and>
     (\<forall>name r. keeps I (ConfigureIface host name r)) \<and> (\<forall>name. keeps I (InterfaceByName host name)) \<and>
     (\<forall>l. keeps I (Addrs host l))"

lemma host_keepsD:
  assumes "host_keeps I host"
  shows "keeps I (GetNS host path)" "keeps I (CloseNS host ns)"
    "(\<And>h. keeps I (f h)) \<Longrightarrow> keeps I (NS_Do host ns f)"
    "(\<And>h. keeps I (g h)) \<Longrightarrow> keeps I (WithNetNSPath host path g)"
    "keeps I (LinkByName host name)" "keeps I (LinkAdd host l)" "keeps I (LinkSetUp host k)"
    "keeps I (RouteAdd host rt)" "keeps I (RandomVethName host)" "keeps I (RenameLink host a b)"
    "keeps I (SetupVeth host a mtu b ns)" "keeps I (DelLinkByName host name)"
    "keeps I (ConfigureIface host name res)" "keeps I (InterfaceByName host name)" "keeps I (Addrs host k)"
  using assms by (auto simp: host_keeps_def)

lemma keeps_option [keeps_rules]:
  "keeps I m \<Longrightarrow> (\<And>a. keeps I (f a)) \<Longrightarrow> keeps I (case x of None \<Rightarrow> m | Some a \<Rightarrow> f a)"
  by (cases x) simp_all

lemma keeps_sum [keeps_rules]:
  "(\<And>e. keeps I (f e)) \<Longrightarrow> (\<And>a. keeps I (g a)) \<Longrightarrow> keeps I (case x of Inl e \<Rightarrow> f e | Inr a \<Rightarrow> g a)"
  by (cases x) simp_all

lemma keeps_pair [keeps_rules]: "(\<And>a b. keeps I (f a b)) \<Longrightarrow> keeps I (case p of (a, b) \<Rightarrow> f a b)"
  by (cases p) simp

lemma tear_down_keeps:
  assumes "host_keeps I host"
  shows "keeps I (tear_down host path name)"
  unfolding tear_down_def del_link_def by (intro keeps_rules host_keepsD [OF assms])

lemma tear_down_opens:
  "GetNS host path w = (Returns (Inl e), u) \<Longrightarrow>
   tear_down host path name w = (Returns (Some (Errorf ''failed to open netns'' (Some e))), u)"
  by (simp add: tear_down_def)

lemma IPVlan_Setup_keeps:
  assumes "host_keeps I host"
  shows "keeps I (IPVlan_Setup host reply args)"
  unfolding IPVlan_Setup_def createIPVlan_def rename_and_fetch_def configure_def
  by (intro keeps_rules host_keepsD [OF assms])

lemma add_routes_keeps:
  assumes "host_keeps I host"
  shows "keeps I (add_routes host routes)"
proof (induction routes)
  case Nil
  show ?case unfolding add_routes.simps by (rule keeps_return)
next
  case (Cons route routes)
  then show ?case unfolding add_routes.simps by (intro keeps_rules host_keepsD [OF assms])
qed

lemma PTP_Setup_keeps:
  assumes "host_keeps I host"
  shows "keeps I (PTP_Setup host pre args)"
  unfolding PTP_Setup_def setupContainerVeth_def setupHostVeth_def connect_container_def getLinkIpAddrs_def
  by (intro keeps_rules host_keepsD [OF assms] add_routes_keeps [OF assms])

subsection \<open>The contract of a driver\<close>

text \<open>
  What the commands rely on, of either driver: it changes nothing but network devices, and its
  teardown opens the pod's namespace before anything else. \<open>view\<close> reads a part of the world that
  the network libraries leave alone.
\<close>

locale driver =
  fixes bring_up :: "'w Host \<Rightarrow> 'i \<Rightarrow> CniCmdArgs \<Rightarrow> ('w, error + Result) go"
    and bring_down :: "'w Host \<Rightarrow> CniCmdArgs \<Rightarrow> ('w, error option) go"
  assumes setup_keeps: "host_keeps I host \<Longrightarrow> keeps I (bring_up host given args)"
    and teardown_keeps: "host_keeps I host \<Longrightarrow> keeps I (bring_down host args)"
    and teardown_opens: "GetNS host (cc_NetNS args) w = (Returns (Inl e), u) \<Longrightarrow>
      bring_down host args w = (Returns (Some (Errorf ''failed to open netns'' (Some e))), u)"
begin

lemma setup_view:
  assumes "\<forall>d. host_keeps (\<lambda>w. view w = d) host" "bring_up host given args w = (r, t)"
  shows "view t = view w"
  by (rule keepsD [OF setup_keeps [OF spec [OF assms(1), of "view w"]] refl assms(2)])

lemma teardown_view:
  assumes "\<forall>d. host_keeps (\<lambda>w. view w = d) host" "bring_down host args w = (r, t)"
  shows "view t = view w"
  by (rule keepsD [OF teardown_keeps [OF spec [OF assms(1), of "view w"]] refl assms(2)])

text \<open>A pod whose namespace is gone cannot be torn down.\<close>

lemma teardown_of_missing:
  assumes "\<forall>d. host_keeps (\<lambda>w. view w = d) host" "GetNS host (cc_NetNS args) w = (Returns (Inl e), t)"
  shows "bring_down host args w = (Returns (Some (Errorf ''failed to open netns'' (Some e))), t)" "view t = view w"
proof -
  show run: "bring_down host args w = (Returns (Some (Errorf ''failed to open netns'' (Some e))), t)"
    by (rule teardown_opens [OF assms(2)])
  show "view t = view w" by (rule teardown_view [OF assms(1) run])
qed

end

interpretation ipvlan: driver IPVlan_Setup IPVlan_TearDown
  by unfold_locales (simp_all add: IPVlan_Setup_keeps IPVlan_TearDown_def tear_down_keeps tear_down_opens)

interpretation ptp: driver PTP_Setup PTP_TearDown
  by unfold_locales (simp_all add: PTP_Setup_keeps PTP_TearDown_def tear_down_keeps tear_down_opens)

subsection \<open>What a successful set-up has done\<close>

definition closures_run :: "'w Host \<Rightarrow> bool" where
  "closures_run host \<longleftrightarrow> (\<forall>ns f w xs t. NS_Do host ns f w = (Returns (Inr xs), t) \<longrightarrow>
     (\<exists>h u v. f h u = (Returns (Inr xs), v)))"

lemma closures_runD:
  assumes "closures_run host" "NS_Do host ns f w = (Returns (Inr xs), t)"
  obtains h u v where "f h u = (Returns (Inr xs), v)"
  using assms unfolding closures_run_def by blast

lemma createIPVlan_success:
  assumes run: "closures_run host" and ok: "createIPVlan host args netns w = (Returns (Inr slave), t)"
  obtains mac where "slave = \<lparr>if_Name = ca_IfName (cc_RawArgs args), if_Mac = mac, if_Sandbox = ns_Path netns\<rparr>"
proof -
  obtain mode where "modeFromString (GetIpVlanMode (cc_NetConf args)) = Inr mode"
    using ok by (auto simp: createIPVlan_def split: sum.splits)
  with ok obtain tmpName u v xs where
    "NS_Do host netns (\<lambda>_. rename_and_fetch host args netns tmpName) u = (Returns (Inr xs), v)"
    and slave: "slave = (case xs of [] \<Rightarrow> no_interface | s # _ \<Rightarrow> s)"
    unfolding createIPVlan_def by (auto elim!: go_try_Inr go_check_Inr)
  then obtain u' v' where "rename_and_fetch host args netns tmpName u' = (Returns (Inr xs), v')"
    using closures_runD [OF run] by metis
  then show ?thesis using that slave
    unfolding rename_and_fetch_def by (auto elim!: go_try_Inr go_check_Inr)
qed

lemma go_deref_Returns: "go_deref x s = (Returns a, t) \<longleftrightarrow> x = Some a \<and> t = s"
  by (cases x) auto

lemma bind_Returns:
  assumes "go_bind m f s = (Returns b, u)"
  obtains a t where "m s = (Returns a, t)" "f a t = (Returns b, u)"
  using assms by (auto split: prod.splits outcome.splits)

text \<open>The default route is set whatever the configuration says.\<close>

lemma with_default_route_always:
  "with_default_route host conf gwaddr result =
     Inr (result\<lparr>rs_Routes := [\<lparr>rt_Dst = \<lparr>in_IP = v4InV6Prefix @ [0, 0, 0, 0], in_Mask = [0, 0, 0, 0]\<rparr>,
        rt_GW = ParseIP (parseIPv6 host) gwaddr\<rparr>]\<rparr>)"
  using ParseCIDR_default [of "parseIPv6 host"]
  by (simp add: with_default_route_def GetIpVlanDefaultRoute_def DefaultIpVlanRoute_def DefaultDst_def)

lemma IPVlan_Setup_success:
  assumes run: "closures_run host" and ok: "IPVlan_Setup host reply args w = (Returns (Inr result), t)"
  obtains netNs w1 mac ipaddr gwaddr cidr addr net u v where
    "GetNS host (cc_NetNS args) w = (Returns (Inr netNs), w1)"
    "reply_addresses reply = Some (ipaddr, gwaddr, cidr)" "ParseCIDR (parseIPv6 host) cidr = Some (addr, net)"
    "with_default_route host (cc_NetConf args) gwaddr (ipvlan_result host
       \<lparr>if_Name = ca_IfName (cc_RawArgs args), if_Mac = mac, if_Sandbox = ns_Path netNs\<rparr> ipaddr gwaddr net) = Inr result"
    "ConfigureIface host (ca_IfName (cc_RawArgs args)) result u = (Returns None, v)"
proof -
  obtain netNs w1 u1 slave w2 ipaddr gwaddr cidr addr net where
    ns: "GetNS host (cc_NetNS args) w = (Returns (Inr netNs), w1)" and
    sl: "createIPVlan host args netNs w1 = (Returns (Inr slave), w2)"
    and ad: "reply_addresses reply = Some (ipaddr, gwaddr, cidr)" "ParseCIDR (parseIPv6 host) cidr = Some (addr, net)"
    and rest: "(case with_default_route host (cc_NetConf args) gwaddr (ipvlan_result host slave ipaddr gwaddr net) of
       Inl err \<Rightarrow> go_return (Inl err)
     | Inr result \<Rightarrow>
         go_try (\<lambda>e. Errorf ''failed to configure ip address for ipvlan interface with error'' (Some e))
           (NS_Do host netNs (\<lambda>_. configure host args result)) (\<lambda>_.
         go_return (Inr result))) w2 = (Returns (Inr result), u1)"
    using ok unfolding IPVlan_Setup_def
    by (elim go_try_Inr go_defer_Returns bind_Returns)
      (auto simp: go_deref_Returns elim!: bind_Returns simp del: go_bind_run)
  from rest obtain xs u2 where r: "with_default_route host (cc_NetConf args) gwaddr
       (ipvlan_result host slave ipaddr gwaddr net) = Inr result"
    and "NS_Do host netNs (\<lambda>_. configure host args result) w2 = (Returns (Inr xs), u2)"
    by (auto split: sum.splits elim!: go_try_Inr)
  then obtain u v where "configure host args result u = (Returns (Inr xs), v)"
    using closures_runD [OF run] by metis
  then obtain u v where c: "ConfigureIface host (ca_IfName (cc_RawArgs args)) result u = (Returns None, v)"
    unfolding configure_def by (auto elim!: go_check_Inr)
  obtain mac where "slave = \<lparr>if_Name = ca_IfName (cc_RawArgs args), if_Mac = mac, if_Sandbox = ns_Path netNs\<rparr>"
    by (rule createIPVlan_success [OF run sl])
  with ns ad r c that show ?thesis by blast
qed

lemma add_routes_success:
  "add_routes host routes w = (Returns None, t) \<Longrightarrow> route \<in> set routes \<Longrightarrow>
   \<exists>u v. RouteAdd host route u = (Returns None, v)"
proof (induction routes arbitrary: w)
  case Nil
  then show ?case by simp
next
  case (Cons r routes)
  obtain o1 u where r: "RouteAdd host r w = (o1, u)" by fastforce
  with Cons.prems(1) have "o1 = Returns None" "add_routes host routes u = (Returns None, t)"
    by (cases o1; simp split: option.splits)+
  then show ?case using r Cons by auto
qed

text \<open>The routes that a successful set-up has added, two in the pod and one on the node.\<close>

definition pod_route :: "Result \<Rightarrow> int \<Rightarrow> NRoute \<Rightarrow> bool" where
  "pod_route result index route \<longleftrightarrow> (\<exists>c cs. rs_IPs result = c # cs \<and>
     route = \<lparr>nr_LinkIndex = index, nr_Dst = Some \<lparr>in_IP = in_IP (ipc_Address c), in_Mask = [255, 255, 255, 255]\<rparr>,
              nr_Gw = [], nr_Scope = ScopeLink\<rparr>)"

lemma setupHostVeth_success:
  assumes "setupHostVeth host name result w = (Returns None, t)"
  obtains index route u v where "pod_route result index route" "RouteAdd host route u = (Returns None, v)"
proof -
  obtain got u where l: "LinkByName host name w = (got, u)" by fastforce
  with assms obtain hostVeth where got: "got = Returns (Inr hostVeth)"
    by (cases got) (auto simp: setupHostVeth_def split: sum.splits)
  show ?thesis
  proof (cases "rs_IPs result")
    case Nil
    then show ?thesis using assms l got by (simp add: setupHostVeth_def)
  next
    case (Cons c cs)
    then show ?thesis using assms l got that
      by (auto simp: setupHostVeth_def pod_route_def CIDRMask_host split: prod.splits outcome.splits option.splits)
  qed
qed

lemma go_check_NoneE:
  assumes "go_bind m (\<lambda>r. case r of Some e \<Rightarrow> go_return (Some (wrap e)) | None \<Rightarrow> k) s = (Returns None, u)"
  obtains t where "m s = (Returns None, t)" "k t = (Returns None, u)"
  using assms by (auto split: prod.splits outcome.splits option.splits)

lemma setupContainerVeth_success:
  assumes run: "closures_run host" and ok: "setupContainerVeth host netns name args w = (Returns (Inr x), t)"
  obtains index nodeGw where "To4 nodeGw \<noteq> []" "\<not> IsLoopback nodeGw"
    "\<forall>route \<in> set (container_routes host args index nodeGw). \<exists>u v. RouteAdd host route u = (Returns None, v)"
proof -
  from ok obtain nodeGw w1 u w2 xs where
    gw: "getLinkIpAddrs host (GetIpVlanMaster (cc_NetConf args)) w = (Returns (Inr nodeGw), w1)"
    and "NS_Do host netns (connect_container host netns name args (in_IP nodeGw)) w1 = (Returns (Inr xs), w2)"
    unfolding setupContainerVeth_def by (elim go_try_Inr)
  then obtain h u v where "connect_container host netns name args (in_IP nodeGw) h u = (Returns (Inr xs), v)"
    using closures_runD [OF run] by metis
  then obtain index u1 v1 where
    "add_routes host (container_routes host args index (in_IP nodeGw)) u1 = (Returns None, v1)"
    unfolding connect_container_def by (clarsimp elim!: go_try_Inr go_check_Inr)
  then have "\<forall>route \<in> set (container_routes host args index (in_IP nodeGw)).
      \<exists>u v. RouteAdd host route u = (Returns None, v)" by (intro ballI add_routes_success)
  moreover have usable: "first_usable addrs = Inr ipnet \<Longrightarrow> To4 (in_IP ipnet) \<noteq> [] \<and> \<not> IsLoopback (in_IP ipnet)"
    for addrs ipnet
    by (induction addrs) (auto simp: usable_addr_def split: option.splits Addr.splits if_splits)
  have "To4 (in_IP nodeGw) \<noteq> [] \<and> \<not> IsLoopback (in_IP nodeGw)"
    using gw unfolding getLinkIpAddrs_def by (elim go_try_Inr) (auto dest: usable)
  ultimately show ?thesis using that by blast
qed

lemma PTP_Setup_success:
  assumes run: "closures_run host" and ok: "PTP_Setup host pre args w = (Returns (Inr result), t)"
  obtains index nodeGw j route u v where "NewResultFromResult host pre = Some result"
    "To4 nodeGw \<noteq> []" "\<not> IsLoopback nodeGw"
    "\<forall>route \<in> set (container_routes host args index nodeGw). \<exists>u v. RouteAdd host route u = (Returns None, v)"
    "pod_route result j route" "RouteAdd host route u = (Returns None, v)"
proof -
  obtain r where new: "NewResultFromResult host pre = Some r"
    using ok by (cases "NewResultFromResult host pre") (simp_all add: PTP_Setup_def)
  have ne: "rs_IPs r \<noteq> []" using ok new by (cases "rs_IPs r") (simp_all add: PTP_Setup_def)
  have body: "PTP_Setup host pre args w = go_try (\<lambda>e. Errorf ''failed to open netns'' (Some e))
      (GetNS host (cc_NetNS args)) (\<lambda>netNs. go_defer (CloseNS host netNs) (
       go_try (\<lambda>e. Errorf ''failed to create veth with error'' (Some e))
         (setupContainerVeth host netNs DefaultContainerVethName args) (\<lambda>p.
       go_check (\<lambda>e. Errorf ''failed to setup veth pair on host with error'' (Some e))
         (setupHostVeth host (if_Name (fst p)) r) (go_return (Inr r))))) w" (is "_ = ?body")
    unfolding PTP_Setup_def new split_def using ne by simp
  have "?body = (Returns (Inr result), t)" by (rule trans [OF body [symmetric] ok])
  then obtain netNs w1 p w2 w3 w4 where
    c: "setupContainerVeth host netNs DefaultContainerVethName args w1 = (Returns (Inr p), w2)"
    and h: "setupHostVeth host (if_Name (fst p)) r w2 = (Returns None, w3)"
    and r: "go_return (Inr r :: error + Result) w3 = (Returns (Inr result), w4)"
    by (elim go_try_Inr go_defer_Returns go_check_Inr) (rule that, assumption+)
  from r have r: "result = r" by simp
  obtain index nodeGw where g: "To4 nodeGw \<noteq> []" "\<not> IsLoopback nodeGw"
    "\<forall>route \<in> set (container_routes host args index nodeGw). \<exists>u v. RouteAdd host route u = (Returns None, v)"
    by (rule setupContainerVeth_success [OF run c])
  obtain j route u v where "pod_route r j route" "RouteAdd host route u = (Returns None, v)"
    by (rule setupHostVeth_success [OF h])
  then show ?thesis using that [OF new [folded r] g] r by simp
qed

end
