(* ===== verification/Net_Effects.thy ===== *)
theory Net_Effects
  imports Cni_Laws
begin

section \<open>What the plugins do to the network\<close>

text \<open>
  A view of the network, the second component of the world: the namespace in which the plugin is
  running and what holds in which namespace. A namespace goes by its path. The network libraries
  are no part of the sources; what a successful call of theirs has done is named as \<open>net_laws\<close>,
  and the drivers' lemmas follow the view through their runs, call by call.
\<close>

subsection \<open>The laws\<close>

datatype net_fact =
    AddrOn string string IPNet
  | LinkIn string string int
  | RouteIn string NRoute
  | PeerOf string string string string

text \<open>
  An address of a device, the index of a device, a route, and the device at the other end of a
  pair, each in the namespace that comes first; a pair's other end comes with its own namespace.
\<close>

definition gains ::
    "('n \<Rightarrow> string) \<Rightarrow> ('n \<Rightarrow> net_fact set) \<Rightarrow> net_fact set \<Rightarrow> 'd \<times> 'n \<Rightarrow> 'd \<times> 'n \<Rightarrow> bool" where
  "gains cur facts new w t \<longleftrightarrow> cur (snd t) = cur (snd w) \<and> facts (snd w) \<union> new \<subseteq> facts (snd t)"

text \<open>
  The documented effect of the calls that succeed. \<open>NS_Do\<close> runs its closure in the namespace,
  hands it the one it came from, and is back there at the end. \<open>ConfigureIface\<close> gives the device
  the addresses of the result that belong to an interface. None of these calls takes an address,
  a device or a route away; of renaming and deleting a device nothing is said.
\<close>

definition yields ::
    "('n \<Rightarrow> string) \<Rightarrow> ('n \<Rightarrow> net_fact set) \<Rightarrow> ('d \<times> 'n, error + 'a) go \<Rightarrow> (string \<Rightarrow> 'a \<Rightarrow> net_fact set) \<Rightarrow> bool" where
  "yields cur facts m new \<longleftrightarrow>
     (\<forall>w a t. m w = (Returns (Inr a), t) \<longrightarrow> gains cur facts (new (cur (snd w)) a) w t)"

definition effects ::
    "('n \<Rightarrow> string) \<Rightarrow> ('n \<Rightarrow> net_fact set) \<Rightarrow> ('d \<times> 'n, error option) go \<Rightarrow> (string \<Rightarrow> net_fact set) \<Rightarrow> bool" where
  "effects cur facts m new \<longleftrightarrow>
     (\<forall>w t. m w = (Returns None, t) \<longrightarrow> gains cur facts (new (cur (snd w))) w t)"

definition enters :: "('n \<Rightarrow> string) \<Rightarrow> ('n \<Rightarrow> net_fact set) \<Rightarrow> ('d \<times> 'n) Host \<Rightarrow> bool" where
  "enters cur facts host \<longleftrightarrow>
     (\<forall>ns f w xs t. NS_Do host ns f w = (Returns (Inr xs), t) \<longrightarrow>
        (\<exists>h u v. f h u = (Returns (Inr xs), v) \<and> ns_Path h = cur (snd w) \<and>
           cur (snd u) = ns_Path ns \<and> facts (snd u) = facts (snd w) \<and>
           cur (snd t) = cur (snd w) \<and> facts (snd t) = facts (snd v)))"

definition configured :: "string \<Rightarrow> string \<Rightarrow> Result \<Rightarrow> net_fact set" where
  "configured ns name res = {AddrOn ns name (ipc_Address c) |c. c \<in> set (rs_IPs res) \<and> ipc_Interface c \<noteq> None}"

definition net_laws :: "('n \<Rightarrow> string) \<Rightarrow> ('n \<Rightarrow> net_fact set) \<Rightarrow> ('d \<times> 'n) Host \<Rightarrow> bool" where
  "net_laws cur facts host \<longleftrightarrow> enters cur facts host \<and>
     (\<forall>path w ns t. GetNS host path w = (Returns (Inr ns), t) \<longrightarrow> ns_Path ns = path) \<and>
     (\<forall>path. yields cur facts (GetNS host path) (\<lambda>here ns. {})) \<and>
     (\<forall>ns w d t. CloseNS host ns w = (Returns d, t) \<longrightarrow> gains cur facts {} w t) \<and>
     (\<forall>name. yields cur facts (LinkByName host name) (\<lambda>here l. {LinkIn here name (lk_Index l)})) \<and>
     yields cur facts (RandomVethName host) (\<lambda>here name. {}) \<and>
     (\<forall>l. effects cur facts (LinkAdd host l) (\<lambda>here. {})) \<and>
     (\<forall>l. effects cur facts (LinkSetUp host l) (\<lambda>here. {})) \<and>
     (\<forall>name. yields cur facts (InterfaceByName host name) (\<lambda>here l. {})) \<and>
     (\<forall>l. yields cur facts (Addrs host l) (\<lambda>here addrs. {})) \<and>
     (\<forall>name mtu mac ns. yields cur facts (SetupVeth host name mtu mac ns)
        (\<lambda>here (hostVeth, contVeth). {PeerOf here name (ns_Path ns) (lk_Name hostVeth)})) \<and>
     (\<forall>r. effects cur facts (RouteAdd host r) (\<lambda>here. {RouteIn here r})) \<and>
     (\<forall>name res. effects cur facts (ConfigureIface host name res) (\<lambda>here. configured here name res))"

lemma yieldsD: "yields cur facts m new \<Longrightarrow> m w = (Returns (Inr a), t) \<Longrightarrow> gains cur facts (new (cur (snd w)) a) w t"
  unfolding yields_def by blast

lemma effectsD: "effects cur facts m new \<Longrightarrow> m w = (Returns None, t) \<Longrightarrow> gains cur facts (new (cur (snd w))) w t"
  unfolding effects_def by blast

lemma net_lawsD:
  assumes "net_laws cur facts host"
  shows "GetNS host path w = (Returns (Inr ns), t) \<Longrightarrow> ns_Path ns = path"
    and "yields cur facts (GetNS host path) (\<lambda>here ns. {})"
    and "CloseNS host ns w = (Returns d, t) \<Longrightarrow> gains cur facts {} w t"
    and "yields cur facts (LinkByName host name) (\<lambda>here l. {LinkIn here name (lk_Index l)})"
    and "effects cur facts (LinkSetUp host l) (\<lambda>here. {})"
    and "yields cur facts (InterfaceByName host name) (\<lambda>here l. {})"
    and "yields cur facts (Addrs host l) (\<lambda>here addrs. {})"
    and "yields cur facts (SetupVeth host name mtu mac ns)
      (\<lambda>here (hostVeth, contVeth). {PeerOf here name (ns_Path ns) (lk_Name hostVeth)})"
    and "effects cur facts (RouteAdd host r) (\<lambda>here. {RouteIn here r})"
    and "effects cur facts (ConfigureIface host name res) (\<lambda>here. configured here name res)"
    and "enters cur facts host"
    and "yields cur facts (RandomVethName host) (\<lambda>here name. {})"
    and "effects cur facts (LinkAdd host iv) (\<lambda>here. {})"
proof -
  note l0 = assms [unfolded net_laws_def]
  note l1 = conjunct2 [OF l0] note l2 = conjunct2 [OF l1] note l3 = conjunct2 [OF l2]
  note l4 = conjunct2 [OF l3] note l5 = conjunct2 [OF l4] note l6 = conjunct2 [OF l5]
  note l7 = conjunct2 [OF l6] note l8 = conjunct2 [OF l7] note l9 = conjunct2 [OF l8]
  note l10 = conjunct2 [OF l9] note l11 = conjunct2 [OF l10] note l12 = conjunct2 [OF l11]
  show "GetNS host path w = (Returns (Inr ns), t) \<Longrightarrow> ns_Path ns = path" using conjunct1 [OF l1] by blast
  show "yields cur facts (GetNS host path) (\<lambda>here ns. {})" by (rule spec [OF conjunct1 [OF l2]])
  show "CloseNS host ns w = (Returns d, t) \<Longrightarrow> gains cur facts {} w t" using conjunct1 [OF l3] by blast
  show "yields cur facts (LinkByName host name) (\<lambda>here l. {LinkIn here name (lk_Index l)})"
    by (rule spec [OF conjunct1 [OF l4]])
  show "effects cur facts (LinkSetUp host l) (\<lambda>here. {})" by (rule spec [OF conjunct1 [OF l7]])
  show "yields cur facts (InterfaceByName host name) (\<lambda>here l. {})" by (rule spec [OF conjunct1 [OF l8]])
  show "yields cur facts (Addrs host l) (\<lambda>here addrs. {})" by (rule spec [OF conjunct1 [OF l9]])
  show "yields cur facts (SetupVeth host name mtu mac ns)
      (\<lambda>here (hostVeth, contVeth). {PeerOf here name (ns_Path ns) (lk_Name hostVeth)})"
    by (rule spec [OF spec [OF spec [OF spec [OF conjunct1 [OF l10]]]]])
  show "effects cur facts (RouteAdd host r) (\<lambda>here. {RouteIn here r})" by (rule spec [OF conjunct1 [OF l11]])
  show "effects cur facts (ConfigureIface host name res) (\<lambda>here. configured here name res)"
    by (rule spec [OF spec [OF l12]])
  show "enters cur facts host" by (rule conjunct1 [OF l0])
  show "yields cur facts (RandomVethName host) (\<lambda>here name. {})" by (rule conjunct1 [OF l5])
  show "effects cur facts (LinkAdd host iv) (\<lambda>here. {})" by (rule spec [OF conjunct1 [OF l6]])
qed

lemma net_laws_Do:
  assumes "net_laws cur facts host" "NS_Do host ns f w = (Returns (Inr xs), t)"
  obtains h u v where "f h u = (Returns (Inr xs), v)" "ns_Path h = cur (snd w)" "cur (snd u) = ns_Path ns"
    "facts (snd u) = facts (snd w)" "cur (snd t) = cur (snd w)" "facts (snd t) = facts (snd v)"
  using net_lawsD(11) [OF assms(1), unfolded enters_def] assms(2) by metis

lemma net_laws_closures: "net_laws cur facts host \<Longrightarrow> closures_run host"
  unfolding closures_run_def using net_laws_Do by metis

subsection \<open>Runs\<close>

lemma gains_trans:
  "gains cur facts new w u \<Longrightarrow> gains cur facts new' u t \<Longrightarrow> gains cur facts (new \<union> new') w t"
  by (auto simp: gains_def)

lemma gains_less: "gains cur facts new w t \<Longrightarrow> new' \<subseteq> new \<Longrightarrow> gains cur facts new' w t"
  by (auto simp: gains_def)

lemma gainsD:
  assumes "gains cur facts new w t"
  shows "cur (snd t) = cur (snd w)" "facts (snd w) \<subseteq> facts (snd t)" "new \<subseteq> facts (snd t)"
  using assms by (auto simp: gains_def)

subsection \<open>The ipvlan driver\<close>

text \<open>
  After a successful set-up the device in the pod has every address of the result: \<open>configure\<close>
  runs inside the pod's namespace, and closing the handle takes nothing away.
\<close>

lemma createIPVlan_stays:
  assumes net: "net_laws cur facts host" and ok: "createIPVlan host args netns w = (Returns (Inr slave), t)"
  shows "cur (snd t) = cur (snd w)"
proof -
  obtain mode where "modeFromString (GetIpVlanMode (cc_NetConf args)) = Inr mode"
    using ok by (auto simp: createIPVlan_def split: sum.splits)
  with ok obtain m u1 tmpName u2 iv u3 xs where run: "LinkByName host (GetIpVlanMaster (cc_NetConf args)) w = (Returns (Inr m), u1)"
    "RandomVethName host u1 = (Returns (Inr tmpName), u2)" "LinkAdd host iv u2 = (Returns None, u3)"
    and enter: "NS_Do host netns (\<lambda>_. rename_and_fetch host args netns tmpName) u3 = (Returns (Inr xs), t)"
    unfolding createIPVlan_def by (auto elim!: go_try_Inr go_check_Inr)
  have "cur (snd t) = cur (snd u3)" by (rule net_laws_Do [OF net enter])
  then show ?thesis
    using gainsD(1) [OF yieldsD [OF net_lawsD(4) [OF net] run(1)]]
      gainsD(1) [OF yieldsD [OF net_lawsD(12) [OF net] run(2)]]
      gainsD(1) [OF effectsD [OF net_lawsD(13) [OF net] run(3)]] by simp
qed

lemma IPVlan_Setup_effect:
  assumes net: "net_laws cur facts host" and ok: "IPVlan_Setup host reply args w = (Returns (Inr result), t)"
  shows "cur (snd t) = cur (snd w) \<and>
    configured (cc_NetNS args) (ca_IfName (cc_RawArgs args)) result \<subseteq> facts (snd t)"
proof -
  obtain netNs w1 w2 slave ipaddr gwaddr n u1 d where
    ns: "GetNS host (cc_NetNS args) w = (Returns (Inr netNs), w1)" and
    sl: "createIPVlan host args netNs w1 = (Returns (Inr slave), w2)"
    and rest: "(case with_default_route host (cc_NetConf args) gwaddr (ipvlan_result host slave ipaddr gwaddr n) of
       Inl err \<Rightarrow> go_return (Inl err)
     | Inr result \<Rightarrow>
         go_try (\<lambda>e. Errorf ''failed to configure ip address for ipvlan interface with error'' (Some e))
           (NS_Do host netNs (\<lambda>_. configure host args result)) (\<lambda>_.
         go_return (Inr result))) w2 = (Returns (Inr result), u1)"
    and close: "CloseNS host netNs u1 = (Returns d, t)"
    using ok unfolding IPVlan_Setup_def
    by (elim go_try_Inr go_defer_Returns bind_Returns)
      (auto simp: go_deref_Returns elim!: bind_Returns simp del: go_bind_run)
  from rest obtain xs where "NS_Do host netNs (\<lambda>_. configure host args result) w2 = (Returns (Inr xs), u1)"
    by (auto split: sum.splits elim!: go_try_Inr)
  then obtain h u v where c: "configure host args result u = (Returns (Inr xs), v)" "cur (snd u) = ns_Path netNs"
    and out: "cur (snd u1) = cur (snd w2)" "facts (snd u1) = facts (snd v)"
    by (rule net_laws_Do [OF net])
  from c(1) have "ConfigureIface host (ca_IfName (cc_RawArgs args)) result u = (Returns None, v)"
    unfolding configure_def by (auto elim!: go_check_Inr)
  note conf = effectsD [OF net_lawsD(10) [OF net] this]
  have path: "ns_Path netNs = cc_NetNS args" by (rule net_lawsD(1) [OF net ns])
  note first = gainsD(1) [OF yieldsD [OF net_lawsD(2) [OF net] ns]]
  note last = gainsD [OF net_lawsD(3) [OF net close]]
  show ?thesis
    using first createIPVlan_stays [OF net sl] out last gainsD(3) [OF conf] c(2) path by auto
qed

subsection \<open>The point-to-point driver\<close>

lemma add_routes_effect:
  assumes net: "net_laws cur facts host"
  shows "add_routes host routes w = (Returns None, t) \<Longrightarrow> gains cur facts (RouteIn (cur (snd w)) ` set routes) w t"
proof (induction routes arbitrary: w)
  case Nil
  then show ?case by (simp add: gains_def)
next
  case (Cons r routes)
  obtain o1 u where r: "RouteAdd host r w = (o1, u)" by (metis surj_pair)
  with Cons.prems have o1: "o1 = Returns None" and rest: "add_routes host routes u = (Returns None, t)"
    by (cases o1; simp split: option.splits)+
  have "gains cur facts {RouteIn (cur (snd w)) r} w u"
    by (rule effectsD [OF net_lawsD(9) [OF net]]) (use r o1 in simp)
  with Cons.IH [OF rest] show ?case by (auto simp: gains_def)
qed

text \<open>
  What the closure in the pod's namespace does: the pod's device has its other end where the
  closure came from, and the two routes of the pod go through it.
\<close>

lemma connect_container_effect:
  assumes net: "net_laws cur facts host"
    and ok: "connect_container host netns name args nodeGw hostNS w = (Returns (Inr xs), t)"
  obtains veth index rest where "xs = veth # rest" "length rest = 1"
    "gains cur facts ({PeerOf (cur (snd w)) name (ns_Path hostNS) (if_Name veth), LinkIn (cur (snd w)) name index} \<union>
       RouteIn (cur (snd w)) ` set (container_routes host args index nodeGw)) w t"
proof -
  from ok obtain hv cv w1 l w2 w3 where
    s: "SetupVeth host name (nc_MTU (cc_NetConf args)) '''' hostNS w = (Returns (Inr (hv, cv)), w1)"
    and l: "LinkByName host name w1 = (Returns (Inr l), w2)" and up: "LinkSetUp host l w2 = (Returns None, w3)"
    and r: "add_routes host (container_routes host args (lk_Index l) nodeGw) w3 = (Returns None, t)"
    and xs: "xs = [\<lparr>if_Name = lk_Name hv, if_Mac = HardwareAddr_String (lk_HardwareAddr hv), if_Sandbox = ''''\<rparr>,
        \<lparr>if_Name = lk_Name cv, if_Mac = HardwareAddr_String (lk_HardwareAddr cv), if_Sandbox = ns_Path netns\<rparr>]"
    unfolding connect_container_def by (clarsimp elim!: go_try_Inr go_check_Inr)
  note gs = yieldsD [OF net_lawsD(8) [OF net] s] and gl = yieldsD [OF net_lawsD(4) [OF net] l]
    and gu = effectsD [OF net_lawsD(5) [OF net] up] and gr = add_routes_effect [OF net r]
  have same: "cur (snd w1) = cur (snd w)" "cur (snd w2) = cur (snd w)" "cur (snd w3) = cur (snd w)"
    using gainsD(1) [OF gs] gainsD(1) [OF gl] gainsD(1) [OF gu] by simp_all
  have "gains cur facts ({PeerOf (cur (snd w)) name (ns_Path hostNS) (lk_Name hv)} \<union>
      {LinkIn (cur (snd w)) name (lk_Index l)} \<union> {} \<union> RouteIn (cur (snd w)) ` set (container_routes host args (lk_Index l) nodeGw)) w t"
    using gains_trans [OF gains_trans [OF gains_trans [OF gs gl] gu] gr] unfolding same by simp
  then show ?thesis using that [of "hd xs" "tl xs" "lk_Index l"] xs by (simp add: insert_commute)
qed

lemma setupContainerVeth_effect:
  assumes net: "net_laws cur facts host"
    and ok: "setupContainerVeth host netns name args w = (Returns (Inr (hostIf, contIf)), t)"
  obtains index nodeGw where "To4 nodeGw \<noteq> []" "\<not> IsLoopback nodeGw"
    "gains cur facts ({PeerOf (ns_Path netns) name (cur (snd w)) (if_Name hostIf), LinkIn (ns_Path netns) name index} \<union>
       RouteIn (ns_Path netns) ` set (container_routes host args index nodeGw)) w t"
proof -
  from ok obtain gw w1 xs where
    gw: "getLinkIpAddrs host (GetIpVlanMaster (cc_NetConf args)) w = (Returns (Inr gw), w1)"
    and enter: "NS_Do host netns (connect_container host netns name args (in_IP gw)) w1 = (Returns (Inr xs), t)"
    and eq: "(case xs of hostInterface # containerInterface # _ \<Rightarrow> (hostInterface, containerInterface)
       | _ \<Rightarrow> (no_interface, no_interface)) = (hostIf, contIf)"
    unfolding setupContainerVeth_def by (auto elim!: go_try_Inr)
  have usable: "first_usable addrs = Inr ipnet \<Longrightarrow> To4 (in_IP ipnet) \<noteq> [] \<and> \<not> IsLoopback (in_IP ipnet)"
    for addrs ipnet
    by (induction addrs) (auto simp: usable_addr_def split: option.splits Addr.splits if_splits)
  from gw obtain iface u1 addrs where a: "InterfaceByName host (GetIpVlanMaster (cc_NetConf args)) w = (Returns (Inr iface), u1)"
    "Addrs host iface u1 = (Returns (Inr addrs), w1)" "first_usable addrs = Inr gw"
    unfolding getLinkIpAddrs_def by (auto elim!: go_try_Inr)
  have g1: "gains cur facts {} w w1"
    using gains_trans [OF yieldsD [OF net_lawsD(6) [OF net] a(1)] yieldsD [OF net_lawsD(7) [OF net] a(2)]] by simp
  obtain h u v where c: "connect_container host netns name args (in_IP gw) h u = (Returns (Inr xs), v)"
    "ns_Path h = cur (snd w1)" "cur (snd u) = ns_Path netns" "facts (snd u) = facts (snd w1)"
    "cur (snd t) = cur (snd w1)" "facts (snd t) = facts (snd v)"
    by (rule net_laws_Do [OF net enter])
  obtain veth index rest where v: "xs = veth # rest" "length rest = 1"
    "gains cur facts ({PeerOf (cur (snd u)) name (ns_Path h) (if_Name veth), LinkIn (cur (snd u)) name index} \<union>
       RouteIn (cur (snd u)) ` set (container_routes host args index (in_IP gw))) u v"
    by (rule connect_container_effect [OF net c(1)])
  have "hostIf = veth" using eq v(1,2) by (cases rest) auto
  then have "gains cur facts ({PeerOf (ns_Path netns) name (cur (snd w)) (if_Name hostIf), LinkIn (ns_Path netns) name index} \<union>
       RouteIn (ns_Path netns) ` set (container_routes host args index (in_IP gw))) w t"
    using v(3) g1 c(2-6) unfolding gains_def by auto
  then show ?thesis using that usable [OF a(3)] by blast
qed

lemma setupHostVeth_effect:
  assumes net: "net_laws cur facts host" and ok: "setupHostVeth host name result w = (Returns None, t)"
  obtains index route where "pod_route result index route"
    "gains cur facts {LinkIn (cur (snd w)) name index, RouteIn (cur (snd w)) route} w t"
proof -
  obtain got u where l: "LinkByName host name w = (got, u)" by (metis surj_pair)
  with ok obtain link where got: "got = Returns (Inr link)"
    by (cases got) (auto simp: setupHostVeth_def split: sum.splits)
  obtain c cs where ips: "rs_IPs result = c # cs" using ok l got by (cases "rs_IPs result") (auto simp: setupHostVeth_def)
  let ?r = "\<lparr>nr_LinkIndex = lk_Index link, nr_Dst = Some \<lparr>in_IP = in_IP (ipc_Address c), in_Mask = [255, 255, 255, 255]\<rparr>,
      nr_Gw = [], nr_Scope = ScopeLink\<rparr>"
  have "RouteAdd host ?r u = (Returns None, t)"
    using ok l got ips by (auto simp: setupHostVeth_def CIDRMask_host split: prod.splits outcome.splits option.splits)
  note gr = effectsD [OF net_lawsD(9) [OF net] this]
  have gl: "gains cur facts {LinkIn (cur (snd w)) name (lk_Index link)} w u"
    by (rule yieldsD [OF net_lawsD(4) [OF net]]) (use l got in simp)
  have "pod_route result (lk_Index link) ?r" using ips by (simp add: pod_route_def)
  then show ?thesis using that gains_trans [OF gl gr] gainsD(1) [OF gl] by (simp add: insert_commute)
qed

lemma PTP_Setup_effect:
  assumes net: "net_laws cur facts host" and ok: "PTP_Setup host pre args w = (Returns (Inr result), t)"
  obtains veth i route j nodeGw where "pod_route result i route" "To4 nodeGw \<noteq> []" "\<not> IsLoopback nodeGw"
    "gains cur facts ({PeerOf (cc_NetNS args) DefaultContainerVethName (cur (snd w)) veth,
         LinkIn (cur (snd w)) veth i, RouteIn (cur (snd w)) route, LinkIn (cc_NetNS args) DefaultContainerVethName j} \<union>
       RouteIn (cc_NetNS args) ` set (container_routes host args j nodeGw)) w t"
proof -
  obtain r where new: "NewResultFromResult host pre = Some r"
    using ok by (cases "NewResultFromResult host pre") (simp_all add: PTP_Setup_def)
  have ne: "rs_IPs r \<noteq> []" using ok new by (cases "rs_IPs r") (simp_all add: PTP_Setup_def)
  have body: "PTP_Setup host pre args w = go_try (\<lambda>e. Errorf ''failed to open netns'' (Some e))
      (GetNS host (cc_NetNS args)) (\<lambda>netNs. go_defer (CloseNS host netNs) (
       go_try (\<lambda>e. Errorf ''failed to create veth with error'' (Some e))
         (setupContainerVeth host netNs DefaultContainerVethName args) (\<lambda>p.
       go_check (\<lambda>e. Errorf ''failed to setup veth pair on host with error'' (Some e))
         (setupHostVeth host (if_Name (fst p)) r) (go_return (Inr r))))) w" (is "_ = ?body")
    unfolding PTP_Setup_def new split_def using ne by simp
  have "?body = (Returns (Inr result), t)" by (rule trans [OF body [symmetric] ok])
  then obtain netNs w1 w4 d p w2 w3 where ns: "GetNS host (cc_NetNS args) w = (Returns (Inr netNs), w1)"
    and close: "CloseNS host netNs w4 = (Returns d, t)"
    and c: "setupContainerVeth host netNs DefaultContainerVethName args w1 = (Returns (Inr p), w2)"
    and h: "setupHostVeth host (if_Name (fst p)) r w2 = (Returns None, w3)"
    and r: "go_return (Inr r :: error + Result) w3 = (Returns (Inr result), w4)"
    by (elim go_try_Inr go_defer_Returns go_check_Inr) (rule that, assumption+)
  from r have r: "result = r" "w4 = w3" by simp_all
  obtain hostIf contIf where p: "p = (hostIf, contIf)" by (metis surj_pair)
  have path: "ns_Path netNs = cc_NetNS args" by (rule net_lawsD(1) [OF net ns])
  note g1 = yieldsD [OF net_lawsD(2) [OF net] ns]
  obtain j nodeGw where gw: "To4 nodeGw \<noteq> []" "\<not> IsLoopback nodeGw" and
    g2: "gains cur facts ({PeerOf (ns_Path netNs) DefaultContainerVethName (cur (snd w1)) (if_Name hostIf),
        LinkIn (ns_Path netNs) DefaultContainerVethName j} \<union>
       RouteIn (ns_Path netNs) ` set (container_routes host args j nodeGw)) w1 w2"
    by (rule setupContainerVeth_effect [OF net c [unfolded p]])
  obtain i route where pr: "pod_route r i route"
    and g3: "gains cur facts {LinkIn (cur (snd w2)) (if_Name hostIf) i, RouteIn (cur (snd w2)) route} w2 w3"
    using setupHostVeth_effect [OF net h] p by auto
  note g4 = net_lawsD(3) [OF net close [unfolded r(2)]]
  have same: "cur (snd w1) = cur (snd w)" "cur (snd w2) = cur (snd w)" using gainsD(1) [OF g1] gainsD(1) [OF g2] by simp_all
  note all = gains_trans [OF g1 gains_trans [OF g2 gains_trans [OF g3 g4]], unfolded same path]
  show ?thesis
    by (rule that [of i route nodeGw "if_Name hostIf" j, OF _ gw gains_less [OF all]]) (use pr r(1) in auto)
qed

end
