(* ===== verification/Cni_Properties.thy ===== *)
theory Cni_Properties
  imports Net_Effects Daemon_Properties Pool_Properties
begin

section \<open>Properties of the plugin\<close>

text \<open>
  The commands together with the daemon they call. The world is a pair: the daemon's server and
  everything else, the network with its devices, addresses and routes. The client of the daemon hands a
  request to the server's handler and the handler's reply back (\<open>daemon_client\<close>).
\<close>

definition daemon_client :: "(('w, 's) daemonServer \<times> 'n) RubbleBackendClient" where
  "daemon_client =
     \<lparr>rb_AllocateIP = (\<lambda>ctx r. go_zoom fst (\<lambda>s w. (s, snd w)) (AllocateIP ctx r)),
      rb_ReleaseIP = (\<lambda>ctx r. go_zoom fst (\<lambda>s w. (s, snd w)) (ReleaseIP ctx r))\<rparr>"

text \<open>The network libraries do not touch the daemon.\<close>

abbreviation spares_daemon :: "('d \<times> 'n) Host \<Rightarrow> bool" where
  "spares_daemon host \<equiv> \<forall>d. host_keeps (\<lambda>w. fst w = d) host"

definition copies_result :: "'w Host \<Rightarrow> bool" where
  "copies_result host \<longleftrightarrow> (\<forall>r r'. NewResultFromResult host r = Some r' \<longrightarrow> r' = r)"

lemma keeps_fst:
  assumes "\<forall>d. keeps (\<lambda>w. fst w = d) m" "m w = (r, t)"
  shows "fst t = fst w"
  by (rule keepsD [OF spec [OF assms(1), of "fst w"] refl assms(2)])

subsection \<open>A concrete machine\<close>

text \<open>
  The namespaces there are, the one the plugin is in, and what has been set up. Every device that
  is looked up exists and has index 7.
\<close>

record simnet =
  net_spaces :: "string list"
  net_current :: string
  net_setup :: "net_fact list"

definition sim_facts :: "simnet \<Rightarrow> net_fact set" where
  "sim_facts n = set (net_setup n) \<union> range (\<lambda>(ns, name). LinkIn ns name 7)"

definition sim_learn :: "net_fact list \<Rightarrow> 'd \<times> simnet \<Rightarrow> 'd \<times> simnet" where
  "sim_learn new w = (fst w, (snd w)\<lparr>net_setup := new @ net_setup (snd w)\<rparr>)"

definition sim_move :: "string \<Rightarrow> 'd \<times> simnet \<Rightarrow> 'd \<times> simnet" where
  "sim_move ns w = (fst w, (snd w)\<lparr>net_current := ns\<rparr>)"

definition sim_link :: "string \<Rightarrow> Link" where
  "sim_link name = \<lparr>lk_Name = name, lk_Index = 7, lk_HardwareAddr = [2, 66, 172]\<rparr>"

definition sim_node_ip :: IPNet where
  "sim_node_ip = \<lparr>in_IP = [192, 168, 1, 5], in_Mask = [255, 255, 255, 0]\<rparr>"

definition sim_host :: "('d \<times> simnet) Host" where
  "sim_host =
     \<lparr>GetNS = (\<lambda>p w. (Returns (if p \<in> set (net_spaces (snd w)) then Inr \<lparr>ns_Path = p, ns_Fd = 3\<rparr>
         else Inl (Foreign ''no such path'')), w)),
      CloseNS = (\<lambda>ns w. (Returns None, w)),
      NS_Do = (\<lambda>ns f w. case f \<lparr>ns_Path = net_current (snd w), ns_Fd = 4\<rparr> (sim_move (ns_Path ns) w) of
         (r, t) \<Rightarrow> (r, sim_move (net_current (snd w)) t)),
      WithNetNSPath = (\<lambda>p f w. f \<lparr>ns_Path = ''host'', ns_Fd = 4\<rparr> w),
      LinkByName = (\<lambda>name w. (Returns (Inr (sim_link name)), w)), LinkAdd = (\<lambda>l w. (Returns None, w)),
      LinkSetUp = (\<lambda>l w. (Returns None, w)),
      RouteAdd = (\<lambda>r w. (Returns None, sim_learn [RouteIn (net_current (snd w)) r] w)),
      RandomVethName = (\<lambda>w. (Returns (Inr ''veth1234''), w)), RenameLink = (\<lambda>a b w. (Returns None, w)),
      SetupVeth = (\<lambda>a mtu b ns w. (Returns (Inr (sim_link ''vethx'', sim_link a)),
         sim_learn [PeerOf (net_current (snd w)) a (ns_Path ns) ''vethx''] w)),
      DelLinkByName = (\<lambda>name w. (Returns (Some (Foreign ''Link not found'')), w)),
      ConfigureIface = (\<lambda>name r w. (Returns None, sim_learn (map (\<lambda>c. AddrOn (net_current (snd w)) name (ipc_Address c))
         (filter (\<lambda>c. ipc_Interface c \<noteq> None) (rs_IPs r))) w)),
      InterfaceByName = (\<lambda>name w. (Returns (Inr (sim_link name)), w)),
      Addrs = (\<lambda>l w. (Returns (Inr [OtherAddr ''fe80'', IPNetAddr sim_node_ip]), w)),
      ErrLinkNotFound = Foreign ''Link not found'', NSPathNotExistErr = (\<lambda>m. m = ''no such path''),
      ParseIPNet = (\<lambda>s. None), parseIPv6 = (\<lambda>s. []), ImplementedSpecVersion = ''1.0.0'',
      NewResultFromResult = Some\<rparr>"

definition sim_net :: simnet where
  "sim_net = \<lparr>net_spaces = [''/proc/1/ns/net''], net_current = ''/proc/self/ns/net'', net_setup = []\<rparr>"

lemma sim_moves [simp]:
  "fst (sim_move ns w) = fst w" "net_spaces (snd (sim_move ns w)) = net_spaces (snd w)"
  "net_current (snd (sim_move ns w)) = ns" "sim_facts (snd (sim_move ns w)) = sim_facts (snd w)"
  "fst (sim_learn new w) = fst w" "net_spaces (snd (sim_learn new w)) = net_spaces (snd w)"
  "net_current (snd (sim_learn new w)) = net_current (snd w)"
  "sim_facts (snd (sim_learn new w)) = set new \<union> sim_facts (snd w)"
  "sim_move (net_current (snd w)) (sim_move ns w) = w"
  by (auto simp: sim_move_def sim_learn_def sim_facts_def prod_eq_iff)

lemma sim_facts_simps [simp]:
  "LinkIn ns name 7 \<in> sim_facts n" "sim_facts (n\<lparr>net_setup := net_setup n\<rparr>) = sim_facts n"
  "sim_facts (n\<lparr>net_setup := x # xs\<rparr>) = insert x (sim_facts (n\<lparr>net_setup := xs\<rparr>))"
  "sim_facts (n\<lparr>net_setup := ys @ xs\<rparr>) = set ys \<union> sim_facts (n\<lparr>net_setup := xs\<rparr>)"
  by (auto simp: sim_facts_def)

lemma sim_host_laws: "spares_daemon (sim_host :: ('d \<times> simnet) Host)" "closures_run (sim_host :: ('d \<times> simnet) Host)"
    "copies_result (sim_host :: ('d \<times> simnet) Host)" "net_laws net_current sim_facts (sim_host :: ('d \<times> simnet) Host)"
proof -
  let ?host = "sim_host :: ('d \<times> simnet) Host"
  show "copies_result ?host" by (simp add: sim_host_def copies_result_def)
  show "spares_daemon ?host"
  proof
    fix d :: 'd
    have "keeps (\<lambda>w. fst w = d) (NS_Do ?host ns f)" if "\<forall>h. keeps (\<lambda>w. fst w = d) (f h)" for ns f
    proof (rule keepsI)
      fix w :: "'d \<times> simnet"
      assume "fst w = d"
      then have "fst (sim_move (ns_Path ns) w) = d" by simp
      then have "fst (snd (f h (sim_move (ns_Path ns) w))) = d" for h using that unfolding keeps_def by blast
      then show "fst (snd (NS_Do ?host ns f w)) = d" by (simp add: sim_host_def split_def)
    qed
    then show "host_keeps (\<lambda>w. fst w = d) ?host"
      unfolding host_keeps_def by (simp add: keeps_def) (simp add: sim_host_def)
  qed
  have "enters net_current sim_facts ?host"
    unfolding enters_def
  proof (intro allI impI)
    fix ns f and w t :: "'d \<times> simnet" and xs
    assume run: "NS_Do ?host ns f w = (Returns (Inr xs), t)"
    let ?h = "\<lparr>ns_Path = net_current (snd w), ns_Fd = 4\<rparr>" and ?u = "sim_move (ns_Path ns) w"
    obtain v where "f ?h ?u = (Returns (Inr xs), v)" "t = sim_move (net_current (snd w)) v"
      using run by (cases "f ?h ?u") (auto simp: sim_host_def)
    then show "\<exists>h u v. f h u = (Returns (Inr xs), v) \<and> ns_Path h = net_current (snd w) \<and>
        net_current (snd u) = ns_Path ns \<and> sim_facts (snd u) = sim_facts (snd w) \<and>
        net_current (snd t) = net_current (snd w) \<and> sim_facts (snd t) = sim_facts (snd v)"
      by (intro exI [of _ ?h] exI [of _ ?u] exI [of _ v]) simp
  qed
  then show net: "net_laws net_current sim_facts ?host"
    unfolding net_laws_def yields_def effects_def gains_def configured_def
    by (elim conjI) (auto simp: sim_host_def sim_link_def sim_learn_def split: if_splits)
  show "closures_run ?host" by (rule net_laws_closures [OF net])
qed

definition sim_cmd :: "string \<Rightarrow> string \<Rightarrow> CmdArgs" where
  "sim_cmd path name =
     \<lparr>ca_ContainerID = ''c'', ca_Netns = path, ca_IfName = ''eth0'',
      ca_Args = ''K8S_POD_NAMESPACE=ns;K8S_POD_NAME='' @ name, ca_Path = '''', ca_StdinData = ''{}''\<rparr>"

definition sim_conf :: NetConf where
  "sim_conf = \<lparr>nc_CNIVersion = ''0.4.0'', nc_Master = '''', nc_Mode = ''l2'', nc_MTU = 1500, nc_DefaultRoute = False\<rparr>"

definition sim_lib ::
    "((sim, (string \<Rightarrow> (string, string) gmap, PodResources) DiskStorage) daemonServer \<times> simnet) CniLibrary" where
  "sim_lib =
     \<lparr>lib_host = sim_host, lib_OpenFile = (\<lambda>p w. (Returns None, w)), lib_Unmarshal = (\<lambda>s. Inr sim_conf),
      lib_DialContext = (\<lambda>ctx p w. (Returns None, w)), lib_client = daemon_client,
      lib_Close = (\<lambda>w. (Returns None, w)), lib_PrintResult = (\<lambda>r v w. (Returns None, w))\<rparr>"

definition sim_args :: "string \<Rightarrow> string \<Rightarrow> CniCmdArgs" where
  "sim_args path name =
     \<lparr>cc_NetConf = sim_conf,
      cc_K8sArgs = \<lparr>K8sPodName = name, K8sPodNameSpace = ''ns'', K8sInfraContainerID = ''c'', K8sServiceCidr = ''''\<rparr>,
      cc_RawArgs = sim_cmd path name, cc_NetNS = path\<rparr>"

lemma sim_getCmdArgs: "getCmdArgs sim_lib (sim_cmd path ''db'') = Inr (sim_args path ''db'')"
    "getCmdArgs sim_lib (sim_cmd path ''web'') = Inr (sim_args path ''web'')"
  by (simp_all add: getCmdArgs_def loadNetConf_def getK8sArgs_def parseValueFromArgs_def sim_lib_def
      sim_cmd_def sim_args_def HasPrefix_def TrimPrefix_def)

subsection \<open>Arguments\<close>

text \<open>
  C34. Reading \<open>CNI_ARGS\<close> back: for arguments written as \<open>key=value\<close> and joined by semicolons,
  \<open>parseValueFromArgs\<close> gives the first value of the key that is not empty, and the error that
  the key is required if there is none.
\<close>

theorem cni_args_round_trip:
  assumes "kvs \<noteq> []" "CHR ''='' \<notin> set key"
    and "\<forall>(k, v) \<in> set kvs. CHR ''='' \<notin> set k \<and> CHR '';'' \<notin> set k \<and> CHR '';'' \<notin> set v"
  shows "parseValueFromArgs key (Join (CHR '';'') (map (\<lambda>(k, v). k @ CHR ''='' # v) kvs)) =
     (case find (\<lambda>(k, v). k = key \<and> v \<noteq> '''') kvs of
        None \<Rightarrow> Inl (Errorf ''is required in CNI_ARGS'' None)
      | Some (k, v) \<Rightarrow> Inr v)"
proof -
  let ?args = "map (\<lambda>(k, v). k @ CHR ''='' # v) kvs"
  have "\<forall>s\<in>set ?args. CHR '';'' \<notin> set s" using assms(3) by auto
  then have split: "Split (CHR '';'') (Join (CHR '';'') ?args) = ?args"
    using Split_Join [of ?args "CHR '';''"] assms(1) by simp
  have "Join (CHR '';'') ?args \<noteq> ''''"
  proof
    assume "Join (CHR '';'') ?args = ''''"
    with split have "?args = [[]]" by simp
    then show False using assms(1) by (auto simp: Cons_eq_append_conv)
  qed
  moreover have "find_value key ?args = (case find (\<lambda>(k, v). k = key \<and> v \<noteq> '''') kvs of
        None \<Rightarrow> Inl (Errorf ''is required in CNI_ARGS'' None) | Some (k, v) \<Rightarrow> Inr v)"
    using assms(3)
  proof (induction kvs)
    case Nil
    then show ?case by simp
  next
    case (Cons kv kvs)
    obtain k v where kv: "kv = (k, v)" by fastforce
    have "HasPrefix (k @ CHR ''='' # v) (key @ ''='') \<longleftrightarrow> k = key"
      using HasPrefix_key [of "CHR ''=''" key k v] assms(2) Cons.prems kv by simp
    moreover have "TrimPrefix (key @ CHR ''='' # v) (key @ ''='') = v"
      using TrimPrefix_append [of "key @ ''=''" v] by simp
    ultimately show ?case using Cons kv by auto
  qed
  ultimately show ?thesis using split by (simp add: parseValueFromArgs_def)
qed

theorem cni_args_round_trip_witness:
  "parseValueFromArgs ''K8S_POD_NAME'' ''IgnoreUnknown=1;K8S_POD_NAME=;K8S_POD_NAME=web'' = Inr ''web''"
  using cni_args_round_trip [of "[(''IgnoreUnknown'', ''1''), (''K8S_POD_NAME'', ''''), (''K8S_POD_NAME'', ''web'')]"
      "''K8S_POD_NAME''"]
  by simp

subsection \<open>Set-up\<close>

text \<open>
  A result the runtime can use: there is an address, every address belongs to a listed
  interface, and all masks have the length of an address of one of the two families.
\<close>

definition valid_result :: "Result \<Rightarrow> bool" where
  "valid_result result \<longleftrightarrow> rs_IPs result \<noteq> [] \<and>
     (\<forall>c \<in> set (rs_IPs result). length (in_Mask (ipc_Address c)) \<in> {4, 16} \<and>
        (\<forall>i. ipc_Interface c = Some i \<longrightarrow> 0 \<le> i \<and> nat i < length (rs_Interfaces result))) \<and>
     (\<forall>r \<in> set (rs_Routes result). length (in_Mask (rt_Dst r)) \<in> {4, 16})"

lemma ParseCIDR_mask: "ParseCIDR p6 s = Some (addr, net) \<Longrightarrow> length (in_Mask net) \<in> {4, 16}"
  by (auto simp: ParseCIDR_def Let_def length_CIDRMask split: list.splits if_splits)

lemma IPVlan_setup_facts:
  assumes "closures_run host" "IPVlan_Setup host reply args w = (Returns (Inr result), t)"
  shows "valid_result result"
    "\<exists>slave ipaddr gwaddr cidr. rs_Interfaces result = [slave] \<and> if_Name slave = ca_IfName (cc_RawArgs args) \<and>
        reply_addresses reply = Some (ipaddr, gwaddr, cidr) \<and>
        map (in_IP \<circ> ipc_Address) (rs_IPs result) = [ParseIP (parseIPv6 host) ipaddr] \<and>
        rs_Routes result = [\<lparr>rt_Dst = \<lparr>in_IP = v4InV6Prefix @ [0, 0, 0, 0], in_Mask = [0, 0, 0, 0]\<rparr>,
          rt_GW = ParseIP (parseIPv6 host) gwaddr\<rparr>]"
    "\<exists>u v. ConfigureIface host (ca_IfName (cc_RawArgs args)) result u = (Returns None, v)"
proof -
  obtain netNs w1 mac ipaddr gwaddr cidr addr net u v where
    "GetNS host (cc_NetNS args) w = (Returns (Inr netNs), w1)" and
    s: "reply_addresses reply = Some (ipaddr, gwaddr, cidr)" "ParseCIDR (parseIPv6 host) cidr = Some (addr, net)"
    "with_default_route host (cc_NetConf args) gwaddr (ipvlan_result host
       \<lparr>if_Name = ca_IfName (cc_RawArgs args), if_Mac = mac, if_Sandbox = ns_Path netNs\<rparr> ipaddr gwaddr net) = Inr result"
    "ConfigureIface host (ca_IfName (cc_RawArgs args)) result u = (Returns None, v)"
    by (rule IPVlan_Setup_success [OF assms])
  have r: "result = (ipvlan_result host
       \<lparr>if_Name = ca_IfName (cc_RawArgs args), if_Mac = mac, if_Sandbox = ns_Path netNs\<rparr> ipaddr gwaddr net)
       \<lparr>rs_Routes := [\<lparr>rt_Dst = \<lparr>in_IP = v4InV6Prefix @ [0, 0, 0, 0], in_Mask = [0, 0, 0, 0]\<rparr>,
          rt_GW = ParseIP (parseIPv6 host) gwaddr\<rparr>]\<rparr>"
    using s(3) by (simp add: with_default_route_always)
  show "valid_result result" using ParseCIDR_mask [OF s(2)] by (simp add: r valid_result_def ipvlan_result_def)
  show "\<exists>slave ipaddr gwaddr cidr. rs_Interfaces result = [slave] \<and>
      if_Name slave = ca_IfName (cc_RawArgs args) \<and> reply_addresses reply = Some (ipaddr, gwaddr, cidr) \<and>
      map (in_IP \<circ> ipc_Address) (rs_IPs result) = [ParseIP (parseIPv6 host) ipaddr] \<and>
      rs_Routes result = [\<lparr>rt_Dst = \<lparr>in_IP = v4InV6Prefix @ [0, 0, 0, 0], in_Mask = [0, 0, 0, 0]\<rparr>,
        rt_GW = ParseIP (parseIPv6 host) gwaddr\<rparr>]"
    using s(1) by (auto simp: r ipvlan_result_def)
  show "\<exists>u v. ConfigureIface host (ca_IfName (cc_RawArgs args)) result u = (Returns None, v)" using s(4) by blast
qed

text \<open>
  C32. The result of a successful \<open>Setup\<close> of the ipvlan driver is well formed: its one interface
  has the requested name, its address refers to that interface, all masks are four or sixteen
  bytes long. It has the default route through the reply's gateway, whether or not the
  configuration asks for one, and it is what the device was configured with.
\<close>

theorem setup_result_well_formed:
  assumes "closures_run host" "IPVlan_Setup host reply args w = (Returns (Inr result), t)"
  shows "valid_result result \<and>
     (\<exists>slave ipaddr gwaddr cidr. rs_Interfaces result = [slave] \<and> if_Name slave = ca_IfName (cc_RawArgs args) \<and>
        reply_addresses reply = Some (ipaddr, gwaddr, cidr) \<and>
        map (in_IP \<circ> ipc_Address) (rs_IPs result) = [ParseIP (parseIPv6 host) ipaddr] \<and>
        rs_Routes result = [\<lparr>rt_Dst = \<lparr>in_IP = v4InV6Prefix @ [0, 0, 0, 0], in_Mask = [0, 0, 0, 0]\<rparr>,
          rt_GW = ParseIP (parseIPv6 host) gwaddr\<rparr>]) \<and>
     (\<exists>u v. ConfigureIface host (ca_IfName (cc_RawArgs args)) result u = (Returns None, v))"
  using IPVlan_setup_facts [OF assms] by simp

lemmas sim_cni_defs = sim_host_def sim_args_def sim_cmd_def sim_conf_def sim_net_def sim_link_def

definition sim_reply :: AllocateIPReply where
  "sim_reply = \<lparr>ap_Success = True, ap_IPType = TypeENIMultiIP, ap_IPv4 = True, ap_IPv6 = False,
     ap_NetConfs = (case NetConfFromPort sim_port0 of Inr confs \<Rightarrow> confs | Inl e \<Rightarrow> []), ap_EnableTrunking = False\<rparr>"

lemma sim_reply_addresses: "reply_addresses sim_reply = Some (''10.0.0.2'', ''10.0.0.1'', ''10.0.0.0/24'')"
  by (simp add: sim_reply_def reply_addresses_def sim_port0_def NetConfFromPort_def Let_def ipv4_def)

lemma sim_ParseCIDR: "ParseCIDR p6 ''10.0.0.0/24'' = Some (v4InV6Prefix @ [10, 0, 0, 0],
   \<lparr>in_IP = [10, 0, 0, 0], in_Mask = [255, 255, 255, 0]\<rparr>)"
  by (simp add: ParseCIDR_def parseIPv4_def octet_def is_digit_def decimal_value_def CIDRMask_def
      mask_byte_def IP_Mask_def v4InV6Prefix_def upt_rec Let_def)

lemma sim_ParseIP: "ParseIP p6 ''10.0.0.2'' = v4InV6Prefix @ [10, 0, 0, 2]"
  by (simp add: ParseIP_def parseIPv4_def octet_def is_digit_def decimal_value_def)

lemma sim_createIPVlan:
  "\<exists>slave. createIPVlan sim_host (sim_args p name) ns w = (Returns (Inr slave), w)"
  by (simp add: createIPVlan_def modeFromString_def GetIpVlanMode_def sim_cni_defs go_run rename_and_fetch_def)

lemma sim_Setup:
  fixes w :: "'d \<times> simnet"
  assumes "p \<in> set (net_spaces (snd w))" "reply_addresses reply = Some (ip, gw, ''10.0.0.0/24'')"
  shows "\<exists>result t. IPVlan_Setup sim_host reply (sim_args p name) w = (Returns (Inr result), t) \<and> fst t = fst w \<and>
    net_spaces (snd t) = net_spaces (snd w)"
proof -
  have ns: "GetNS sim_host p w = (Returns (Inr \<lparr>ns_Path = p, ns_Fd = 3\<rparr>), w)"
    using assms(1) by (simp add: sim_host_def)
  have close: "CloseNS sim_host n v = (Returns None, v)" for n v by (simp add: sim_host_def)
  have conf: "\<exists>new. NS_Do sim_host n (\<lambda>_. configure sim_host a r) v =
      (Returns (Inr []), sim_move (net_current (snd v)) (sim_learn new (sim_move (ns_Path n) v)))" for n a r v
    by (simp add: sim_host_def configure_def go_run) blast
  obtain slave where sl: "createIPVlan sim_host (sim_args p name) \<lparr>ns_Path = p, ns_Fd = 3\<rparr> w = (Returns (Inr slave), w)"
    using sim_createIPVlan by blast
  let ?h = "sim_host :: ('d \<times> simnet) Host"
  let ?r = "(ipvlan_result ?h slave ip gw \<lparr>in_IP = [10, 0, 0, 0], in_Mask = [255, 255, 255, 0]\<rparr>)
    \<lparr>rs_Routes := [\<lparr>rt_Dst = \<lparr>in_IP = v4InV6Prefix @ [0, 0, 0, 0], in_Mask = [0, 0, 0, 0]\<rparr>,
        rt_GW = ParseIP (parseIPv6 ?h) gw\<rparr>]\<rparr>"
  obtain new where doit: "NS_Do sim_host \<lparr>ns_Path = p, ns_Fd = 3\<rparr> (\<lambda>_. configure sim_host (sim_args p name) ?r) w =
      (Returns (Inr []), sim_move (net_current (snd w)) (sim_learn new (sim_move p w)))"
    using conf [of "\<lparr>ns_Path = p, ns_Fd = 3\<rparr>" "sim_args p name" ?r w] by auto
  have "cc_NetNS (sim_args p name) = p" by (simp add: sim_args_def)
  then show ?thesis
    by (simp add: IPVlan_Setup_def go_run ns sl assms(2) sim_ParseCIDR with_default_route_always go_defer_def close doit)
qed

theorem setup_result_well_formed_witness:
  "\<exists>result t. IPVlan_Setup sim_host sim_reply (sim_args ''/proc/1/ns/net'' ''db'') ((), sim_net) = (Returns (Inr result), t) \<and>
     valid_result result \<and> map (in_IP \<circ> ipc_Address) (rs_IPs result) = [v4InV6Prefix @ [10, 0, 0, 2]]"
proof -
  obtain result t where r: "IPVlan_Setup sim_host sim_reply (sim_args ''/proc/1/ns/net'' ''db'') ((), sim_net) =
      (Returns (Inr result), t)"
    using sim_Setup [OF _ sim_reply_addresses, of "''/proc/1/ns/net''" "((), sim_net)" "''db''"] by (auto simp: sim_net_def)
  show ?thesis
    using setup_result_well_formed [OF sim_host_laws(2) r]
    by (intro exI [of _ result] exI [of _ t]) (auto simp: r sim_reply_addresses sim_ParseIP)
qed

subsection \<open>Adding a pod\<close>

lemma daemon_client_run:
  "rb_AllocateIP daemon_client ctx r w = (case AllocateIP ctx r (fst w) of (x, s) \<Rightarrow> (x, (s, snd w)))"
  "rb_ReleaseIP daemon_client ctx q w = (case ReleaseIP ctx q (fst w) of (y, s) \<Rightarrow> (y, (s, snd w)))"
  by (simp_all add: daemon_client_def split: prod.split)

text \<open>
  C33. Of the daemon, \<open>doCmdAdd\<close> changes what its call of \<open>AllocateIP\<close> changes and nothing else,
  however it ends. When a plugin fails or panics after the allocation, nothing is undone: the
  resource stays in use and recorded as if the pod had it.
\<close>

theorem add_failure_keeps_allocation:
  assumes "spares_daemon (lib_host lib)"
  shows "fst (snd (doCmdAdd lib ctx daemon_client args w)) = snd (AllocateIP ctx (allocate_request args) (fst w))"
proof -
  obtain x s where a: "AllocateIP ctx (allocate_request args) (fst w) = (x, s)" by fastforce
  have later: "keeps (\<lambda>w. fst w = s) (go_try (\<lambda>e. Errorf ''failed to setup ipvlan device with error'' (Some e))
       (IPVlan_Setup (lib_host lib) reply args) (\<lambda>tmpResult.
     go_try (\<lambda>e. Errorf ''failed to setup ptp veth pair with error'' (Some e))
       (PTP_Setup (lib_host lib) tmpResult args) (\<lambda>result. go_return (Inr result))))" for reply
    using assms by (intro keeps_rules ipvlan.setup_keeps ptp.setup_keeps) blast+
  show ?thesis
  proof (cases x)
    case (Halts h)
    then show ?thesis by (simp add: doCmdAdd_def go_run daemon_client_run a)
  next
    case (Returns r)
    then show ?thesis
      using later unfolding keeps_def
      by (cases r) (simp_all add: doCmdAdd_def go_try_run [of _ "rb_AllocateIP c ctx q" for c q] daemon_client_run a
          del: go_bind_run)
  qed
qed

lemma doCmdAdd_success:
  assumes host: "spares_daemon (lib_host lib)" "closures_run (lib_host lib)" "copies_result (lib_host lib)"
    and ok: "doCmdAdd lib ctx daemon_client args w = (Returns (Inr result), t)"
  obtains reply n u where "AllocateIP ctx (allocate_request args) (fst w) = (Returns (Inr reply), fst t)"
    "IPVlan_Setup (lib_host lib) reply args (fst t, snd w) = (Returns (Inr result), n)"
    "PTP_Setup (lib_host lib) result args n = (Returns (Inr result), u)" "u = t"
proof -
  note fst = add_failure_keeps_allocation [OF host(1), of ctx args w]
  from ok obtain reply w1 tmp w2 r w3 where
    a: "rb_AllocateIP daemon_client ctx (allocate_request args) w = (Returns (Inr reply), w1)"
    and i: "IPVlan_Setup (lib_host lib) reply args w1 = (Returns (Inr tmp), w2)"
    and p: "PTP_Setup (lib_host lib) tmp args w2 = (Returns (Inr r), w3)"
    and ret: "go_return (Inr r :: error + Result) w3 = (Returns (Inr result), t)"
    unfolding doCmdAdd_def by (elim go_try_Inr) (rule that, assumption+)
  have "r = result" "w3 = t" using ret by simp_all
  moreover obtain j route u v where "NewResultFromResult (lib_host lib) tmp = Some r"
      "pod_route r (j :: int) route" "RouteAdd (lib_host lib) route u = (Returns None, v)"
    using PTP_Setup_success [OF host(2) p] by metis
  then have "tmp = r" using host(3) unfolding copies_result_def by metis
  moreover obtain s where s: "AllocateIP ctx (allocate_request args) (fst w) = (Returns (Inr reply), s)" "w1 = (s, snd w)"
    using a by (auto simp: daemon_client_run split: prod.splits)
  moreover have "fst t = s" using fst ok s(1) by simp
  ultimately show ?thesis using that [of reply w2 w3] i p by simp
qed




lemma sim_ptp:
  assumes "p \<in> set (net_spaces (snd w))" "rs_IPs result \<noteq> []"
  shows "\<exists>t. PTP_Setup sim_host result (sim_args p name) w = (Returns (Inr result), t) \<and>
    net_spaces (snd t) = net_spaces (snd w)"
proof -
  obtain c cs where c: "rs_IPs result = c # cs" using assms(2) by (cases "rs_IPs result") auto
  have m: "GetIpVlanMaster sim_conf = ''eth0''" by (simp add: GetIpVlanMaster_def sim_conf_def DefaultIpVlanMaster_def)
  have u: "first_usable [OtherAddr ''fe80'', IPNetAddr sim_node_ip] = Inr sim_node_ip"
    by (simp add: usable_addr_def sim_node_ip_def IsLoopback_def To4_def)
  show ?thesis using assms(1)
    by (simp add: PTP_Setup_def setupContainerVeth_def setupHostVeth_def connect_container_def getLinkIpAddrs_def
        container_routes_def go_run go_defer_def c u sim_host_def sim_args_def split_def del: first_usable.simps)
qed

lemma sim_add:
  assumes name: "name \<in> {''db'', ''web''}"
  shows "\<exists>result t. doCmdAdd sim_lib sim_ctx daemon_client (sim_args ''/proc/1/ns/net'' name) (sim_server sim_pool, sim_net) =
     (Returns (Inr result), t) \<and> net_spaces (snd t) = net_spaces sim_net"
proof -
  let ?args = "sim_args ''/proc/1/ns/net'' name"
  have pod: "ar_K8SPodName (allocate_request ?args) = name" by (simp add: allocate_request_def sim_args_def)
  have items: "\<forall>i \<in> set (queue_items (idle (srv_portManager (sim_server sim_pool)))). \<exists>rid ip. item_res i = PortResource (sample_port rid ip)"
    by (auto simp: sim_pool_simps sample_item_def)
  then have conf: "\<forall>i \<in> set (queue_items (idle (srv_portManager (sim_server sim_pool)))). \<exists>conf. NetConfFromPort (item_res i) = Inr conf"
    using sim_port0_conf by metis
  obtain i reply t where i: "i \<in> set (queue_items (idle (srv_portManager (sim_server sim_pool))))"
    "AllocateIP sim_ctx (allocate_request ?args) (sim_server sim_pool) = (Returns (Inr reply), t)"
    "NetConfFromPort (item_res i) = Inr (ap_NetConfs reply)"
    using sim_allocates_item [OF sim_servers(1) _ _ _ _ conf name pod] by auto
  obtain rid ip where "item_res i = PortResource (sample_port rid ip)" using items i(1) by blast
  then have "reply_addresses reply = Some (ip, ''10.0.0.1'', ''10.0.0.0/24'')"
    using i(3) [symmetric] by (auto simp: NetConfFromPort_def Let_def reply_addresses_def ipv4_def)
  then obtain result v where s: "IPVlan_Setup sim_host reply ?args (t, sim_net) = (Returns (Inr result), v)"
      "net_spaces (snd v) = net_spaces sim_net"
    using sim_Setup [of "''/proc/1/ns/net''" "(t, sim_net)" reply ip "''10.0.0.1''" name] by (auto simp: sim_net_def)
  have "rs_IPs result \<noteq> []" using IPVlan_setup_facts(1) [OF sim_host_laws(2) s(1)] by (simp add: valid_result_def)
  then obtain u where "PTP_Setup sim_host result ?args v = (Returns (Inr result), u)"
      "net_spaces (snd u) = net_spaces sim_net"
    using sim_ptp [of "''/proc/1/ns/net''" v result name] s(2) by (auto simp: sim_net_def)
  with s(1) have "doCmdAdd sim_lib sim_ctx daemon_client ?args (sim_server sim_pool, sim_net) = (Returns (Inr result), u)"
    by (simp add: doCmdAdd_def go_run daemon_client_run i(2)) (simp add: sim_lib_def go_run)
  with \<open>net_spaces (snd u) = net_spaces sim_net\<close> show ?thesis by blast
qed

theorem add_failure_keeps_allocation_witness:
  "\<exists>t. AllocateIP sim_ctx (allocate_request (sim_args ''/gone'' ''web'')) (sim_server sim_pool) = t \<and>
     fst (snd (doCmdAdd sim_lib sim_ctx daemon_client (sim_args ''/gone'' ''web'') (sim_server sim_pool, sim_net))) = snd t"
  using add_failure_keeps_allocation [of sim_lib sim_ctx "sim_args ''/gone'' ''web''" "(sim_server sim_pool, sim_net)"] sim_host_laws(1)
  by (simp add: sim_lib_def)


subsection \<open>Deleting a pod\<close>

text \<open>The connection to the daemon does not touch the daemon's state.\<close>

definition plain_connection :: "('d \<times> 'n) CniLibrary \<Rightarrow> bool" where
  "plain_connection lib \<longleftrightarrow>
     (\<forall>d ctx path. keeps (\<lambda>w. fst w = d) (lib_DialContext lib ctx path)) \<and>
     (\<forall>d. keeps (\<lambda>w. fst w = d) (lib_Close lib))"

lemma getCmdArgs_NetNS:
  "getCmdArgs lib args = Inr a \<Longrightarrow> cc_NetNS a = ca_Netns args \<and> cc_RawArgs a = args \<and> K8sServiceCidr (cc_K8sArgs a) = ''''"
  by (auto simp: getCmdArgs_def getK8sArgs_def split: sum.splits)

lemma release_address_run:
  assumes "lib_DialContext lib ctx DefaultSocketPath w = (Returns None, u)"
  shows "release_address lib ctx a w = go_defer (lib_Close lib)
     (go_bind (rb_ReleaseIP (lib_client lib) ctx (release_request a)) (\<lambda>r. go_return (case r of
         Inl err \<Rightarrow> Some (Errorf ''cmdDel: error release ip'' (Some err))
       | Inr reply \<Rightarrow> None))) u"
  using assms by (simp add: release_address_def getRubbleClient_def go_check_run)

lemma cmdDel_success:
  assumes lib: "spares_daemon (lib_host lib)" "plain_connection lib" "lib_client lib = daemon_client"
    and args: "getCmdArgs lib args = Inr a" and ok: "cmdDel lib ctx args w = (Returns None, t)"
  obtains reply where "ReleaseIP ctx (release_request a) (fst w) = (Returns (Inr reply), fst t)"
proof -
  from ok args have "go_bind (PTP_TearDown (lib_host lib) a) (\<lambda>r. case r of
       Some err \<Rightarrow> go_return (Some (Errorf ''failed to teardown ptp veth with error'' (Some err)))
     | None \<Rightarrow> go_bind (IPVlan_TearDown (lib_host lib) a) (\<lambda>r. case r of
         Some err \<Rightarrow> go_return (Some (Errorf ''failed to teardown ipvlan device with error'' (Some err)))
       | None \<Rightarrow> release_address lib ctx a)) w = (Returns None, t)" by (simp add: cmdDel_def)
  then obtain w1 w2 where td: "PTP_TearDown (lib_host lib) a w = (Returns None, w1)"
      "IPVlan_TearDown (lib_host lib) a w1 = (Returns None, w2)" "release_address lib ctx a w2 = (Returns None, t)"
    by (elim go_check_NoneE)
  have "fst w1 = fst w" by (rule ptp.teardown_view [OF lib(1) td(1)])
  moreover have "fst w2 = fst w1" by (rule ipvlan.teardown_view [OF lib(1) td(2)])
  ultimately have fst: "fst w2 = fst w" by simp
  obtain o1 w3 where o1: "lib_DialContext lib ctx DefaultSocketPath w2 = (o1, w3)" by (metis surj_pair)
  have "o1 = Returns None"
  proof (cases o1)
    case (Halts h)
    then show ?thesis using td(3) o1 by (simp add: release_address_def getRubbleClient_def go_check_run)
  next
    case (Returns r)
    then show ?thesis using td(3) o1
      by (cases r) (simp_all add: release_address_def getRubbleClient_def go_check_run)
  qed
  with o1 have dial: "lib_DialContext lib ctx DefaultSocketPath w2 = (Returns None, w3)" by simp
  note run = td(3) [unfolded release_address_run [OF dial]]
  from run obtain w4 d where body: "go_bind (rb_ReleaseIP (lib_client lib) ctx (release_request a)) (\<lambda>r.
         go_return (case r of
             Inl err \<Rightarrow> Some (Errorf ''cmdDel: error release ip'' (Some err))
           | Inr reply \<Rightarrow> None)) w3 = (Returns None, w4)" and close: "lib_Close lib w4 = (Returns d, t)"
    by (rule go_defer_Returns)
  have conn: "\<forall>d. keeps (\<lambda>v. fst v = d) (lib_DialContext lib ctx DefaultSocketPath)"
    "\<forall>d. keeps (\<lambda>v. fst v = d) (lib_Close lib)"
    using lib(2) unfolding plain_connection_def by blast+
  have eq: "fst w3 = fst w" "fst t = fst w4"
    by (rule trans [OF keeps_fst [OF conn(1) dial] fst], rule keeps_fst [OF conn(2) close])
  obtain o2 s where rel: "ReleaseIP ctx (release_request a) (fst w3) = (o2, s)" by fastforce
  then obtain reply where "o2 = Returns (Inr reply)" "s = fst w4"
    using body lib(3) by (cases o2) (auto simp: daemon_client_run split: sum.splits)
  then show ?thesis using that rel eq by simp
qed

text \<open>
  C7. Adding a pod and deleting it again, when both commands succeed: exactly the ports that
  were in use before are in use again, the pod's port is idle, and its record is gone unless the
  pod keeps its address; no other record has changed.
\<close>

theorem add_then_delete:
  assumes "served_ok issued contents (fst w)" "getCmdArgs lib args = Inr a"
    and "has_pod (srv_k8s (fst w)) (K8sPodNameSpace (cc_K8sArgs a)) (K8sPodName (cc_K8sArgs a)) pod"
    and "spares_daemon (lib_host lib)" "closures_run (lib_host lib)" "copies_result (lib_host lib)"
    and "plain_connection lib" "lib_client lib = daemon_client"
    and "doCmdAdd lib ctx daemon_client a w = (Returns (Inr result), t)"
    and "cmdDel lib ctx' args t = (Returns None, v)"
  shows "\<exists>rid. inuse_ids (srv_portManager (fst t)) = add_mset rid (inuse_ids (srv_portManager (fst w))) \<and>
     inuse_ids (srv_portManager (fst v)) = inuse_ids (srv_portManager (fst w)) \<and>
     rid \<in># idle_ids (srv_portManager (fst v)) \<and> served_ok issued contents (fst v) \<and>
     (\<forall>key. key \<noteq> pod_key pod \<longrightarrow> gmap_get (records (fst v)) key = gmap_get (records (fst w)) key) \<and>
     (pi_IpStickTime (convertPod pod) = 0 \<longrightarrow> gmap_get (records (fst v)) (pod_key pod) = None)"
proof -
  obtain reply n u where add: "AllocateIP ctx (allocate_request a) (fst w) = (Returns (Inr reply), fst t)"
    by (rule doCmdAdd_success [OF assms(4-6,9)])
  obtain rel where del: "ReleaseIP ctx' (release_request a) (fst t) = (Returns (Inr rel), fst v)"
    by (rule cmdDel_success [OF assms(4,7,8,2,10)])
  have pod: "has_pod (srv_k8s (fst w)) (ar_K8SPodNamespace (allocate_request a)) (ar_K8SPodName (allocate_request a)) pod"
    using assms(3) by (simp add: allocate_request_def)
  obtain port x m where port: "served_ok issued contents (fst t)" "srv_k8s (fst t) = srv_k8s (fst w)"
    "records (fst t) = gmap_put (records (fst w)) (pod_key pod) (new_record (convertPod pod) port)"
    "inuse (srv_portManager (fst t)) = gmap_put (inuse (srv_portManager (fst w))) (GetResourceId port) port"
    "port_of (fst w) (GetResourceId port) = None"
    by (rule allocate_facts [OF assms(1) add pod])
  have pod': "has_pod (srv_k8s (fst t)) (rr_K8SPodNamespace (release_request a)) (rr_K8SPodName (release_request a)) pod"
    using assms(3) port(2) by (simp add: release_request_def)
  note rf = release_facts [OF port(1) pod' del]
  have rec: "map ri_ID (pr_Resources (record_of (records (fst t)) (pod_key pod))) = [GetResourceId port]"
    by (simp add: port(3) record_of_def new_record_def)
  have "inuse_ids (srv_portManager (fst t)) = add_mset (GetResourceId port) (inuse_ids (srv_portManager (fst w)))"
    using inuse_ids_put [of "srv_portManager (fst w)" "GetResourceId port"] port(4,5)
      pool_wfD(2) [OF manager_safeD(1) [OF served_okD [OF assms(1)]]]
    by (simp add: set_inuse_ids gmap_get_None_iff inuse_ids_def [of "srv_portManager (fst t)"])
  with rf rec port(3) show ?thesis
    by (intro exI [of _ "GetResourceId port"]) auto
qed

lemma sim_lib_laws:
  "spares_daemon (lib_host sim_lib)" "closures_run (lib_host sim_lib)" "copies_result (lib_host sim_lib)"
  "plain_connection sim_lib" "lib_client sim_lib = daemon_client" "lib_host sim_lib = sim_host"
  using sim_host_laws by (simp_all add: sim_lib_def plain_connection_def keeps_def)

lemma sim_tear_down:
  "p \<in> set (net_spaces (snd w)) \<Longrightarrow> tear_down sim_host p name w = (Returns None, w)"
  by (simp add: tear_down_def del_link_def go_defer_def sim_host_def)

lemma sim_del:
  assumes "''/proc/1/ns/net'' \<in> set (net_spaces (snd w))"
    and "ReleaseIP sim_ctx (release_request (sim_args ''/proc/1/ns/net'' ''db'')) (fst w) = (Returns (Inr reply), s)"
  shows "cmdDel sim_lib sim_ctx (sim_cmd ''/proc/1/ns/net'' ''db'') w = (Returns None, (s, snd w))"
proof -
  have dial: "lib_DialContext sim_lib sim_ctx DefaultSocketPath w = (Returns None, w)"
    and close: "lib_Close sim_lib v = (Returns None, v)" for v by (simp_all add: sim_lib_def)
  have ns: "cc_NetNS (sim_args ''/proc/1/ns/net'' ''db'') = ''/proc/1/ns/net''" by (simp add: sim_args_def)
  show ?thesis using assms
    by (simp add: cmdDel_def sim_getCmdArgs PTP_TearDown_def IPVlan_TearDown_def sim_lib_laws(6) ns sim_tear_down
        release_address_run [OF dial] sim_lib_laws(5) daemon_client_run go_defer_def close)
qed

theorem add_then_delete_witness:
  "\<exists>result t v rid. doCmdAdd sim_lib sim_ctx daemon_client (sim_args ''/proc/1/ns/net'' ''db'') (sim_server sim_pool, sim_net) =
       (Returns (Inr result), t) \<and>
     cmdDel sim_lib sim_ctx (sim_cmd ''/proc/1/ns/net'' ''db'') t = (Returns None, v) \<and>
     inuse_ids (srv_portManager (fst v)) = {#sim_id 0#} \<and> rid \<in># idle_ids (srv_portManager (fst v))"
proof -
  let ?a = "sim_args ''/proc/1/ns/net'' ''db''" and ?w = "(sim_server sim_pool, sim_net)"
  obtain result t where t: "doCmdAdd sim_lib sim_ctx daemon_client ?a ?w = (Returns (Inr result), t)"
    and ns: "net_spaces (snd t) = net_spaces sim_net" using sim_add [of "''db''"] by auto
  obtain reply n u where add: "AllocateIP sim_ctx (allocate_request ?a) (fst ?w) = (Returns (Inr reply), fst t)"
    by (rule doCmdAdd_success [OF sim_lib_laws(1-3) t])
  have name: "K8sPodName (cc_K8sArgs ?a) = ''db''" by (simp add: sim_args_def)
  have ok: "served_ok sim_issued sim_contents (fst ?w)" using sim_servers(1) by simp
  have pod: "has_pod (srv_k8s (fst ?w)) (ar_K8SPodNamespace (allocate_request ?a)) (ar_K8SPodName (allocate_request ?a))
      (sim_kpod ''db'')" using name by (simp add: allocate_request_def)
  obtain port x m where port: "served_ok sim_issued sim_contents (fst t)" "srv_k8s (fst t) = srv_k8s (fst ?w)"
    "records (fst t) = gmap_put (records (fst ?w)) (pod_key (sim_kpod ''db'')) (new_record (convertPod (sim_kpod ''db'')) port)"
    "inuse (srv_portManager (fst t)) = gmap_put (inuse (srv_portManager (fst ?w))) (GetResourceId port) port"
    "locked (srv_portManager (fst t)) = locked (srv_portManager (fst ?w))"
    by (rule allocate_facts [OF ok add pod])
  have pod': "has_pod (srv_k8s (fst t)) (rr_K8SPodNamespace (release_request ?a)) (rr_K8SPodName (release_request ?a))
      (sim_kpod ''db'')" using port(2) name by (simp add: release_request_def)
  have rec: "record_of (records (fst t)) (pod_key (sim_kpod ''db'')) = new_record (convertPod (sim_kpod ''db'')) port"
    and use: "gmap_get (inuse (srv_portManager (fst t))) (GetResourceId port) = Some port"
    by (simp_all add: record_of_def port(3,4))
  obtain rel s where rel: "ReleaseIP sim_ctx (release_request ?a) (fst t) = (Returns (Inr rel), s)"
    by (rule release_sticky [OF port(1) _ pod' sim_sticks sim_requests(3) rec use]) (use port(5) in simp)
  have del: "cmdDel sim_lib sim_ctx (sim_cmd ''/proc/1/ns/net'' ''db'') t = (Returns None, (s, snd t))"
    by (rule sim_del [OF _ rel]) (use ns in \<open>simp add: sim_net_def\<close>)
  have pod'': "has_pod (srv_k8s (fst ?w)) (K8sPodNameSpace (cc_K8sArgs ?a)) (K8sPodName (cc_K8sArgs ?a)) (sim_kpod ''db'')"
    using name by simp
  obtain rid where "inuse_ids (srv_portManager (fst (s, snd t))) = inuse_ids (srv_portManager (fst ?w))"
      "rid \<in># idle_ids (srv_portManager (fst (s, snd t)))"
    using add_then_delete [OF ok sim_getCmdArgs(1) pod'' sim_lib_laws(1-5) t del] by (elim exE conjE) (rule that)
  then show ?thesis using t del by (intro exI [of _ result] exI [of _ t] exI [of _ "(s, snd t)"] exI [of _ rid]) simp
qed

text \<open>
  C21. A pod whose network namespace is gone cannot be deleted: \<open>cmdDel\<close> fails at opening it,
  before it calls the daemon, whatever the error is and however often the command is repeated.
  The pod's address is never released. The drivers mean to tolerate a missing namespace, but
  test for it only after they have opened it.
\<close>

theorem del_without_namespace_keeps_address:
  assumes "spares_daemon (lib_host lib)" "getCmdArgs lib args = Inr a"
    and "GetNS (lib_host lib) (ca_Netns args) w = (Returns (Inl e), t)"
  shows "cmdDel lib ctx args w =
       (Returns (Some (Errorf ''failed to teardown ptp veth with error''
          (Some (Errorf ''failed to open netns'' (Some e))))), t) \<and> fst t = fst w"
proof -
  have ns: "GetNS (lib_host lib) (cc_NetNS a) w = (Returns (Inl e), t)"
    using assms(3) getCmdArgs_NetNS [OF assms(2)] by simp
  show ?thesis using ptp.teardown_of_missing [OF assms(1) ns] assms(2) by (simp add: cmdDel_def)
qed

theorem del_without_namespace_keeps_address_witness:
  "\<exists>err. cmdDel sim_lib sim_ctx (sim_cmd ''/gone'' ''db'') (sim_server sim_pool, sim_net) =
     (Returns (Some err), (sim_server sim_pool, sim_net))"
proof -
  have ns: "GetNS (lib_host sim_lib) (ca_Netns (sim_cmd ''/gone'' ''db'')) (sim_server sim_pool, sim_net) =
      (Returns (Inl (Foreign ''no such path'')), (sim_server sim_pool, sim_net))"
    by (simp add: sim_lib_def sim_host_def sim_cmd_def sim_net_def)
  have lib: "spares_daemon (lib_host sim_lib)" using sim_host_laws(1) by (simp add: sim_lib_def)
  show ?thesis
    using conjunct1 [OF del_without_namespace_keeps_address [OF lib sim_getCmdArgs(1) ns]] by (rule exI)
qed

end
