(* ===== verification/Startup.thy ===== *)
theory Startup
  imports Daemon Net_Devices
begin

section \<open>Starting the daemon\<close>

text \<open>
  The constructors of the Neutron client (\<open>pkg/neutron/client.go\<close>) and of the Kubernetes client
  (\<open>pkg/k8s/k8s.go\<close>), the reading of the configuration and of the node's metadata
  (\<open>pkg/daemon/daemon.go\<close>), their order in \<open>newDaemonServer\<close>, and \<open>Run\<close> with its goroutines
  (\<open>pkg/daemon/server.go\<close>). The libraries called are records of functions on the outside world.
\<close>

subsection \<open>The Neutron client\<close>

record AuthOptions =
  ao_TenantName :: string
  ao_ScopeDomain :: "string option"
  ao_Credentials :: string

text \<open>A provider keeps the options with which its \<open>ReauthFunc\<close> renews the token.\<close>

record ProviderClient =
  prov_Token :: string
  prov_Timeout :: int
  prov_Reauth :: "AuthOptions option"

record 'w OpenStack =
  os_AuthOptionsFromEnv :: "('w, error + AuthOptions) go"
  os_Getenv :: "string \<Rightarrow> ('w, string) go"
  os_AuthenticatedClient :: "AuthOptions \<Rightarrow> ('w, error + ProviderClient) go"
  os_NewNetworkV2 :: "ProviderClient \<Rightarrow> ('w, error + 'w ServiceClient) go"
  os_NewIdentityV3 :: "ProviderClient \<Rightarrow> ('w, error option) go"
  http_Get :: "string \<Rightarrow> ('w, error + string) go"
  http_ReadAll :: "string \<Rightarrow> ('w, error + string) go"
  http_Close :: "string \<Rightarrow> ('w, error option) go"

definition MetaDataURL :: string where
  "MetaDataURL = ''http://169.254.169.254/openstack/latest/meta_data.json''"

definition newProviderClientOrDie :: "'w OpenStack \<Rightarrow> bool \<Rightarrow> ('w, error + ProviderClient) go" where
  "newProviderClientOrDie lib domainScope =
     go_try (\<lambda>e. e) (os_AuthOptionsFromEnv lib) (\<lambda>opt.
     go_bind (if domainScope
              then go_bind (os_Getenv lib ''OS_DOMAIN_NAME'') (\<lambda>d.
                go_return (opt\<lparr>ao_TenantName := '''', ao_ScopeDomain := Some d\<rparr>))
              else go_return opt) (\<lambda>opt.
     go_try (\<lambda>e. e) (os_AuthenticatedClient lib opt) (\<lambda>p.
     go_return (Inr (p\<lparr>prov_Timeout := 60 * 1000000000, prov_Reauth := Some opt\<rparr>)))))"

text \<open>The \<open>ReauthFunc\<close> set above: a new provider with the same options, of which it takes the token.\<close>

definition reauthenticate :: "'w OpenStack \<Rightarrow> ProviderClient \<Rightarrow> ('w, error + ProviderClient) go" where
  "reauthenticate lib p =
     go_bind (go_deref (prov_Reauth p)) (\<lambda>opt.
     go_try (\<lambda>e. e) (os_AuthenticatedClient lib opt) (\<lambda>newprov.
     go_return (Inr (p\<lparr>prov_Token := prov_Token newprov\<rparr>))))"

definition newNetworkV2ClientOrDie :: "'w OpenStack \<Rightarrow> ProviderClient \<Rightarrow> ('w, error + 'w ServiceClient) go" where
  "newNetworkV2ClientOrDie lib p = go_try (\<lambda>e. e) (os_NewNetworkV2 lib p) (\<lambda>cli. go_return (Inr cli))"

definition newIdentityV3ClientOrDie :: "'w OpenStack \<Rightarrow> ProviderClient \<Rightarrow> ('w, error + unit) go" where
  "newIdentityV3ClientOrDie lib p = go_check (\<lambda>e. e) (os_NewIdentityV3 lib p) (go_return (Inr ()))"

definition NewClient :: "'w OpenStack \<Rightarrow> ('w, error + 'w Client) go" where
  "NewClient lib =
     go_try (\<lambda>e. e) (newProviderClientOrDie lib False) (\<lambda>provider.
     go_try (\<lambda>e. e) (newProviderClientOrDie lib True) (\<lambda>domainTokenProvider.
     go_try (\<lambda>e. e) (newNetworkV2ClientOrDie lib provider) (\<lambda>netV2.
     go_try (\<lambda>e. e) (newIdentityV3ClientOrDie lib domainTokenProvider) (\<lambda>_.
     go_return (Inr \<lparr>networkCliV2 = netV2, podsDeleteLock = False, portIDs = []\<rparr>)))))"

definition GetVMMetadata :: "'w OpenStack \<Rightarrow> ('w, error + string) go" where
  "GetVMMetadata lib =
     go_try (\<lambda>e. e) (http_Get lib MetaDataURL) (\<lambda>resp.
     go_defer (http_Close lib resp) (
     go_try (\<lambda>e. e) (http_ReadAll lib resp) (\<lambda>body. go_return (Inr body))))"

subsection \<open>The Kubernetes client\<close>

record KubeConfig =
  kc_Host :: string
  kc_QPS :: int
  kc_Burst :: int

record 'w KubeLibrary =
  kl_InClusterConfig :: "('w, error + KubeConfig) go"
  kl_BuildConfigFromFlags :: "string \<Rightarrow> string \<Rightarrow> ('w, error + KubeConfig) go"
  kl_NewForConfig :: "KubeConfig \<Rightarrow> ('w, error + 'w KubeClient) go"

text \<open>\<open>Fatalf\<close> ends the process, so the \<open>return\<close> after it is never reached.\<close>

definition initKubeClient :: "'w KubeLibrary \<Rightarrow> string \<Rightarrow> ('w, error + 'w KubeClient) go" where
  "initKubeClient lib kubeConf =
     go_try (\<lambda>e. e)
       (if kubeConf = '''' then kl_InClusterConfig lib else kl_BuildConfigFromFlags lib '''' kubeConf) (\<lambda>config.
     go_bind (kl_NewForConfig lib (config\<lparr>kc_QPS := 1000, kc_Burst := 2000\<rparr>)) (\<lambda>r.
     case r of Inl err \<Rightarrow> go_halt Panicked | Inr client \<Rightarrow> go_return (Inr client)))"

definition NewK8s :: "'w KubeLibrary \<Rightarrow> string \<Rightarrow> string \<Rightarrow> ('w, error + 'w K8s) go" where
  "NewK8s lib conf nodeName =
     go_try (\<lambda>e. Errorf ''failed to create neutron client with error'' (Some e)) (initKubeClient lib conf) (\<lambda>client.
     go_return (Inr \<lparr>k8s_client = client, k8s_nodeName = nodeName\<rparr>))"

subsection \<open>Configuration and node\<close>

record 'w FileSystem =
  fs_Open :: "string \<Rightarrow> ('w, error + string) go"
  fs_ReadAll :: "string \<Rightarrow> ('w, error + string) go"
  fs_MkdirAll :: "string \<Rightarrow> ('w, error option) go"
  fs_Unlink :: "string \<Rightarrow> ('w, error option) go"
  fs_IsNotExist :: "error \<Rightarrow> bool"
  fs_Dir :: "string \<Rightarrow> string"

definition getConfigFromPath :: "'w FileSystem \<Rightarrow> (string \<Rightarrow> error + DaemonConfigure) \<Rightarrow> string \<Rightarrow>
    ('w, error + DaemonConfigure) go" where
  "getConfigFromPath fs unmarshal path =
     go_try (\<lambda>e. Errorf ''failed open config file'' (Some e)) (fs_Open fs path) (\<lambda>f.
     go_try (\<lambda>e. Errorf ''failed read file'' (Some e)) (fs_ReadAll fs f) (\<lambda>data.
     go_return (case unmarshal data of
         Inl err \<Rightarrow> Inl (Errorf ''failed parse config'' (Some err))
       | Inr config \<Rightarrow> Inr config)))"

definition jsonDeserializer :: "(string \<Rightarrow> error + PodResources) \<Rightarrow> string \<Rightarrow> error + PodResources" where
  "jsonDeserializer unmarshal bytes =
     (case unmarshal bytes of
        Inl err \<Rightarrow> Inl (Errorf ''error unmarshal pod relate resource'' (Some err))
      | Inr resourceRel \<Rightarrow> Inr resourceRel)"

definition ReadFile :: "'w FileSystem \<Rightarrow> string \<Rightarrow> ('w, string option) go" where
  "ReadFile fs path =
     go_bind (go_try (\<lambda>e. e) (fs_Open fs path) (fs_ReadAll fs)) (\<lambda>r.
     go_return (case r of Inl err \<Rightarrow> None | Inr data \<Rightarrow> Some data))"

text \<open>\<open>getNodeInfo\<close> with the reads it makes, in their order.\<close>

definition read_node_info :: "'w FileSystem \<Rightarrow> 'w OpenStack \<Rightarrow> (string \<Rightarrow> error + NodeInfo) \<Rightarrow>
    ('w, error + NodeInfo) go" where
  "read_node_info fs lib unmarshal =
     go_bind (ReadFile fs ''/proc/self/status'') (\<lambda>status.
     go_bind (if status = None then go_return None else ReadFile fs ''/proc/cpuinfo'') (\<lambda>cpuinfo.
     if \<not> IfRuningOnVM status cpuinfo then go_return (getNodeInfo False (Inr '''') unmarshal)
     else go_bind (GetVMMetadata lib) (\<lambda>data. go_return (getNodeInfo True data unmarshal))))"

text \<open>
  \<open>newDaemonServer\<close> with its constructors called in the order of the source. Everything after the
  database is open is \<open>Daemon.newDaemonServer\<close>, which is given what the constructors returned.
\<close>

definition start_server ::
    "'w OpenStack \<Rightarrow> 'w KubeLibrary \<Rightarrow> 'w FileSystem \<Rightarrow> (string \<Rightarrow> error + DaemonConfigure) \<Rightarrow>
     (string \<Rightarrow> error + NodeInfo) \<Rightarrow> ('w, error + 's) go \<Rightarrow> ('s, PodResources) Storage \<Rightarrow> string \<Rightarrow>
     (string \<Rightarrow> bool) \<Rightarrow> int stream \<Rightarrow> nat stream \<Rightarrow> ('w, error + ('w, 's) daemonServer) go" where
  "start_server lib kube fs unmarshal unmarshal_node open_db db kubeConfig ParseIP_ok clk rnd =
     go_try (\<lambda>e. Errorf ''failed to create neutron client'' (Some e)) (NewClient lib) (\<lambda>neutronService.
     go_try (\<lambda>e. Errorf ''failed read config file'' (Some e))
       (getConfigFromPath fs unmarshal DefaultDeamonConfigPath) (\<lambda>config.
     go_try (\<lambda>e. Errorf ''failed get node info'' (Some e)) (read_node_info fs lib unmarshal_node) (\<lambda>info.
     go_try (\<lambda>e. Errorf ''failed to init k8s client'' (Some e))
       (NewK8s kube kubeConfig (if length (node_Name info) = 0 then dc_NodeName config else node_Name info)) (\<lambda>k8s.
     go_try (\<lambda>e. Errorf ''error init resource manager storage'' (Some e)) open_db (\<lambda>s.
     (\<lambda>w. (newDaemonServer (Inr neutronService) (Inr config) (Inr info) (Inr (k8s_client k8s)) (Inr s) db
             ParseIP_ok clk rnd w, w)))))))"

subsection \<open>Run\<close>

text \<open>
  The beginning of \<open>Run\<close>, up to the point where its goroutines are running: the directory of
  the socket, a socket left over from an earlier run, the listener, the server.
\<close>

definition Run_start :: "'w FileSystem \<Rightarrow> (string \<Rightarrow> ('w, error option) go) \<Rightarrow> ('w, error + 'd) go \<Rightarrow> string \<Rightarrow>
    ('w, error + 'd) go" where
  "Run_start fs listen new_server socketFilePath =
     go_check (\<lambda>e. e) (fs_MkdirAll fs (fs_Dir fs socketFilePath)) (
     go_bind (fs_Unlink fs socketFilePath) (\<lambda>r.
     case r of
       Some err \<Rightarrow> if \<not> fs_IsNotExist fs err then go_return (Inl err)
         else go_check (\<lambda>e. Errorf ''error listen'' (Some e)) (listen socketFilePath) new_server
     | None \<Rightarrow> go_check (\<lambda>e. Errorf ''error listen'' (Some e)) (listen socketFilePath) new_server))"

text \<open>
  The rest of \<open>Run\<close> as three goroutines: one waits for a signal and then sends on the unbuffered
  channel \<open>stop\<close>, one serves, and the method itself receives from \<open>stop\<close> and stops the server.
  A send and its receive are one step. A server that fails ends the process in \<open>Fatalf\<close>, before
  its send; a server that is stopped returns without an error.
\<close>

datatype watcher = WaitSignal | SendStop | WatcherDone
datatype server = Serving | ServerDone
datatype main = WaitStop | Stopping | Returned

record run =
  run_watcher :: watcher
  run_server :: server
  run_main :: main
  run_exited :: bool
  run_signalled :: bool

definition run_begin :: run where
  "run_begin = \<lparr>run_watcher = WaitSignal, run_server = Serving, run_main = WaitStop,
     run_exited = False, run_signalled = False\<rparr>"

inductive run_step :: "run \<Rightarrow> run \<Rightarrow> bool" where
  signalled: "\<not> run_exited r \<Longrightarrow> run_watcher r = WaitSignal \<Longrightarrow>
     run_step r (r\<lparr>run_watcher := SendStop, run_signalled := True\<rparr>)"
| stop: "\<not> run_exited r \<Longrightarrow> run_watcher r = SendStop \<Longrightarrow> run_main r = WaitStop \<Longrightarrow>
     run_step r (r\<lparr>run_watcher := WatcherDone, run_main := Stopping\<rparr>)"
| graceful: "\<not> run_exited r \<Longrightarrow> run_main r = Stopping \<Longrightarrow>
     run_step r (r\<lparr>run_server := ServerDone, run_main := Returned\<rparr>)"
| serve_failed: "\<not> run_exited r \<Longrightarrow> run_server r = Serving \<Longrightarrow>
     run_step r (r\<lparr>run_exited := True\<rparr>)"

inductive_cases run_stepE: "run_step r s"

subsection \<open>Laws\<close>

text \<open>\<open>Run\<close> returns only after a signal, and then the server no longer serves.\<close>

definition run_ok :: "run \<Rightarrow> bool" where
  "run_ok r \<longleftrightarrow> (run_watcher r \<noteq> WaitSignal \<longleftrightarrow> run_signalled r) \<and>
     (run_main r \<noteq> WaitStop \<longleftrightarrow> run_watcher r = WatcherDone) \<and>
     (run_main r = Returned \<longleftrightarrow> run_server r = ServerDone)"

lemma run_step_ok: "run_step r s \<Longrightarrow> run_ok r \<Longrightarrow> run_ok s"
  by (auto simp: run_ok_def elim!: run_stepE)

lemma run_reachable_ok: "run_step\<^sup>*\<^sup>* run_begin r \<Longrightarrow> run_ok r"
proof (induction rule: rtranclp_induct)
  case base
  then show ?case by (simp add: run_ok_def run_begin_def)
next
  case (step r s)
  then show ?case using run_step_ok by blast
qed

text \<open>After a signal the method can always return, unless the process has ended.\<close>

lemma run_returns:
  assumes "run_ok r" "\<not> run_exited r" "run_signalled r"
  shows "\<exists>s. run_step\<^sup>*\<^sup>* r s \<and> run_main s = Returned"
proof -
  have g: "\<exists>s. run_step q s \<and> run_main s = Returned" if "\<not> run_exited q" "run_main q = Stopping" for q
    using run_step.graceful [OF that] by fastforce
  show ?thesis
  proof (cases "run_main r")
    case WaitStop
    show ?thesis
    proof (cases "run_watcher r")
      case SendStop
      from run_step.stop [OF assms(2) this WaitStop] obtain s where s: "run_step r s" "\<not> run_exited s" "run_main s = Stopping"
        using assms(2) by fastforce
      then show ?thesis using g [OF s(2,3)] by (meson r_into_rtranclp rtranclp.rtrancl_into_rtrancl)
    qed (use assms WaitStop in \<open>auto simp: run_ok_def\<close>)
  next
    case Stopping
    then show ?thesis using g [OF assms(2)] by blast
  qed blast
qed

text \<open>A provider renews its token with the options it was made with; the domain's ask for no project.\<close>

lemma provider_scope:
  assumes "newProviderClientOrDie lib domainScope w = (Returns (Inr p), t)"
  obtains opt where "prov_Reauth p = Some opt" "prov_Timeout p = 60000000000"
    "domainScope \<Longrightarrow> ao_TenantName opt = '''' \<and> ao_ScopeDomain opt \<noteq> None"
  using assms unfolding newProviderClientOrDie_def
  by (cases domainScope) (auto elim!: go_try_Inr split: prod.splits outcome.splits)

end
