(* ===== verification/Logging.thy ===== *)
theory Logging
  imports Go_Strings "HOL-Library.Char_ord" "HOL-Library.List_Lexorder" "HOL-Library.Multiset"
begin

section \<open>Log lines (pkg/log/log.go)\<close>

text \<open>
  The formatter of the log lines: level, time, place, fields in the order of their names, and the
  message. The fields of an entry are a Go map, here an association list in the order in which a
  \<open>range\<close> visits it; their values are given as the text that \<open>%v\<close> prints for them.
\<close>

record LogTime =
  lt_Month :: nat
  lt_Day :: nat
  lt_Hour :: nat
  lt_Minute :: nat
  lt_Second :: nat
  lt_Micro :: nat

record Entry =
  en_Buffer :: "string option"
  en_Caller :: "(string \<times> nat) option"
  en_Level :: string
  en_Time :: LogTime
  en_Data :: "(string \<times> string) list"
  en_Message :: string

subsection \<open>Numbers and times\<close>

definition digit :: "nat \<Rightarrow> char" where
  "digit n = char_of (48 + n mod 10)"

fun decimal :: "nat \<Rightarrow> string" where
  "decimal n = (if n < 10 then [digit n] else decimal (n div 10) @ [digit n])"

declare decimal.simps [simp del]

fun padded :: "nat \<Rightarrow> nat \<Rightarrow> string" where
  "padded 0 n = []"
| "padded (Suc w) n = padded w (n div 10) @ [digit n]"

text \<open>The fraction of \<open>.999999\<close>: six digits without trailing zeros, and no point if none is left.\<close>

definition fraction :: "nat \<Rightarrow> string" where
  "fraction micro =
     (let ds = rev (dropWhile (\<lambda>c. c = CHR ''0'') (rev (padded 6 micro)))
      in if ds = [] then [] else CHR ''.'' # ds)"

definition time_stamp :: "LogTime \<Rightarrow> string" where
  "time_stamp t =
     padded 2 (lt_Month t) @ padded 2 (lt_Day t) @ '' '' @
     padded 2 (lt_Hour t) @ '':'' @ padded 2 (lt_Minute t) @ '':'' @ padded 2 (lt_Second t) @ fraction (lt_Micro t)"

subsection \<open>The formatter\<close>

definition upper_char :: "char \<Rightarrow> char" where
  "upper_char c = (if 97 \<le> (of_char c :: nat) \<and> (of_char c :: nat) \<le> 122 then char_of (of_char c - 32 :: nat) else c)"

text \<open>\<open>sort.Strings\<close> compares byte by byte, which is the lexicographic order of the library.\<close>

definition kv :: "(string \<times> string) list \<Rightarrow> string" where
  "kv data =
     (if data = [] then ''''
      else Join (CHR '' '') (map (\<lambda>key. key @ ''='' @ the (map_of data key)) (sort (map fst data))))"

text \<open>\<open>path.Base\<close>: what follows the last slash; a path of slashes only is a slash, an empty one a dot.\<close>

definition Base :: "string \<Rightarrow> string" where
  "Base path =
     (if path = '''' then ''.''
      else let trimmed = rev (dropWhile (\<lambda>c. c = CHR ''/'') (rev path))
           in if trimmed = [] then ''/'' else last (Split (CHR ''/'') trimmed))"

definition Format :: "Entry \<Rightarrow> string" where
  "Format entry =
     (case en_Buffer entry of None \<Rightarrow> '''' | Some b \<Rightarrow> b) @
     map upper_char (take 1 (en_Level entry)) @ time_stamp (en_Time entry) @ '' '' @
     (case en_Caller entry of None \<Rightarrow> '''' | Some (f, line) \<Rightarrow> Base f @ '':'' @ decimal line) @ '']'' @
     (let r = kv (en_Data entry) in if 0 < length r then '' '' @ r else '''') @
     '' '' @ en_Message entry @ ''\<newline>''"

text \<open>
  The logger of all packages. Loggers are those of the library logrus, with the methods that set
  them up as functions.
\<close>

record 'l LogLibrary =
  lg_New :: 'l
  lg_SetReportCaller :: "bool \<Rightarrow> 'l \<Rightarrow> 'l"
  lg_SetLevel :: "string \<Rightarrow> 'l \<Rightarrow> 'l"
  lg_SetFormatter :: "(Entry \<Rightarrow> string) \<Rightarrow> 'l \<Rightarrow> 'l"

definition NewDefaultLogger :: "'l LogLibrary \<Rightarrow> 'l" where
  "NewDefaultLogger lib =
     lg_SetFormatter lib Format (lg_SetLevel lib ''info'' (lg_SetReportCaller lib True (lg_New lib)))"

subsection \<open>Laws\<close>

text \<open>
  A line does not depend on the order in which the map is visited: there is only one sorted list
  of its keys, and each key appears with its value.
\<close>

lemma sort_keys_perm:
  assumes "distinct ks" "distinct ls" "set ks = set ls"
  shows "sort ks = sort (ls :: string list)"
proof (rule properties_for_sort)
  have "mset ks = mset ls" using assms by (simp add: set_eq_iff_mset_eq_distinct)
  then show "mset (sort ls) = mset ks" by simp
qed simp

lemma kv_order_irrelevant:
  assumes "distinct (map fst d)" "distinct (map fst e)" "set d = set e"
  shows "kv d = kv e"
proof -
  have "map_of d = map_of e" using assms map_of_eqI by (metis eq_key_imp_eq_value ext list.set_map map_of_SomeD map_of_eq_None_iff not_Some_eq weak_map_of_SomeI)
  moreover have "sort (map fst d) = sort (map fst e)"
    using sort_keys_perm [OF assms(1,2)] assms(3) by simp
  ultimately show ?thesis using assms(3) by (auto simp: kv_def)
qed

end
