(* ===== verification/Daemon_Main.thy ===== *)
theory Daemon_Main
  imports Startup Logging
begin

section \<open>The daemon's executable (cmd/cni-daemon/rubble-daemon.go)\<close>

text \<open>
  \<open>main\<close> of the daemon: its command line flags, as package \<open>flag\<close> parses them, and the call of \<open>Run\<close>.
  All flags are strings and the flag set is made with \<open>ExitOnError\<close>, so that a wrong command
  line ends the process with status 2, and a request for help with status 0.
\<close>

subsection \<open>Flags\<close>

datatype parsed = Parsed "(string, string) gmap" | Exits nat

text \<open>A flag is a name, or a name and a value behind the first equals sign.\<close>

definition split_flag :: "string \<Rightarrow> string \<times> string option" where
  "split_flag name =
     (takeWhile (\<lambda>c. c \<noteq> CHR ''='') name,
      case dropWhile (\<lambda>c. c \<noteq> CHR ''='') name of [] \<Rightarrow> None | c # value \<Rightarrow> Some value)"

text \<open>
  One argument after the other: parsing ends at the first that is not a flag, or after two
  dashes alone. One or two dashes introduce a flag; without an equals sign the next argument is
  its value.
\<close>

fun parse_flags :: "(string, string) gmap \<Rightarrow> string list \<Rightarrow> parsed" where
  "parse_flags fs [] = Parsed fs"
| "parse_flags fs (s # args) =
     (if length s < 2 \<or> hd s \<noteq> CHR ''-'' \<or> s = ''--'' then Parsed fs
      else
        let name = (if s ! 1 = CHR ''-'' then drop 2 s else drop 1 s) in
        if name = '''' \<or> hd name = CHR ''-'' \<or> hd name = CHR ''='' then Exits 2
        else
          (case split_flag name of
             (n, value) \<Rightarrow>
               (case gmap_get fs n of
                  None \<Rightarrow> Exits (if n = ''help'' \<or> n = ''h'' then 0 else 2)
                | Some old \<Rightarrow>
                    (case value of
                       Some v \<Rightarrow> parse_flags (gmap_put fs n v) args
                     | None \<Rightarrow>
                         (case args of
                            [] \<Rightarrow> Exits 2
                          | v # rest \<Rightarrow> parse_flags (gmap_put fs n v) rest)))))"

definition flag_value :: "(string, string) gmap \<Rightarrow> string \<Rightarrow> string" where
  "flag_value fs n = (case gmap_get fs n of None \<Rightarrow> '''' | Some v \<Rightarrow> v)"

subsection \<open>main\<close>

definition daemon_flags :: "(string, string) gmap" where
  "daemon_flags =
     [(''daemon-mode'', ''vpc''), (''log-level'', ''info''), (''kube-config'', ''''), (''openstack-config'', ''''),
      (''neutron-network'', ''share_net''), (''neutron-subnet'', ''share_net__subnet'')]"

text \<open>
  \<open>Run\<close> from its first to its last statement: \<open>Run_start\<close>, and then \<open>serve\<close>, which stands for the
  goroutines of \<open>run_step\<close> up to the point where the method returns nil. The last three of its
  arguments reach the server's fields only, which nothing reads.
\<close>

definition Run :: "'w FileSystem \<Rightarrow> (string \<Rightarrow> ('w, error option) go) \<Rightarrow> (string \<Rightarrow> ('w, error + 'd) go) \<Rightarrow>
    ('d \<Rightarrow> ('w, unit) go) \<Rightarrow> string \<Rightarrow> string \<Rightarrow> string \<Rightarrow> string \<Rightarrow> string \<Rightarrow> ('w, error option) go" where
  "Run fs listen new_server serve socketFilePath kubeConfig openstackConfig neutronNet neutronSubnet =
     go_bind (Run_start fs listen (new_server kubeConfig) socketFilePath) (\<lambda>r.
     case r of
       Inl err \<Rightarrow> go_return (Some err)
     | Inr rubble \<Rightarrow> go_seq (serve rubble) (go_return None))"

text \<open>The value of \<open>main\<close> is the exit status of the process; \<open>Fatal\<close> ends it with status 1.\<close>

definition daemon_main ::
    "(string \<Rightarrow> string \<Rightarrow> string \<Rightarrow> string \<Rightarrow> string \<Rightarrow> ('w, error option) go) \<Rightarrow> string list \<Rightarrow> ('w, nat) go" where
  "daemon_main run args =
     (case args of
        [] \<Rightarrow> go_halt Panicked
      | prog # rest \<Rightarrow>
          (case parse_flags daemon_flags rest of
             Exits status \<Rightarrow> go_return status
           | Parsed fs \<Rightarrow>
               go_bind (run DefaultSocketPath (flag_value fs ''kube-config'') (flag_value fs ''openstack-config'')
                 (flag_value fs ''neutron-network'') (flag_value fs ''neutron-subnet'')) (\<lambda>err.
               go_return (case err of Some e \<Rightarrow> 1 | None \<Rightarrow> 0))))"

subsection \<open>Laws\<close>

text \<open>Parsing neither adds nor loses a flag, so that every value \<open>main\<close> reads is there.\<close>

lemma parse_flags_keys: "parse_flags fs args = Parsed gs \<Longrightarrow> gmap_keys gs = gmap_keys fs"
proof (induction "length args" arbitrary: fs args rule: less_induct)
  case less
  have put: "gmap_keys gs = gmap_keys fs"
    if "parse_flags (gmap_put fs n v) more = Parsed gs" "gmap_get fs n = Some old" "length more < length args" for n v more old
    using less.hyps [OF that(3,1)] gmap_get_Some_key [OF that(2)] by auto
  show ?case
  proof (cases args)
    case (Cons s more)
    then show ?thesis
      using less.prems by (auto simp: Let_def split: if_splits prod.splits option.splits list.splits dest: put)
  qed (use less.prems in simp)
qed

text \<open>A flag given as \<open>--name=value\<close> has this value.\<close>

lemma parse_flag_given:
  assumes "gmap_get fs n = Some old" "n \<noteq> ''''" "hd n \<noteq> CHR ''-''" "CHR ''='' \<notin> set n"
  shows "parse_flags fs ((''--'' @ n @ ''='' @ v) # args) = parse_flags (gmap_put fs n v) args"
proof -
  have "split_flag (n @ ''='' @ v) = (n, Some v)" using assms(4) by (induction n) (auto simp: split_flag_def)
  moreover have "hd n \<noteq> CHR ''=''" using assms(2,4) by (cases n) auto
  ultimately show ?thesis using assms by simp
qed

text \<open>Of all its flags the daemon heeds the path of the Kubernetes configuration only.\<close>

lemma daemon_heeds_kube_config:
  assumes "parse_flags daemon_flags a = Parsed fs" "parse_flags daemon_flags b = Parsed gs"
    and "flag_value fs ''kube-config'' = flag_value gs ''kube-config''"
  shows "daemon_main (Run fl listen new_server serve) (prog # a) = daemon_main (Run fl listen new_server serve) (prog # b)"
  using assms by (simp add: daemon_main_def Run_def)

end
