(* ===== verification/Spec2Isabelle.thy ===== *)
theory Spec2Isabelle
  imports Queue_Properties Pool_Properties Concurrency_Properties Ipam_Properties Storage_Properties Daemon_Properties
    Handler_Progress Cni_Properties Startup Logging Daemon_Main
begin

text \<open>
  \<^bold>\<open>Verification of rubble\<close>, a CNI network plugin for Kubernetes on OpenStack (Go, under src/).

  \<^bold>\<open>The program.\<close> The container runtime calls the plugin \<open>cmd/cni/rubble.go\<close> to add a pod to the
  network and to remove it. The plugin asks a daemon on the same node for an address over gRPC
  and lets two drivers (\<open>pkg/plugin\<close>) create the pod's devices. The daemon (\<open>pkg/daemon\<close>) looks
  the pod up at the API server (\<open>pkg/k8s\<close>), takes a port from a pool of Neutron ports
  (\<open>pkg/ipam\<close>, \<open>pkg/pool\<close>), and records in a database (\<open>pkg/storage\<close>) which pod has which port.
  The pool creates and deletes ports through the Neutron client (\<open>pkg/neutron\<close>) so that some are
  always idle and never more than a capacity exist; a background goroutine trims and refills it.

  \<^bold>\<open>How the code is modelled.\<close> A function of the program is a state-passing function \<open>('s, 'a) go\<close>
  (theory \<open>Prelude\<close>): it returns a value, panics, blocks forever, or has run out of the fuel that
  bounds a loop, and leaves a state. Errors are values of the datatype \<open>error\<close>, kept with what
  they wrap. Structs are records, mutexes and channels are fields of the state, pointers that may
  be nil and lookups that may fail are options, Go maps are association lists with one entry per
  key. Go's \<open>int\<close> is unbounded here: all numbers are sizes, capacities and times that stay far below
  its range. Libraries and the services behind them are records of functions on a state of the
  outside world, passed as arguments; what is assumed of them is named where it is used
  (\<open>neutron_ok\<close>, \<open>kube_ok\<close>, \<open>disk_ok\<close>, \<open>deletes_work\<close>, \<open>takes_record\<close>, \<open>no_sticky_pods\<close>, \<open>host_keeps\<close>,
  \<open>closures_run\<close>, \<open>net_laws\<close>, \<open>copies_result\<close>, \<open>plain_connection\<close>), and a simulation of each in the witnesses
  shows that it can hold. Log statements are left out, except where evaluating their arguments
  can panic.

  \<^bold>\<open>The theories.\<close>
  \<^item> \<open>Prelude\<close>: outcomes, sequencing, maps. \<open>Go_Strings\<close>, \<open>Net_Addresses\<close>: what is used of the
    packages \<open>strings\<close> and \<open>net\<close>. \<open>Resources\<close>: ports and resources. \<open>Utils\<close>: \<open>pkg/utils\<close>.
    \<open>Rpc\<close>: the messages. \<open>Logging\<close>: \<open>pkg/log\<close>, with the lemma that a line does not depend on the
    order of a map.
  \<^item> \<open>Heap_Lists\<close>, \<open>Pool_Queue\<close>, \<open>Queue_Laws\<close>, \<open>Queue_Properties\<close>: \<open>pkg/pool/queue.go\<close>. Both
    queues with their slots, as instances of the interfaces \<open>item_queue\<close> and \<open>due_queue\<close>; the
    priority queue sorts, \<open>Rob\<close> takes exactly what it was asked for, and keeps the order exactly
    when the last item is not due before the parent of the gap.
  \<^item> \<open>Object_Pool\<close> (\<open>pkg/pool/pool.go\<close>), \<open>Pool_Runs\<close>, \<open>Pool_Laws\<close>, \<open>Pool_Account\<close>,
    \<open>Pool_Background\<close>, \<open>Pool_Calls\<close>: every method as one piece. The factory is the interface
    \<open>object_factory\<close>: whatever a call does, its own invariant survives, and what \<open>Create\<close> returns
    has a new id. From it: no resource is held twice, tokens and resources add up to the capacity.
    \<open>checkIdle\<close> and \<open>preload\<close> are loops with fuel; one round per idle resource, and \<open>minIdle\<close> rounds
    and one more, are proved to be enough.
  \<^item> \<open>Pool_Concurrency\<close>, \<open>Concurrency_Properties\<close>: the same methods as goroutines that
    interleave, a step per critical section, channel operation or factory call (\<open>gstep\<close>,
    \<open>pool_step\<close>). The invariant survives every interleaving; a race can leave the mutex locked
    forever; a call that waits for a token is not woken by a release; a goroutine that runs alone
    computes what the method computes. A panic stops only the goroutine in this model, which allows
    more than the program does. A call of the factory, in the code several API calls around the
    factory's mutex, is one step.
  \<^item> \<open>Neutron\<close>, \<open>Neutron_Laws\<close> (\<open>pkg/neutron\<close>); \<open>Port_Factory\<close>, \<open>Port_Manager\<close>,
    \<open>Manager_Laws\<close>, \<open>Static_Laws\<close>, \<open>Ipam_Properties\<close> (\<open>pkg/ipam\<close>); \<open>Pool_Properties\<close>, which states
    the pool's properties for its real factory; \<open>Samples\<close>, a simulated port service.
  \<^item> \<open>Storage\<close>, \<open>Storage_Properties\<close> (\<open>pkg/storage\<close>): both storages are instances of the interface
    \<open>kv_storage\<close> and refine a finite map.
  \<^item> \<open>K8s\<close> (\<open>pkg/k8s\<close>), \<open>Daemon\<close>, \<open>Daemon_Laws\<close>, \<open>Daemon_Properties\<close> (\<open>pkg/daemon/daemon.go\<close>):
    the handlers, over any storage with the contract (\<open>daemon_storage\<close>), then over the disk
    storage. \<open>Startup\<close>: the constructors of the clients, the order in which the daemon calls them,
    and \<open>Run\<close> of \<open>pkg/daemon/server.go\<close> as a step relation; \<open>Daemon_Main\<close>: its command line and \<open>main\<close>.
  \<^item> \<open>Daemon_Concurrency\<close>, \<open>Daemon_Claims\<close>, \<open>Daemon_Alone\<close>, \<open>Handler_Properties\<close>,
    \<open>Handler_Progress\<close>: the same handlers as gRPC runs them, many at a time. A handler is at a
    point of its method (\<open>handler\<close>), and a step (\<open>hstep\<close>) is one call to the outside, one transaction of the database, one access to its
    memory, one critical section of the pool or one step of the pool's goroutines; in between
    others move, requests arrive and connections end (\<open>daemon_step\<close>). \<open>Daemon_Concurrency\<close> shows that every
    interleaving keeps what the pool holds, \<open>Daemon_Claims\<close> that records and ports stay in step as
    long as a pod has one request at a time (\<open>serial_step\<close>), \<open>Daemon_Alone\<close> that a handler alone
    computes what its method computes, \<open>Handler_Properties\<close> also how two requests for one pod go
    wrong, and \<open>Handler_Progress\<close> that no request is served forever and what it can wait for.
  \<^item> \<open>Net_Devices\<close>, \<open>Plugin_Ipvlan\<close>, \<open>Plugin_Ptp\<close> (\<open>pkg/plugin\<close>), \<open>Cni\<close> (\<open>cmd/cni/rubble.go\<close>),
    \<open>Cni_Laws\<close>, \<open>Net_Effects\<close>, \<open>Cni_Properties\<close>: the plugin with its drivers, which share the
    contract \<open>driver\<close>. \<open>Net_Effects\<close> follows a view of the network through their runs: which
    namespace the plugin is in, and the addresses, devices, pairs and routes of each (\<open>net_laws\<close>).
    The commands composed with the daemon: the address on the device in the pod's namespace is the
    address of the port recorded for the pod, the node routes it to the pod's other end, adding and
    deleting restores what was in use, and what happens when a step fails.
  \<^item> This theory: what a restart restores, which spans the database, the daemon, the manager and
    the pool.

  \<^bold>\<open>Not modelled.\<close> The generated code of \<open>pkg/rpc\<close> but for its messages, and the transport: a call of
  the plugin is a call of the handler. JSON, the parser of IPv6 addresses and all third-party
  libraries are arguments. \<open>CreatePort\<close> reads the subnet and the network one after the other before
  it creates the port, where the code starts a goroutine for each beside the creation; the goroutine
  that stays blocked on its channel when the creation or the first read fails has no counterpart.
  In \<open>hstep\<close> the creation of a port for a static address and that of the pool are one step
  with all their API calls, and the slice of idle items that \<open>GetIdle\<close> hands out, which in the code
  shares its memory with the queue, is a snapshot.
  The concurrency of several plugin processes on one host is left out,
  and so is the memory model of Go: the program's unlocked reads of the pool's fields are modelled
  as reads of a consistent state. Go's iteration order over a map is the order of the association
  list, and no statement depends on it.
\<close>

section \<open>Restarting the daemon\<close>

text \<open>
  C8. Restarting the daemon on the database of a running one: the new server is in order, its
  database has the same record for every pod, and of the ports the service lists for this node
  exactly those are in use that some record names.
\<close>

theorem restart_restores_use:
  assumes "served_ok issued contents s" "neutron_ok issued (networkCliV2 client)"
    and "\<forall>ns name. grows issued (pods_Get kc ns name)"
    and "NewDiskStorage (ds_name (srv_resourceDB s)) dir mk (Inr (ds_db (srv_resourceDB s)))
      (ds_file (srv_resourceDB s)) (ds_serializer (srv_resourceDB s)) (ds_deserializer (srv_resourceDB s)) =
      Returns (Inr d)"
    and "newDaemonServer (Inr client) (Inr c) (Inr ni) (Inr kc) (Inr d) disk_storage P clk rnd w = Returns (Inr srv)"
    and "pods_List kc [(''vpc-cni'', ''true'')] (node_Name (named_node c ni)) w = (Returns (Inr pods), w0)"
    and "GetNetworkID client (dc_NetID c) w0 = (Returns (Inr netId), w1)"
    and "GetSubnetworkID client (dc_SubnetID c) w1 = (Returns (Inr subnetId), w2)"
    and "GetSubnet client subnetId w2 = (Returns (Inr subnet), w3)"
    and "ListPortWithFilter client
       \<lparr>lf_NetworkID = netId, lf_DeviceOwner = DeviceOwner, lf_DeviceID = '''',
        lf_Tags = vm_tag (node_UUID ni)\<rparr> w3 = (Returns (ports, None), w4)"
  shows "served_ok issued contents srv \<and> \<not> locked (srv_portManager srv) \<and>
     (\<forall>key. gmap_get (records srv) key = gmap_get (records s) key) \<and>
     inuse_ids (srv_portManager srv) =
       mset [rid \<leftarrow> map np_ID ports. \<exists>rec \<in> snd ` set (records s). rid \<in> ri_ID ` set (pr_Resources rec)]"
proof -
  have old: "disk_ok contents (srv_resourceDB s)" using assms(1) by (simp add: served_ok_def daemon_ok_def)
  then have db: "bolt_ok contents (ds_db (srv_resourceDB s))" and wf: "gmap_ok (records s)"
    and enc: "\<And>v e. ds_serializer (srv_resourceDB s) v = Inr e \<Longrightarrow> ds_deserializer (srv_resourceDB s) e = Inr v"
    by (simp_all add: disk_ok_def records_def)
  note n = NewDiskStorage_ok [OF db enc assms(4)]
  have same: "gmap_get (ms_store (ds_memory d)) key = gmap_get (records s) key" for key
    unfolding records_def by (rule mirrors_same [OF n(1) old]) (simp_all add: n)
  obtain m where srv: "srv_k8s srv = \<lparr>k8s_client = kc, k8s_nodeName = node_Name (named_node c ni)\<rparr>"
    "srv_storage srv = disk_storage" "srv_resourceDB srv = d"
    "NewPortResourceManager (c\<lparr>dc_Node := Some (named_node c ni)\<rparr>) client m clk rnd w0 =
       Returns (Inr (srv_portManager srv))"
    "\<forall>rid. rid \<in> gmap_keys m \<longleftrightarrow>
      (\<exists>key p. gmap_get (ms_store (ds_memory d)) key = Some p \<and> rid \<in> ri_ID ` set (pr_Resources p))"
    by (rule newDaemonServer_success [OF n(1) assms(5,6)])
  have sel: "dc_NetID (c\<lparr>dc_Node := Some (named_node c ni)\<rparr>) = dc_NetID c"
    "dc_SubnetID (c\<lparr>dc_Node := Some (named_node c ni)\<rparr>) = dc_SubnetID c"
    "dc_Node (c\<lparr>dc_Node := Some (named_node c ni)\<rparr>) = Some (named_node c ni)" by simp_all
  note starts = manager_starts [OF assms(2) assms(7) [folded sel(1)] assms(8) [folded sel(2)] assms(9) sel(3)
      assms(10) [folded named_node_UUID [of c ni]] srv(4)]
  have keys: "rid \<in> gmap_keys m \<longleftrightarrow> (\<exists>rec \<in> snd ` set (records s). rid \<in> ri_ID ` set (pr_Resources rec))" for rid
    unfolding spec [OF srv(5)] same by (rule gmap_values_get [OF wf])
  have ok: "served_ok issued contents srv"
    using n(1) starts(1) srv(1-3) assms(3) by (simp add: served_ok_def daemon_ok_def kube_ok_def)
  have recs: "\<forall>key. gmap_get (records srv) key = gmap_get (records s) key"
    using same srv(3) by (simp add: records_def)
  show ?thesis using ok recs starts(2) starts(3) [unfolded keys] by (intro conjI)
qed

definition sim_info :: NodeInfo where
  "sim_info = \<lparr>node_UUID = ''vm'', node_Hostname = '''', node_ProjectID = '''', node_Name = ''node'',
     node_AvailabilityZone = ''''\<rparr>"

lemma sim_reopen:
  "NewDiskStorage ''res'' True None (Inr sim_bolt) (ds_file sim_store) sim_ser sim_deser = Returns (Inr sim_store)"
  by (simp add: NewDiskStorage_def load_db_def ds_tx_run sim_bolt_def sim_store_def sim_deser_def ds_mem_run
      Memory_runs NewMemoryStorage_def new_record_def sim_port0_def gmap_put_def)

lemma sim_restart:
  "\<exists>srv. newDaemonServer (Inr sim_client) (Inr sim_config) (Inr sim_info) (Inr (k8s_client sim_k8s)) (Inr sim_store)
     disk_storage (\<lambda>a. True) (sconst 0) (sconst 0) sim_node = Returns (Inr srv)"
proof -
  have conf: "sim_config\<lparr>dc_Node := Some sim_info\<rparr> = sim_config" by (simp add: sim_config_def sim_info_def)
  have get: "st_Get disk_storage key sim_store = (Returns (case gmap_get (ms_store (ds_memory sim_store)) key of
      None \<Rightarrow> Inl StorageErrNotFound | Some v \<Rightarrow> Inr v), sim_store)" for key
    using Disk_read_runs(1) [OF sim_store_ok] by (simp add: disk_storage_def)
  have lst: "st_List disk_storage sim_store =
      (Returns (Inr [new_record (convertPod (sim_kpod ''db'')) sim_port0]), sim_store)"
    using Disk_read_runs(2) [OF sim_store_ok] by (simp add: disk_storage_def) (simp add: sim_store_def)
  have store: "ms_store (ds_memory sim_store) = [(''ns/db'', new_record (convertPod (sim_kpod ''db'')) sim_port0)]"
    by (simp add: sim_store_def)
  have pods: "pods_List (k8s_client sim_k8s) l nn w = (Returns (Inr [sim_kpod ''db'', sim_kpod ''web'']), w)" for l nn w
    by (simp add: sim_k8s_def)
  obtain p where p: "NewPortResourceManager sim_config sim_client [(sim_id 0, [''ns/db''])] (sconst 0) (sconst 0) sim_node =
     Returns (Inr p)" using sim_start by blast
  show ?thesis
    by (simp add: newDaemonServer_def Let_def sim_info_def [THEN arg_cong, of node_Name] conf ListLocalPods_def pods get store lst
        gmap_get_def gmap_put_def getPortsMapping_def new_record_def p)
qed

theorem restart_restores_use_witness:
  "\<exists>srv. newDaemonServer (Inr sim_client) (Inr sim_config) (Inr sim_info) (Inr (k8s_client sim_k8s)) (Inr sim_store)
       disk_storage (\<lambda>a. True) (sconst 0) (sconst 0) sim_node = Returns (Inr srv) \<and>
     served_ok sim_issued sim_contents srv \<and> inuse_ids (srv_portManager srv) = {#sim_id 0#}"
proof -
  obtain srv where srv: "newDaemonServer (Inr sim_client) (Inr sim_config) (Inr sim_info) (Inr (k8s_client sim_k8s))
      (Inr sim_store) disk_storage (\<lambda>a. True) (sconst 0) (sconst 0) sim_node = Returns (Inr srv)"
    using sim_restart by blast
  have api: "neutron_ok sim_issued (networkCliV2 sim_client)" using sim_neutron_ok by (simp add: sim_client_def)
  have kube: "\<forall>ns name. grows sim_issued (pods_Get (k8s_client sim_k8s) ns name)" by (simp add: grows_def sim_k8s_def)
  have open_again: "NewDiskStorage (ds_name (srv_resourceDB (sim_server sim_pool))) True None
      (Inr (ds_db (srv_resourceDB (sim_server sim_pool)))) (ds_file (srv_resourceDB (sim_server sim_pool)))
      (ds_serializer (srv_resourceDB (sim_server sim_pool))) (ds_deserializer (srv_resourceDB (sim_server sim_pool))) =
      Returns (Inr sim_store)"
    using sim_reopen by (simp add: sim_store_def)
  have pods: "pods_List (k8s_client sim_k8s) [(''vpc-cni'', ''true'')] (node_Name (named_node sim_config sim_info)) sim_node =
      (Returns (Inr [sim_kpod ''db'', sim_kpod ''web'']), sim_node)"
    by (simp add: sim_k8s_def)
  have conf: "dc_NetID sim_config = ''net''" "dc_SubnetID sim_config = ''pods''"
    by (simp_all add: sim_config_def)
  note r = restart_restores_use [OF sim_servers(1) api kube open_again srv pods sim_reads(1) [folded conf]
      sim_reads(2) [folded conf] sim_reads(3,4)]
  have "[rid \<leftarrow> map np_ID (sim_live sim_node).
      \<exists>rec \<in> snd ` set (records (sim_server sim_pool)). rid \<in> ri_ID ` set (pr_Resources rec)] = [sim_id 0]"
    by (simp add: sim_node_live sim_port_def new_record_def)
  then have "inuse_ids (srv_portManager srv) = {#sim_id 0#}" using r by simp
  then show ?thesis using srv r by blast
qed

end
